(* ===== verification/Go_Prelude.thy ===== *)
theory Go_Prelude
  imports Main "HOL-Library.Word" "HOL-Library.Char_ord" "HOL-Library.Sublist"
begin

unbundle bit_operations_syntax

text \<open>
  The part of Go that every component of sprut uses: bytes and strings, errors as values with
  \<open>errors.Is\<close>, results that are a value, an error or a panic, a state-passing monad for code
  that reads and writes connections and buffers, big-endian integers, \<open>copy\<close> and slices.
  It also declares the lemma collections of the development and the two ways in which
  properties of monadic code are composed: \<open>refines\<close> (a functional refinement between two
  computations) and \<open>safe\<close> (an invariant kept on every path together with the absence of
  panics).
\<close>

named_theorems go_defs
  \<open>definitions of the monad, for unfolding a computation completely\<close>
named_theorems refine_intros
  \<open>closure rules of the refinement relation between computations\<close>
named_theorems safe_intros
  \<open>closure rules for invariants that a computation keeps without panicking\<close>
named_theorems keeps_intros
  \<open>closure rules for the parts of the state that a computation leaves as they are\<close>
named_theorems stable_intros
  \<open>closure rules for properties of the state that a computation does not destroy\<close>

named_theorems sizes
  \<open>the numeric constants of the wire protocol\<close>

section \<open>Types\<close>

type_synonym byte = "8 word"
type_synonym bytes = "byte list"
type_synonym uint16 = "16 word"
type_synonym uint32 = "32 word"
type_synonym uint64 = "64 word"

text \<open>
  Errors. \<open>ErrNew\<close> is \<open>errors.New\<close> (the sentinels of the program and of the standard
  library, told apart by their texts), \<open>Errorf\<close> is \<open>fmt.Errorf\<close> without \<open>%w\<close> (format and
  numeric arguments), \<open>Wrapf\<close> is \<open>fmt.Errorf("...: %w", err)\<close>, \<open>WrapStr\<close> is
  \<open>fmt.Errorf("%w: %s", err, text)\<close> and \<open>JoinErr\<close> is \<open>errors.Join\<close>.
\<close>

datatype go_error =
    ErrNew string
  | Errorf string "int list"
  | Wrapf string go_error
  | WrapStr go_error string
  | JoinErr "go_error list"

fun errors_is :: "go_error \<Rightarrow> go_error \<Rightarrow> bool" where
  "errors_is (ErrNew s) t \<longleftrightarrow> ErrNew s = t"
| "errors_is (Errorf s ns) t \<longleftrightarrow> Errorf s ns = t"
| "errors_is (Wrapf s e) t \<longleftrightarrow> Wrapf s e = t \<or> errors_is e t"
| "errors_is (WrapStr e s) t \<longleftrightarrow> WrapStr e s = t \<or> errors_is e t"
| "errors_is (JoinErr es) t \<longleftrightarrow> JoinErr es = t \<or> (\<exists>e \<in> set es. errors_is e t)"

datatype 'a res = Ok 'a | Err go_error | Panic string

type_synonym ('s, 'a) go = "'s \<Rightarrow> 'a res \<times> 's"

section \<open>Sequencing, error wrapping and deferred calls\<close>

definition go_return :: "'a \<Rightarrow> ('s, 'a) go" where [go_defs]:
  "go_return x = (\<lambda>s. (Ok x, s))"

definition go_fail :: "go_error \<Rightarrow> ('s, 'a) go" where [go_defs]:
  "go_fail e = (\<lambda>s. (Err e, s))"

definition go_panic :: "string \<Rightarrow> ('s, 'a) go" where [go_defs]:
  "go_panic p = (\<lambda>s. (Panic p, s))"

definition go_bind :: "('s, 'a) go \<Rightarrow> ('a \<Rightarrow> ('s, 'b) go) \<Rightarrow> ('s, 'b) go" where [go_defs]:
  "go_bind m f = (\<lambda>s. case m s of
      (Ok x, s') \<Rightarrow> f x s'
    | (Err e, s') \<Rightarrow> (Err e, s')
    | (Panic p, s') \<Rightarrow> (Panic p, s'))"

text \<open>\<open>if err := m(); err != nil { return fmt.Errorf("msg: %w", err) }\<close>\<close>

definition wrapf :: "string \<Rightarrow> ('s, 'a) go \<Rightarrow> ('s, 'a) go" where [go_defs]:
  "wrapf msg m = (\<lambda>s. case m s of
      (Ok x, s') \<Rightarrow> (Ok x, s')
    | (Err e, s') \<Rightarrow> (Err (Wrapf msg e), s')
    | (Panic p, s') \<Rightarrow> (Panic p, s'))"

text \<open>\<open>defer\<close>: the deferred call runs after the body on every path; its own result is dropped.\<close>

definition go_defer :: "('s, 'b) go \<Rightarrow> ('s, 'a) go \<Rightarrow> ('s, 'a) go" where [go_defs]:
  "go_defer d m = (\<lambda>s. let (r, s1) = m s in (r, snd (d s1)))"

definition go_guard :: "bool \<Rightarrow> go_error \<Rightarrow> ('s, unit) go" where [go_defs]:
  "go_guard b e = (if b then go_return () else go_fail e)"

definition go_get :: "('s, 's) go" where [go_defs]:
  "go_get = (\<lambda>s. (Ok s, s))"

definition go_modify :: "('s \<Rightarrow> 's) \<Rightarrow> ('s, unit) go" where [go_defs]:
  "go_modify f = (\<lambda>s. (Ok (), f s))"

text \<open>A computation on one component of a larger state.\<close>

definition go_lift :: "('s \<Rightarrow> 't) \<Rightarrow> ('t \<Rightarrow> 's \<Rightarrow> 's) \<Rightarrow> ('t, 'a) go \<Rightarrow> ('s, 'a) go" where [go_defs]:
  "go_lift get put m = (\<lambda>s. let (r, t) = m (get s) in (r, put t s))"

section \<open>Bytes, strings, slices\<close>

definition byte_of_char :: "char \<Rightarrow> byte" where
  "byte_of_char c = of_nat (of_char c)"

definition char_of_byte :: "byte \<Rightarrow> char" where
  "char_of_byte b = char_of (unat b)"

definition bytes_of_string :: "string \<Rightarrow> bytes" where
  "bytes_of_string s = map byte_of_char s"

definition string_of_bytes :: "bytes \<Rightarrow> string" where
  "string_of_bytes bs = map char_of_byte bs"

definition slice :: "bytes \<Rightarrow> nat \<Rightarrow> nat \<Rightarrow> bytes" where
  "slice b lo hi = take (hi - lo) (drop lo b)"

text \<open>\<open>copy(b[off:], src)\<close>: copies as many bytes as fit.\<close>

definition copy_at :: "bytes \<Rightarrow> nat \<Rightarrow> bytes \<Rightarrow> bytes" where
  "copy_at b off src = take off b @ take (length b - off) src @ drop (off + length src) b"

section \<open>Big-endian integers (encoding/binary)\<close>

definition PutUint16 :: "uint16 \<Rightarrow> bytes" where
  "PutUint16 v = [ucast (drop_bit 8 v), ucast v]"

definition GetUint16 :: "bytes \<Rightarrow> uint16" where
  "GetUint16 b = ucast (b ! 1) OR push_bit 8 (ucast (b ! 0))"

definition PutUint32 :: "uint32 \<Rightarrow> bytes" where
  "PutUint32 v = [ucast (drop_bit 24 v), ucast (drop_bit 16 v), ucast (drop_bit 8 v), ucast v]"

definition GetUint32 :: "bytes \<Rightarrow> uint32" where
  "GetUint32 b = ucast (b ! 3) OR push_bit 8 (ucast (b ! 2))
     OR push_bit 16 (ucast (b ! 1)) OR push_bit 24 (ucast (b ! 0))"

definition PutUint64 :: "uint64 \<Rightarrow> bytes" where
  "PutUint64 v = [ucast (drop_bit 56 v), ucast (drop_bit 48 v), ucast (drop_bit 40 v),
     ucast (drop_bit 32 v), ucast (drop_bit 24 v), ucast (drop_bit 16 v),
     ucast (drop_bit 8 v), ucast v]"

definition GetUint64 :: "bytes \<Rightarrow> uint64" where
  "GetUint64 b = ucast (b ! 7) OR push_bit 8 (ucast (b ! 6))
     OR push_bit 16 (ucast (b ! 5)) OR push_bit 24 (ucast (b ! 4))
     OR push_bit 32 (ucast (b ! 3)) OR push_bit 40 (ucast (b ! 2))
     OR push_bit 48 (ucast (b ! 1)) OR push_bit 56 (ucast (b ! 0))"

section \<open>Hexadecimal text (encoding/hex) and \<open>strings.Join\<close>\<close>

definition hextable :: string where
  "hextable = ''0123456789abcdef''"

definition hex_byte :: "byte \<Rightarrow> string" where
  "hex_byte b = [hextable ! (unat b div 16), hextable ! (unat b mod 16)]"

definition hex_EncodeToString :: "bytes \<Rightarrow> string" where
  "hex_EncodeToString bs = concat (map hex_byte bs)"

fun strings_Join :: "string list \<Rightarrow> string \<Rightarrow> string" where
  "strings_Join [] sep = ''''"
| "strings_Join [x] sep = x"
| "strings_Join (x # y # xs) sep = x @ sep @ strings_Join (y # xs) sep"

section \<open>Ways to compose properties of computations\<close>

text \<open>\<open>m\<close> behaves as \<open>m'\<close> does on the abstraction of its state.\<close>

definition refines :: "('s \<Rightarrow> 't) \<Rightarrow> ('s, 'a) go \<Rightarrow> ('t, 'a) go \<Rightarrow> bool" where
  "refines \<alpha> m m' \<longleftrightarrow> (\<forall>s. map_prod id \<alpha> (m s) = m' (\<alpha> s))"

text \<open>From any state with \<open>I\<close>, the computation ends in a state with \<open>I\<close> and does not panic.\<close>

definition safe :: "('s \<Rightarrow> bool) \<Rightarrow> ('s, 'a) go \<Rightarrow> bool" where
  "safe I m \<longleftrightarrow> (\<forall>s. I s \<longrightarrow> I (snd (m s)) \<and> (\<forall>p. fst (m s) \<noteq> Panic p))"

section \<open>Laws of the monad\<close>

lemma go_bind_Ok [simp]: "m s = (Ok x, s') \<Longrightarrow> go_bind m f s = f x s'"
  by (simp add: go_bind_def)

lemma go_bind_Err [simp]: "m s = (Err e, s') \<Longrightarrow> go_bind m f s = (Err e, s')"
  by (simp add: go_bind_def)

lemma go_bind_Panic [simp]: "m s = (Panic p, s') \<Longrightarrow> go_bind m f s = (Panic p, s')"
  by (simp add: go_bind_def)

lemma wrapf_Ok [simp]: "m s = (Ok x, s') \<Longrightarrow> wrapf msg m s = (Ok x, s')"
  by (simp add: wrapf_def)

lemma wrapf_Err [simp]: "m s = (Err e, s') \<Longrightarrow> wrapf msg m s = (Err (Wrapf msg e), s')"
  by (simp add: wrapf_def)

lemma go_return_apply [simp]: "go_return x s = (Ok x, s)"
  by (simp add: go_return_def)

lemma go_fail_apply [simp]: "go_fail e s = (Err e, s)"
  by (simp add: go_fail_def)

lemma go_guard_apply [simp]: "go_guard b e s = (if b then Ok () else Err e, s)"
  by (simp add: go_guard_def)

lemma go_bind_guard [simp]:
  "go_bind (go_guard b e) f s = (if b then f () s else (Err e, s))"
  by (simp add: go_bind_def)

lemma go_get_apply [simp]: "go_get s = (Ok s, s)"
  by (simp add: go_get_def)

lemma go_modify_apply [simp]: "go_modify f s = (Ok (), f s)"
  by (simp add: go_modify_def)

text \<open>A successful run is a sequence of successful steps.\<close>

lemma go_bind_eq_Ok:
  "go_bind m f s = (Ok y, t) \<longleftrightarrow> (\<exists>x s'. m s = (Ok x, s') \<and> f x s' = (Ok y, t))"
  by (auto simp: go_bind_def split: prod.splits res.splits)

lemma wrapf_eq_Ok: "wrapf msg m s = (Ok x, t) \<longleftrightarrow> m s = (Ok x, t)"
  by (auto simp: wrapf_def split: prod.splits res.splits)

lemma go_guard_eq_Ok: "go_guard b e s = (Ok x, t) \<longleftrightarrow> b \<and> t = s"
  by auto

lemma go_defer_eq_Ok: "go_defer d m s = (Ok x, t) \<longleftrightarrow> (\<exists>s1. m s = (Ok x, s1) \<and> t = snd (d s1))"
  by (auto simp: go_defer_def split: prod.splits)

lemma go_lift_eq_Ok:
  "go_lift get put m s = (Ok x, t) \<longleftrightarrow> (\<exists>u. m (get s) = (Ok x, u) \<and> t = put u s)"
  by (auto simp: go_lift_def split: prod.splits)

lemma fst_go_defer [simp]: "fst (go_defer d m s) = fst (m s)"
  by (simp add: go_defer_def split: prod.splits)

lemma snd_go_defer [simp]: "snd (go_defer d m s) = snd (d (snd (m s)))"
  by (simp add: go_defer_def split: prod.splits)

lemmas go_eq_Ok = go_bind_eq_Ok wrapf_eq_Ok go_guard_eq_Ok go_defer_eq_Ok go_lift_eq_Ok

lemma go_bind_assoc: "go_bind (go_bind m f) g = go_bind m (\<lambda>x. go_bind (f x) g)"
  by (auto simp: go_bind_def fun_eq_iff split: prod.splits res.splits)

section \<open>Refinement\<close>

lemma refinesD: "refines \<alpha> m m' \<Longrightarrow> map_prod id \<alpha> (m s) = m' (\<alpha> s)"
  by (simp add: refines_def)

lemma refines_Ok: "refines \<alpha> m m' \<Longrightarrow> m' (\<alpha> s) = (Ok x, t) \<Longrightarrow> \<exists>s'. m s = (Ok x, s') \<and> \<alpha> s' = t"
  by (auto simp: refines_def dest!: spec [of _ s] intro: prod.expand)
     (metis eq_fst_iff eq_snd_iff fst_map_prod id_apply snd_map_prod)

lemma refines_Err: "refines \<alpha> m m' \<Longrightarrow> m' (\<alpha> s) = (Err e, t) \<Longrightarrow> \<exists>s'. m s = (Err e, s') \<and> \<alpha> s' = t"
  by (auto simp: refines_def dest!: spec [of _ s])
     (metis eq_fst_iff eq_snd_iff fst_map_prod id_apply snd_map_prod)

lemma refines_return [refine_intros]: "refines \<alpha> (go_return x) (go_return x)"
  by (simp add: refines_def)

lemma refines_fail [refine_intros]: "refines \<alpha> (go_fail e) (go_fail e)"
  by (simp add: refines_def)

lemma refines_guard [refine_intros]: "refines \<alpha> (go_guard b e) (go_guard b e)"
  by (simp add: refines_def)

lemma refines_bind [refine_intros]:
  assumes "refines \<alpha> m m'" and "\<And>x. refines \<alpha> (f x) (f' x)"
  shows "refines \<alpha> (go_bind m f) (go_bind m' f')"
  unfolding refines_def
proof
  fix s
  have "m' (\<alpha> s) = map_prod id \<alpha> (m s)" using assms(1) by (simp add: refines_def)
  moreover have "f' x (\<alpha> t) = map_prod id \<alpha> (f x t)" for x t
    using assms(2) by (simp add: refines_def)
  ultimately show "map_prod id \<alpha> (go_bind m f s) = go_bind m' f' (\<alpha> s)"
    by (auto simp: go_bind_def split: prod.splits res.splits)
qed

lemma refines_wrapf [refine_intros]:
  assumes "refines \<alpha> m m'"
  shows "refines \<alpha> (wrapf msg m) (wrapf msg m')"
proof -
  have "m' (\<alpha> s) = map_prod id \<alpha> (m s)" for s using assms by (simp add: refines_def)
  then show ?thesis
    by (auto simp: refines_def wrapf_def split: prod.splits res.splits)
qed

lemma refines_if [refine_intros]:
  "refines \<alpha> m m' \<Longrightarrow> refines \<alpha> n n' \<Longrightarrow> refines \<alpha> (if b then m else n) (if b then m' else n')"
  by simp

section \<open>Invariants without panics\<close>

lemma safeD: "safe I m \<Longrightarrow> I s \<Longrightarrow> m s = (r, t) \<Longrightarrow> I t \<and> (\<forall>p. r \<noteq> Panic p)"
  by (auto simp: safe_def)

lemma safe_return [safe_intros]: "safe I (go_return x)"
  by (simp add: safe_def)

lemma safe_fail [safe_intros]: "safe I (go_fail e)"
  by (simp add: safe_def)

lemma safe_guard [safe_intros]: "safe I (go_guard b e)"
  by (simp add: safe_def)

lemma safe_get [safe_intros]: "safe I go_get"
  by (simp add: safe_def)

lemma safe_bind [safe_intros]:
  assumes "safe I m" and "\<And>x. safe I (f x)"
  shows "safe I (go_bind m f)"
  unfolding safe_def
proof (intro allI impI)
  fix s assume "I s"
  obtain r s1 where m: "m s = (r, s1)" by (cases "m s")
  with assms(1) \<open>I s\<close> have s1: "I s1" "\<forall>p. r \<noteq> Panic p" by (auto dest: safeD)
  show "I (snd (go_bind m f s)) \<and> (\<forall>p. fst (go_bind m f s) \<noteq> Panic p)"
    using m s1 assms(2) by (cases r) (auto simp: safe_def)
qed

text \<open>The same with a postcondition of the first computation.\<close>

lemma safe_bind_post:
  assumes "safe I m" and "\<And>s x t. I s \<Longrightarrow> m s = (Ok x, t) \<Longrightarrow> Q x" and "\<And>x. Q x \<Longrightarrow> safe I (f x)"
  shows "safe I (go_bind m f)"
  unfolding safe_def
proof (intro allI impI)
  fix s assume "I s"
  obtain r s1 where m: "m s = (r, s1)" by (cases "m s")
  with assms(1) \<open>I s\<close> have s1: "I s1" "\<forall>p. r \<noteq> Panic p" by (auto dest: safeD)
  show "I (snd (go_bind m f s)) \<and> (\<forall>p. fst (go_bind m f s) \<noteq> Panic p)"
    using m s1 assms(2) [OF \<open>I s\<close>] assms(3) by (cases r) (auto simp: safe_def)
qed

lemma safe_bind_guard:
  "(b \<Longrightarrow> safe I (f ())) \<Longrightarrow> safe I (go_bind (go_guard b e) f)"
  by (simp add: safe_def)

lemma safe_bind_get:
  "(\<And>s. I s \<Longrightarrow> safe I (f s)) \<Longrightarrow> safe I (go_bind go_get f)"
  by (simp add: safe_def go_get_def go_bind_def)

lemma safe_wrapf [safe_intros]: "safe I m \<Longrightarrow> safe I (wrapf msg m)"
  by (auto simp: safe_def wrapf_def split: prod.splits res.splits)

lemma safe_defer [safe_intros]: "safe I d \<Longrightarrow> safe I m \<Longrightarrow> safe I (go_defer d m)"
  by (auto simp: safe_def go_defer_def split: prod.splits)

lemma safe_if [safe_intros]: "safe I m \<Longrightarrow> safe I n \<Longrightarrow> safe I (if b then m else n)"
  by simp

section \<open>What a computation leaves as it is\<close>

text \<open>\<open>p\<close> reads the part of the state that \<open>m\<close> keeps, whatever its result.\<close>

definition keeps :: "('s \<Rightarrow> 'b) \<Rightarrow> ('s, 'a) go \<Rightarrow> bool" where
  "keeps p m \<longleftrightarrow> (\<forall>s r t. m s = (r, t) \<longrightarrow> p t = p s)"

lemma keepsD: "keeps p m \<Longrightarrow> m s = (r, t) \<Longrightarrow> p t = p s"
  by (simp add: keeps_def)

lemma keepsI: "(\<And>s r t. m s = (r, t) \<Longrightarrow> p t = p s) \<Longrightarrow> keeps p m"
  by (simp add: keeps_def)

lemma keeps_return [keeps_intros]: "keeps p (go_return x)"
  by (simp add: keeps_def)

lemma keeps_fail [keeps_intros]: "keeps p (go_fail e)"
  by (simp add: keeps_def)

lemma keeps_guard [keeps_intros]: "keeps p (go_guard b e)"
  by (simp add: keeps_def)

lemma keeps_get [keeps_intros]: "keeps p go_get"
  by (simp add: keeps_def)

lemma keeps_bind [keeps_intros]:
  assumes "keeps p m" and "\<And>x. keeps p (f x)"
  shows "keeps p (go_bind m f)"
proof (rule keepsI)
  fix s r t assume *: "go_bind m f s = (r, t)"
  obtain x s1 where m: "m s = (x, s1)" by (cases "m s")
  with assms(1) have "p s1 = p s" by (rule keepsD)
  with * m assms(2) show "p t = p s" by (cases x) (auto simp: keeps_def)
qed

lemma keeps_wrapf [keeps_intros]: "keeps p m \<Longrightarrow> keeps p (wrapf msg m)"
  by (fastforce simp: keeps_def wrapf_def split: prod.splits res.splits)

lemma keeps_defer [keeps_intros]: "keeps p d \<Longrightarrow> keeps p m \<Longrightarrow> keeps p (go_defer d m)"
proof (rule keepsI)
  fix s r t assume d: "keeps p d" and m: "keeps p m" and *: "go_defer d m s = (r, t)"
  obtain r1 s1 where 1: "m s = (r1, s1)" by (cases "m s")
  obtain r2 s2 where 2: "d s1 = (r2, s2)" by (cases "d s1")
  from * 1 2 have "t = s2" by (simp add: go_defer_def)
  with keepsD [OF d 2] keepsD [OF m 1] show "p t = p s" by simp
qed

lemma keeps_if [keeps_intros]: "keeps p m \<Longrightarrow> keeps p n \<Longrightarrow> keeps p (if b then m else n)"
  by simp

section \<open>What a computation does not destroy\<close>

text \<open>From a state with \<open>I\<close> the computation ends in a state with \<open>I\<close>, whatever its result.\<close>

definition stable :: "('s \<Rightarrow> bool) \<Rightarrow> ('s, 'a) go \<Rightarrow> bool" where
  "stable I m \<longleftrightarrow> (\<forall>s r t. I s \<longrightarrow> m s = (r, t) \<longrightarrow> I t)"

lemma stableD: "stable I m \<Longrightarrow> I s \<Longrightarrow> m s = (r, t) \<Longrightarrow> I t"
  by (simp add: stable_def)

lemma stable_snd: "stable I m \<Longrightarrow> I s \<Longrightarrow> I (snd (m s))"
  by (cases "m s") (simp add: stable_def)

lemma stableI: "(\<And>s r t. I s \<Longrightarrow> m s = (r, t) \<Longrightarrow> I t) \<Longrightarrow> stable I m"
  by (simp add: stable_def)

text \<open>Whatever depends only on a part that is kept is stable.\<close>

lemma stable_keeps: "keeps p m \<Longrightarrow> stable (\<lambda>s. I (p s)) m"
  by (auto simp: stable_def keeps_def)

lemma stable_return [stable_intros]: "stable I (go_return x)"
  by (simp add: stable_def)

lemma stable_fail [stable_intros]: "stable I (go_fail e)"
  by (simp add: stable_def)

lemma stable_guard [stable_intros]: "stable I (go_guard b e)"
  by (simp add: stable_def)

lemma stable_bind [stable_intros]:
  assumes "stable I m" and "\<And>x. stable I (f x)"
  shows "stable I (go_bind m f)"
proof (rule stableI)
  fix s r t assume "I s" and *: "go_bind m f s = (r, t)"
  obtain x s1 where m: "m s = (x, s1)" by (cases "m s")
  with assms(1) \<open>I s\<close> have "I s1" by (rule stableD)
  with * m assms(2) show "I t" by (cases x) (auto simp: stable_def)
qed

lemma stable_wrapf [stable_intros]: "stable I m \<Longrightarrow> stable I (wrapf msg m)"
  by (fastforce simp: stable_def wrapf_def split: prod.splits res.splits)

lemma stable_defer [stable_intros]:
  assumes "stable I d" and "stable I m"
  shows "stable I (go_defer d m)"
proof (rule stableI)
  fix s r t assume "I s" and *: "go_defer d m s = (r, t)"
  obtain r1 s1 where 1: "m s = (r1, s1)" by (cases "m s")
  obtain r2 s2 where 2: "d s1 = (r2, s2)" by (cases "d s1")
  from * 1 2 have "t = s2" by (simp add: go_defer_def)
  with stableD [OF assms(1) stableD [OF assms(2) \<open>I s\<close> 1] 2] show "I t" by simp
qed

lemma stable_if [stable_intros]: "stable I m \<Longrightarrow> stable I n \<Longrightarrow> stable I (if b then m else n)"
  by simp

section \<open>Bytes and strings\<close>

lemma char_of_byte_of_char [simp]: "char_of_byte (byte_of_char c) = c"
proof -
  have "(of_char c :: nat) < 256" by (rule nat_of_char_less_256)
  then have "unat (of_nat (of_char c) :: byte) = of_char c" by (simp add: unat_of_nat)
  then show ?thesis by (simp add: char_of_byte_def byte_of_char_def)
qed

lemma byte_of_char_of_byte [simp]: "byte_of_char (char_of_byte b) = b"
proof -
  have "unat b < 256" using unsigned_less [of b, where ?'a = nat] by simp
  then show ?thesis by (simp add: char_of_byte_def byte_of_char_def)
qed

lemma string_of_bytes_of_string [simp]: "string_of_bytes (bytes_of_string s) = s"
  by (simp add: string_of_bytes_def bytes_of_string_def comp_def)

lemma bytes_of_string_of_bytes [simp]: "bytes_of_string (string_of_bytes b) = b"
  by (simp add: string_of_bytes_def bytes_of_string_def comp_def)

lemma length_bytes_of_string [simp]: "length (bytes_of_string s) = length s"
  by (simp add: bytes_of_string_def)

lemma length_string_of_bytes [simp]: "length (string_of_bytes b) = length b"
  by (simp add: string_of_bytes_def)

lemma bytes_of_string_inject [simp]: "bytes_of_string s = bytes_of_string t \<longleftrightarrow> s = t"
  by (metis string_of_bytes_of_string)

section \<open>Big-endian integers: sizes and round trips\<close>

lemma length_PutUint [simp]:
  "length (PutUint16 v) = 2" "length (PutUint32 w) = 4" "length (PutUint64 x) = 8"
  by (simp_all add: PutUint16_def PutUint32_def PutUint64_def)

lemma bit_byte_at:
  fixes b :: byte
  shows "bit (push_bit k (ucast b) :: 'a::len word) n
    \<longleftrightarrow> k \<le> n \<and> n < k + 8 \<and> n < LENGTH('a) \<and> bit b (n - k)"
    and "bit (ucast b :: 'a word) n \<longleftrightarrow> n < 8 \<and> n < LENGTH('a) \<and> bit b n"
  by (auto simp: bit_simps dest: bit_imp_le_length)

lemma bit_byte_of_word:
  fixes v :: "'a::len word"
  shows "bit (ucast (drop_bit k v) :: byte) n \<longleftrightarrow> n < 8 \<and> bit v (k + n)"
    and "bit (ucast v :: byte) n \<longleftrightarrow> n < 8 \<and> bit v n"
  by (auto simp: bit_simps)

lemmas bit_bytes = bit_or_iff bit_byte_at bit_byte_of_word bit_drop_bit_eq

lemma byte_octants:
  assumes "n < (64::nat)"
  obtains "n < 8" | "8 \<le> n" "n < 16" | "16 \<le> n" "n < 24" | "24 \<le> n" "n < 32"
    | "32 \<le> n" "n < 40" | "40 \<le> n" "n < 48" | "48 \<le> n" "n < 56" | "56 \<le> n" "n < 64"
  using assms by fastforce

lemma GetUint16_Put [simp]: "GetUint16 (PutUint16 v) = v"
proof (rule bit_word_eqI)
  fix n assume "n < LENGTH(16)"
  then have "n < 8 \<or> 8 \<le> n \<and> n < 16" by auto
  then show "bit (GetUint16 (PutUint16 v)) n = bit v n"
    by (elim disjE) (simp_all add: GetUint16_def PutUint16_def bit_bytes less_diff_conv2)
qed

lemma GetUint32_Put [simp]: "GetUint32 (PutUint32 v) = v"
proof (rule bit_word_eqI)
  fix n assume "n < LENGTH(32)"
  then have "n < 64" "n < 32" by simp_all
  then show "bit (GetUint32 (PutUint32 v)) n = bit v n"
    by (cases n rule: byte_octants)
       (simp_all add: GetUint32_def PutUint32_def bit_bytes less_diff_conv2)
qed

lemma GetUint64_Put [simp]: "GetUint64 (PutUint64 v) = v"
proof (rule bit_word_eqI)
  fix n assume "n < LENGTH(64)"
  then have "n < 64" by simp
  then show "bit (GetUint64 (PutUint64 v)) n = bit v n"
    by (cases n rule: byte_octants)
       (simp_all add: GetUint64_def PutUint64_def bit_bytes less_diff_conv2)
qed

lemma byte_eqI: "(\<And>n. n < 8 \<Longrightarrow> bit (a::byte) n = bit b n) \<Longrightarrow> a = b"
  by (rule bit_word_eqI) simp

lemma PutUint16_Get: "length b = 2 \<Longrightarrow> PutUint16 (GetUint16 b) = b"
  by (cases b rule: list.exhaust; cases "tl b" rule: list.exhaust)
     (auto simp: PutUint16_def GetUint16_def bit_bytes intro!: byte_eqI)

lemma PutUint32_Get:
  assumes "length b = 4"
  shows "PutUint32 (GetUint32 b) = b"
proof -
  from assms obtain a0 a1 a2 a3 where b: "b = [a0, a1, a2, a3]"
    by (auto simp: numeral_eq_Suc length_Suc_conv)
  show ?thesis unfolding b PutUint32_def GetUint32_def
    by (auto simp: bit_bytes intro!: byte_eqI)
qed

lemma PutUint64_Get:
  assumes "length b = 8"
  shows "PutUint64 (GetUint64 b) = b"
proof -
  from assms obtain a0 a1 a2 a3 a4 a5 a6 a7 where b: "b = [a0, a1, a2, a3, a4, a5, a6, a7]"
    by (auto simp: numeral_eq_Suc length_Suc_conv)
  show ?thesis unfolding b PutUint64_def GetUint64_def
    by (auto simp: bit_bytes intro!: byte_eqI)
qed

lemma PutUint64_inject [simp]: "PutUint64 v = PutUint64 w \<longleftrightarrow> v = w"
  by (metis GetUint64_Put)

lemma PutUint32_inject [simp]: "PutUint32 v = PutUint32 w \<longleftrightarrow> v = w"
  by (metis GetUint32_Put)

section \<open>Slices and \<open>copy\<close>\<close>

lemma take_drop_take: "n \<le> m \<Longrightarrow> (take n xs @ drop n (take m xs)) @ drop m xs = xs"
  by (metis append_take_drop_id min.absorb1 take_take)

lemma take_take_drop: "take a xs @ take b (drop a xs) @ drop (a + b) xs = xs"
  by (metis add.commute append_take_drop_id drop_drop)

lemma length_slice [simp]: "hi \<le> length b \<Longrightarrow> length (slice b lo hi) = hi - lo"
  by (simp add: slice_def)

lemma length_copy_at [simp]: "off \<le> length b \<Longrightarrow> length (copy_at b off src) = length b"
  by (simp add: copy_at_def)

lemma slice_copy_at_same:
  "off + length src \<le> length b \<Longrightarrow> hi = off + length src \<Longrightarrow> slice (copy_at b off src) off hi = src"
  by (simp add: slice_def copy_at_def)

lemma slice_copy_at_below: "hi \<le> off \<Longrightarrow> off \<le> length b \<Longrightarrow> slice (copy_at b off src) lo hi = slice b lo hi"
  by (auto simp: slice_def copy_at_def drop_take)

lemma slice_copy_at_above:
  "off + length src \<le> lo \<Longrightarrow> lo \<le> length b \<Longrightarrow> slice (copy_at b off src) lo hi = slice b lo hi"
  by (auto simp: slice_def copy_at_def)

lemma slice_split: "lo \<le> mid \<Longrightarrow> mid \<le> hi \<Longrightarrow> slice b lo hi = slice b lo mid @ slice b mid hi"
  using take_add [of "mid - lo" "hi - mid" "drop lo b"] by (simp add: slice_def)

lemma slice_copy_at_exact:
  "off + length src \<le> length b \<Longrightarrow> lo = off \<Longrightarrow> hi = off + length src \<Longrightarrow> slice (copy_at b off src) lo hi = src"
  by (simp add: slice_copy_at_same)

lemmas slice_copy_at = slice_copy_at_exact slice_copy_at_below slice_copy_at_above

lemma copy_at_append:
  "length pre = off \<Longrightarrow> length src \<le> length b \<Longrightarrow>
     copy_at (pre @ b) off src = (pre @ src) @ drop (length src) b"
  by (simp add: copy_at_def)

lemma nth_copy_at_same: "off + length src \<le> length b \<Longrightarrow> i < length src \<Longrightarrow> copy_at b off src ! (off + i) = src ! i"
  by (simp add: copy_at_def nth_append)

section \<open>Hexadecimal text\<close>

lemma length_hextable [simp]: "length hextable = 16"
  by (simp add: hextable_def)

lemma hextable_inj: "i < 16 \<Longrightarrow> j < 16 \<Longrightarrow> hextable ! i = hextable ! j \<longleftrightarrow> i = j"
proof -
  have "distinct hextable" by (simp add: hextable_def)
  then show "i < 16 \<Longrightarrow> j < 16 \<Longrightarrow> hextable ! i = hextable ! j \<longleftrightarrow> i = j"
    by (simp add: nth_eq_iff_index_eq)
qed

lemma unat_byte_div: "unat (b :: byte) div 16 < 16"
  using unsigned_less [of b, where ?'a = nat] by simp

lemma hex_byte_inject [simp]: "hex_byte a = hex_byte b \<longleftrightarrow> a = b"
proof
  assume "hex_byte a = hex_byte b"
  then have "unat a div 16 = unat b div 16" "unat a mod 16 = unat b mod 16"
    by (simp_all add: hex_byte_def hextable_inj unat_byte_div)
  then have "unat a = unat b" by (metis div_mult_mod_eq)
  then show "a = b" by (rule unsigned_word_eqI)
qed simp

lemma length_hex_byte [simp]: "length (hex_byte b) = 2"
  by (simp add: hex_byte_def)

lemma length_hex [simp]: "length (hex_EncodeToString bs) = 2 * length bs"
  by (induction bs) (simp_all add: hex_EncodeToString_def)

lemma hex_inject [simp]: "hex_EncodeToString xs = hex_EncodeToString ys \<longleftrightarrow> xs = ys"
proof
  assume *: "hex_EncodeToString xs = hex_EncodeToString ys"
  then have "length (hex_EncodeToString xs) = length (hex_EncodeToString ys)" by (rule arg_cong)
  then have "length xs = length ys" by simp
  then show "xs = ys" using *
    by (induction xs ys rule: list_induct2) (simp_all add: hex_EncodeToString_def)
qed simp

lemma hex_digits: "c \<in> set (hex_EncodeToString bs) \<Longrightarrow> c \<in> set hextable"
  by (auto simp: hex_EncodeToString_def hex_byte_def unat_byte_div intro!: nth_mem)

section \<open>Transition systems\<close>

definition reachable :: "('s \<Rightarrow> bool) \<Rightarrow> ('s \<Rightarrow> 's \<Rightarrow> bool) \<Rightarrow> 's \<Rightarrow> bool" where
  "reachable init step s \<longleftrightarrow> (\<exists>s0. init s0 \<and> step\<^sup>*\<^sup>* s0 s)"

lemma reachable_init: "init s \<Longrightarrow> reachable init step s"
  by (auto simp: reachable_def)

lemma reachable_step: "reachable init step s \<Longrightarrow> step s t \<Longrightarrow> reachable init step t"
  unfolding reachable_def by (elim exE conjE) (intro exI conjI, assumption, erule (1) rtranclp.rtrancl_into_rtrancl)

text \<open>An inductive invariant: it holds at the start and every step keeps it.\<close>

locale inductive_invariant =
  fixes init :: "'s \<Rightarrow> bool" and step :: "'s \<Rightarrow> 's \<Rightarrow> bool" and inv :: "'s \<Rightarrow> bool"
  assumes inv_init: "init s \<Longrightarrow> inv s"
    and inv_step: "inv s \<Longrightarrow> step s t \<Longrightarrow> inv t"
begin

lemma inv_steps: "step\<^sup>*\<^sup>* s t \<Longrightarrow> inv s \<Longrightarrow> inv t"
  by (induction rule: rtranclp_induct) (auto intro: inv_step)

lemma inv_reachable: "reachable init step s \<Longrightarrow> inv s"
  by (auto simp: reachable_def intro: inv_init inv_steps)

end

text \<open>A relation between the states before and after a run that every step from a good state keeps.\<close>

locale step_guarantee = inductive_invariant init step inv
  for init :: "'s \<Rightarrow> bool" and step :: "'s \<Rightarrow> 's \<Rightarrow> bool" and inv :: "'s \<Rightarrow> bool" +
  fixes rel :: "'s \<Rightarrow> 's \<Rightarrow> bool"
  assumes rel_refl: "rel s s"
    and rel_trans: "rel s t \<Longrightarrow> rel t u \<Longrightarrow> rel s u"
    and rel_step: "inv s \<Longrightarrow> step s t \<Longrightarrow> rel s t"
begin

lemma rel_steps: "step\<^sup>*\<^sup>* s t \<Longrightarrow> inv s \<Longrightarrow> rel s t"
proof (induction rule: rtranclp_induct)
  case base
  show ?case by (rule rel_refl)
next
  case (step t u)
  then have "inv t" using inv_steps by blast
  with step show ?case by (blast intro: rel_trans rel_step)
qed

end

end
