(* ===== verification/Go_IO.thy ===== *)
theory Go_IO
  imports Go_Prelude
begin

text \<open>
  The Go I/O interfaces the program is written against. A reader is its \<open>Read\<close> method over a
  state; \<open>io.ReadFull\<close> is the loop of the standard library over that method. Three readers
  occur: a byte buffer (\<open>bytes.Buffer\<close>), a connection, whose bytes arrive in chunks (TLS
  records), and a \<open>bufio.Reader\<close> on top of a connection. The locale \<open>io_reader\<close> states the
  contract of \<open>Read\<close>; it gives the contract of \<open>ReadFull\<close>, the locale \<open>byte_source\<close>, which
  is all that the decoders of the wire protocol rely on. A writer collects the chunks it was
  given; a write may fail after a prefix.
\<close>

section \<open>Sentinel errors of the standard library\<close>

definition io_EOF :: go_error where
  "io_EOF = ErrNew ''EOF''"

definition io_ErrUnexpectedEOF :: go_error where
  "io_ErrUnexpectedEOF = ErrNew ''unexpected EOF''"

definition net_ErrClosed :: go_error where
  "net_ErrClosed = ErrNew ''use of closed network connection''"

definition os_ErrExist :: go_error where
  "os_ErrExist = ErrNew ''file already exists''"

definition os_ErrNotExist :: go_error where
  "os_ErrNotExist = ErrNew ''file does not exist''"

section \<open>Readers\<close>

type_synonym 'r read_fn = "nat \<Rightarrow> 'r \<Rightarrow> (bytes \<times> go_error option) \<times> 'r"

text \<open>
  \<open>io.ReadFull(r, buf)\<close>: read until \<open>need\<close> bytes are there or \<open>Read\<close> reports an error; an
  EOF after some bytes is \<open>ErrUnexpectedEOF\<close>. The bytes read so far are returned with the
  error, as the Go function leaves them in the buffer. The loop may call a \<open>Read\<close> that returns
  no byte and no error for ever; \<open>fuel\<close> bounds the number of calls, and \<open>None\<close> is the run that
  has not ended.
\<close>

fun ReadLoop :: "'r read_fn \<Rightarrow> nat \<Rightarrow> nat \<Rightarrow> bytes \<Rightarrow> 'r \<Rightarrow> ((bytes \<times> go_error option) \<times> 'r) option" where
  "ReadLoop rd fuel need acc r =
     (if need \<le> length acc then Some ((acc, None), r)
      else case fuel of
        0 \<Rightarrow> None
      | Suc fuel' \<Rightarrow>
          (case rd (need - length acc) r of
             ((b, None), r') \<Rightarrow> ReadLoop rd fuel' need (acc @ b) r'
           | ((b, Some e), r') \<Rightarrow>
               if need \<le> length (acc @ b) then Some ((acc @ b, None), r')
               else if acc @ b \<noteq> [] \<and> e = io_EOF then Some ((acc @ b, Some io_ErrUnexpectedEOF), r')
               else Some ((acc @ b, Some e), r')))"

declare ReadLoop.simps [simp del]

text \<open>
  A byte buffer: the remaining bytes and the error that follows them. Its \<open>ReadFull\<close> in closed
  form is the reference against which the others are specified.
\<close>

type_synonym byte_buf = "bytes \<times> go_error"

definition short_read :: "bytes \<Rightarrow> go_error \<Rightarrow> go_error" where
  "short_read bs e = (if bs \<noteq> [] \<and> e = io_EOF then io_ErrUnexpectedEOF else e)"

definition buf_ReadFull :: "byte_buf read_fn" where
  "buf_ReadFull n r = (case r of (bs, e) \<Rightarrow>
     if n \<le> length bs then ((take n bs, None), (drop n bs, e))
     else ((bs, Some (short_read bs e)), ([], e)))"

text \<open>A connection: the chunks still to be delivered and the error after the last one.\<close>

record rconn =
  rchunks :: "bytes list"
  rend :: go_error

definition conn_Read :: "rconn read_fn" where
  "conn_Read n r = (case rchunks r of
     [] \<Rightarrow> (([], Some (rend r)), r)
   | c # cs \<Rightarrow>
       if length c \<le> n then ((c, None), r\<lparr>rchunks := cs\<rparr>)
       else ((take n c, None), r\<lparr>rchunks := drop n c # cs\<rparr>))"

text \<open>
  \<open>bufio.Reader\<close>: the bytes read ahead and the connection below. A large read with an empty
  buffer goes straight to the connection; otherwise the buffer is refilled by one \<open>Read\<close>.
\<close>

definition bufio_size :: nat where
  "bufio_size = 4096"

record bufio =
  bbuf :: bytes
  bconn :: rconn

definition bufio_Read :: "bufio read_fn" where
  "bufio_Read n b =
     (if bbuf b \<noteq> [] then ((take n (bbuf b), None), b\<lparr>bbuf := drop n (bbuf b)\<rparr>)
      else if bufio_size \<le> n then
        (case conn_Read n (bconn b) of (res, c') \<Rightarrow> (res, b\<lparr>bconn := c'\<rparr>))
      else
        (case conn_Read bufio_size (bconn b) of
           ((bs, None), c') \<Rightarrow> ((take n bs, None), \<lparr>bbuf = drop n bs, bconn = c'\<rparr>)
         | ((bs, Some e), c') \<Rightarrow> (([], Some e), b\<lparr>bconn := c'\<rparr>)))"

text \<open>
  \<open>ReadFull\<close> on the two: as many calls as there are chunks, two more per byte wanted at most.
\<close>

definition conn_ReadFull :: "rconn read_fn" where
  "conn_ReadFull n r = the (ReadLoop conn_Read (Suc (length (rchunks r) + n)) n [] r)"

definition bufio_ReadFull :: "bufio read_fn" where
  "bufio_ReadFull n b = the (ReadLoop bufio_Read (Suc (length (rchunks (bconn b)) + n)) n [] b)"

text \<open>The call as the program uses it: all the bytes, or an error.\<close>

definition read_exact :: "'r read_fn \<Rightarrow> nat \<Rightarrow> ('r, bytes) go" where
  "read_exact rf n = (\<lambda>r. case rf n r of
      ((b, None), r') \<Rightarrow> (Ok b, r')
    | ((b, Some e), r') \<Rightarrow> (Err e, r'))"

section \<open>Writers\<close>

text \<open>
  The outcome of the next \<open>Write\<close> calls is part of the writer: success, or failure with an
  error after the first \<open>k\<close> bytes. When the plan is used up, writes succeed.
\<close>

datatype wevent = WOk | WFail nat go_error

record writer =
  wout :: "bytes list"
  wplan :: "wevent list"

definition Write :: "bytes \<Rightarrow> (writer, unit) go" where
  "Write p w = (case wplan w of
     [] \<Rightarrow> (Ok (), w\<lparr>wout := wout w @ [p]\<rparr>)
   | WOk # ps \<Rightarrow> (Ok (), w\<lparr>wout := wout w @ [p], wplan := ps\<rparr>)
   | WFail k e # ps \<Rightarrow> (Err e, w\<lparr>wout := wout w @ [take k p], wplan := ps\<rparr>))"

definition wbytes :: "writer \<Rightarrow> bytes" where
  "wbytes w = concat (wout w)"

definition healthy :: "writer \<Rightarrow> bool" where
  "healthy w \<longleftrightarrow> wplan w = []"

definition empty_writer :: writer where
  "empty_writer = \<lparr>wout = [], wplan = []\<rparr>"

section \<open>Connections\<close>

text \<open>The protocol versions the program names, \<open>tls.VersionTLS12\<close> and \<open>tls.VersionTLS13\<close>.\<close>

datatype tls_version = VersionTLS12 | VersionTLS13

instantiation tls_version :: linorder
begin

definition less_eq_tls_version :: "tls_version \<Rightarrow> tls_version \<Rightarrow> bool" where
  "less_eq_tls_version v w \<longleftrightarrow> v = VersionTLS12 \<or> w = VersionTLS13"

definition less_tls_version :: "tls_version \<Rightarrow> tls_version \<Rightarrow> bool" where
  "less_tls_version v w \<longleftrightarrow> v = VersionTLS12 \<and> w = VersionTLS13"

instance
  by standard (auto simp: less_eq_tls_version_def less_tls_version_def intro: tls_version.exhaust)

end

text \<open>
  What the program uses of \<open>tls.ConnectionState\<close>: whether the handshake is complete and the
  keying-material exporter of RFC 5705 (label, context, length).
\<close>

record tls_state =
  HandshakeComplete :: bool
  ExportKeyingMaterial :: "string \<Rightarrow> bytes option \<Rightarrow> nat \<Rightarrow> bytes res"

text \<open>
  A \<open>net.Conn\<close>: its two directions, whether it has been closed, the deadlines in force
  for reads and for writes (\<open>None\<close> is the zero time, no deadline), the outcome of the next calls that set a deadline,
  the error of the first \<open>Close\<close> if it has one, and the TLS state (\<open>None\<close> when the dynamic
  type is not \<open>*tls.Conn\<close>). Operations on a closed connection return \<open>net.ErrClosed\<close>.
\<close>

record netconn =
  c_in :: rconn
  c_out :: writer
  c_closed :: bool
  c_deadline :: "int option"
  c_wdeadline :: "int option"
  c_dlplan :: "go_error option list"
  c_closeErr :: "go_error option"
  c_tls :: "tls_state option"

definition nc_ReadFull :: "netconn read_fn" where
  "nc_ReadFull n c =
     (if c_closed c \<and> 0 < n then (([], Some net_ErrClosed), c)
      else case conn_ReadFull n (c_in c) of (res, r) \<Rightarrow> (res, c\<lparr>c_in := r\<rparr>))"

definition nc_Write :: "bytes \<Rightarrow> (netconn, unit) go" where
  "nc_Write p c =
     (if c_closed c then (Err net_ErrClosed, c)
      else case Write p (c_out c) of (res, w) \<Rightarrow> (res, c\<lparr>c_out := w\<rparr>))"

definition nc_SetDeadline :: "int option \<Rightarrow> (netconn, unit) go" where
  "nc_SetDeadline t c =
     (if c_closed c then (Err net_ErrClosed, c)
      else case c_dlplan c of
        [] \<Rightarrow> (Ok (), c\<lparr>c_deadline := t, c_wdeadline := t\<rparr>)
      | None # ps \<Rightarrow> (Ok (), c\<lparr>c_deadline := t, c_wdeadline := t, c_dlplan := ps\<rparr>)
      | Some e # ps \<Rightarrow> (Err e, c\<lparr>c_dlplan := ps\<rparr>))"

definition nc_SetWriteDeadline :: "int option \<Rightarrow> (netconn, unit) go" where
  "nc_SetWriteDeadline t c =
     (if c_closed c then (Err net_ErrClosed, c)
      else case c_dlplan c of
        [] \<Rightarrow> (Ok (), c\<lparr>c_wdeadline := t\<rparr>)
      | None # ps \<Rightarrow> (Ok (), c\<lparr>c_wdeadline := t, c_dlplan := ps\<rparr>)
      | Some e # ps \<Rightarrow> (Err e, c\<lparr>c_dlplan := ps\<rparr>))"

definition nc_Close :: "(netconn, unit) go" where
  "nc_Close c =
     (if c_closed c then (Err net_ErrClosed, c)
      else (case c_closeErr c of None \<Rightarrow> Ok () | Some e \<Rightarrow> Err e, c\<lparr>c_closed := True\<rparr>))"

text \<open>
  A connection handed to an encoder as an \<open>io.Writer\<close>: the writes of a closed connection all fail,
  so the encoder's first write fails and nothing is sent.
\<close>

definition nc_asWriter :: "(writer, 'a) go \<Rightarrow> (netconn, 'a) go" where
  "nc_asWriter enc c =
     (if c_closed c
      then (fst (enc ((c_out c)\<lparr>wplan := replicate 2 (WFail 0 net_ErrClosed)\<rparr>)), c)
      else case enc (c_out c) of (r, w) \<Rightarrow> (r, c\<lparr>c_out := w\<rparr>))"

definition nc_content :: "netconn \<Rightarrow> bytes" where
  "nc_content c = concat (rchunks (c_in c))"

section \<open>The contract of \<open>Read\<close>\<close>

text \<open>
  \<open>content\<close> is what the reader still delivers, \<open>fin\<close> the error after it, \<open>calls\<close> bounds the
  number of calls that return no byte.
\<close>

locale io_reader =
  fixes rd :: "'r read_fn"
    and content :: "'r \<Rightarrow> bytes"
    and fin :: "'r \<Rightarrow> go_error"
    and calls :: "'r \<Rightarrow> nat"
  assumes read_bytes: "0 < n \<Longrightarrow> rd n r = ((b, None), r') \<Longrightarrow>
        content r = b @ content r' \<and> fin r' = fin r \<and> length b \<le> n
        \<and> calls r' \<le> calls r \<and> (b = [] \<longrightarrow> calls r' < calls r)"
    and read_end: "0 < n \<Longrightarrow> rd n r = ((b, Some e), r') \<Longrightarrow>
        b = [] \<and> content r = [] \<and> content r' = [] \<and> e = fin r \<and> fin r' = fin r"
begin

text \<open>The loop ends, and its result is that of the byte buffer with the same content.\<close>

lemma ReadLoop_spec:
  assumes "calls r + (need - length acc) < fuel" and "length acc \<le> need"
  shows "\<exists>r'. ReadLoop rd fuel need acc r =
      Some (if need \<le> length acc + length (content r)
            then ((acc @ take (need - length acc) (content r), None), r')
            else ((acc @ content r, Some (short_read (acc @ content r) (fin r))), r'))
    \<and> content r' = drop (need - length acc) (content r) \<and> fin r' = fin r"
  using assms
proof (induction fuel arbitrary: acc r)
  case 0
  then show ?case by simp
next
  case (Suc fuel)
  show ?case
  proof (cases "need \<le> length acc")
    case True
    then show ?thesis using Suc.prems by (subst ReadLoop.simps) simp
  next
    case False
    let ?n = "need - length acc"
    obtain b eo r1 where rd: "rd ?n r = ((b, eo), r1)" by (metis surj_pair)
    show ?thesis
    proof (cases eo)
      case (Some e)
      with rd False read_end [of ?n r b e r1] show ?thesis
        by (subst ReadLoop.simps) (auto simp: short_read_def)
    next
      case None
      with rd False have b: "content r = b @ content r1" "fin r1 = fin r" "length b \<le> ?n"
          "calls r1 \<le> calls r" "b = [] \<longrightarrow> calls r1 < calls r"
        using read_bytes [of ?n r b r1] by auto
      have fuel: "calls r1 + (need - length (acc @ b)) < fuel"
        using Suc.prems(1) b(3-5) False by (cases b) auto
      have len: "length (acc @ b) \<le> need" using b(3) False by simp
      have step: "ReadLoop rd (Suc fuel) need acc r = ReadLoop rd fuel need (acc @ b) r1"
        using rd None False by (subst ReadLoop.simps) simp
      from Suc.IH [OF fuel len] b(1,2,3) False step show ?thesis
        by (auto simp: append_assoc)
    qed
  qed
qed

end

section \<open>The contract of \<open>ReadFull\<close>\<close>

text \<open>A source of bytes behaves, on its abstraction, as the byte buffer does.\<close>

locale byte_source =
  fixes rf :: "'r read_fn"
    and \<alpha> :: "'r \<Rightarrow> byte_buf"
  assumes rf_buf: "map_prod id \<alpha> (rf n r) = buf_ReadFull n (\<alpha> r)"
begin

lemma read_exact_refines [refine_intros]:
  "refines \<alpha> (read_exact rf n) (read_exact buf_ReadFull n)"
  unfolding refines_def
proof
  fix r
  show "map_prod id \<alpha> (read_exact rf n r) = read_exact buf_ReadFull n (\<alpha> r)"
    using rf_buf [of n r]
    by (cases "rf n r") (auto simp: read_exact_def split: prod.splits option.splits)
qed

end

text \<open>A reader that meets the contract of \<open>Read\<close> is a byte source through \<open>ReadFull\<close>.\<close>

lemma ReadFull_buf:
  assumes "io_reader rd content fin calls"
  shows "map_prod id (\<lambda>r. (content r, fin r)) (the (ReadLoop rd (Suc (calls r + n)) n [] r))
       = buf_ReadFull n (content r, fin r)"
proof -
  obtain r' where "ReadLoop rd (Suc (calls r + n)) n [] r =
      Some (if n \<le> length (content r) then ((take n (content r), None), r')
            else ((content r, Some (short_read (content r) (fin r))), r'))"
    "content r' = drop n (content r)" "fin r' = fin r"
    using io_reader.ReadLoop_spec [OF assms, of r n "[]" "Suc (calls r + n)"] by auto
  then show ?thesis by (simp add: buf_ReadFull_def)
qed

section \<open>The readers of the program meet the contracts\<close>

definition conn_abs :: "rconn \<Rightarrow> byte_buf" where
  "conn_abs r = (concat (rchunks r), rend r)"

definition bufio_abs :: "bufio \<Rightarrow> byte_buf" where
  "bufio_abs b = (bbuf b @ concat (rchunks (bconn b)), rend (bconn b))"

interpretation conn_reader: io_reader conn_Read "\<lambda>r. concat (rchunks r)" rend "\<lambda>r. length (rchunks r)"
proof (standard, goal_cases)
  case (1 n r b r')
  then show ?case
    by (cases "rchunks r") (auto simp: conn_Read_def simp flip: append_assoc split: if_splits)
next
  case (2 n r b e r')
  then show ?case by (cases "rchunks r") (auto simp: conn_Read_def split: if_splits)
qed

interpretation bufio_reader: io_reader bufio_Read "\<lambda>b. bbuf b @ concat (rchunks (bconn b))"
    "\<lambda>b. rend (bconn b)" "\<lambda>b. length (rchunks (bconn b))"
proof (standard, goal_cases)
  case (1 n r b r')
  then show ?case
    by (cases "rchunks (bconn r)")
       (auto simp: bufio_Read_def conn_Read_def bufio_size_def take_drop_take
          simp flip: append_assoc split: if_splits)
next
  case (2 n r b e r')
  then show ?case
    by (cases "rchunks (bconn r)")
       (auto simp: bufio_Read_def conn_Read_def split: if_splits)
qed

interpretation conn_src: byte_source conn_ReadFull conn_abs
  by standard
     (simp add: conn_ReadFull_def conn_abs_def [abs_def] ReadFull_buf [OF conn_reader.io_reader_axioms])

interpretation bufio_src: byte_source bufio_ReadFull bufio_abs
  by standard
     (simp add: bufio_ReadFull_def bufio_abs_def [abs_def] ReadFull_buf [OF bufio_reader.io_reader_axioms])

interpretation buf_src: byte_source buf_ReadFull id
  by standard (simp add: map_prod.id)

section \<open>Reading and writing, as the decoders and encoders use them\<close>

lemma read_exact_buf:
  "read_exact buf_ReadFull n (bs, e) =
     (if n \<le> length bs then (Ok (take n bs), (drop n bs, e)) else (Err (short_read bs e), ([], e)))"
  by (simp add: read_exact_def buf_ReadFull_def)

lemma bind_read_buf:
  "go_bind (wrapf msg (read_exact buf_ReadFull n)) f (bs, e) =
     (if n \<le> length bs then f (take n bs) (drop n bs, e)
      else (Err (Wrapf msg (short_read bs e)), ([], e)))"
  by (simp add: read_exact_buf)

lemma read_exact_buf_append [simp]:
  "length xs = n \<Longrightarrow> read_exact buf_ReadFull n (xs @ ys, e) = (Ok xs, (ys, e))"
  by (simp add: read_exact_buf)

lemma read_exact_buf_all [simp]:
  "length xs = n \<Longrightarrow> read_exact buf_ReadFull n (xs, e) = (Ok xs, ([], e))"
  by (simp add: read_exact_buf)

text \<open>\<open>ReadFull\<close> on a connection in closed form.\<close>

lemma conn_ReadFull_Ok:
  assumes "n \<le> length (concat (rchunks r))"
  obtains r' where "conn_ReadFull n r = ((take n (concat (rchunks r)), None), r')"
    "concat (rchunks r') = drop n (concat (rchunks r))" "rend r' = rend r"
  using conn_src.rf_buf [of n r] assms
  by (cases "conn_ReadFull n r") (auto simp: conn_abs_def buf_ReadFull_def)

lemma conn_ReadFull_short:
  assumes "length (concat (rchunks r)) < n"
  obtains r' where "conn_ReadFull n r =
      ((concat (rchunks r), Some (short_read (concat (rchunks r)) (rend r))), r')"
    "concat (rchunks r') = []" "rend r' = rend r"
  using conn_src.rf_buf [of n r] assms
  by (cases "conn_ReadFull n r") (auto simp: conn_abs_def buf_ReadFull_def)

lemma nc_ReadFull_length: "nc_ReadFull n c = ((b, eo), c') \<Longrightarrow> length b \<le> n"
proof (cases "n \<le> length (concat (rchunks (c_in c)))")
  case True
  then obtain r' where "conn_ReadFull n (c_in c) = ((take n (concat (rchunks (c_in c))), None), r')"
    by (rule conn_ReadFull_Ok)
  then show "nc_ReadFull n c = ((b, eo), c') \<Longrightarrow> length b \<le> n"
    by (auto simp: nc_ReadFull_def split: if_splits)
next
  case False
  then obtain r' where "conn_ReadFull n (c_in c) = ((concat (rchunks (c_in c)),
      Some (short_read (concat (rchunks (c_in c))) (rend (c_in c)))), r')"
    by (auto elim: conn_ReadFull_short simp: not_le)
  with False show "nc_ReadFull n c = ((b, eo), c') \<Longrightarrow> length b \<le> n"
    by (auto simp: nc_ReadFull_def split: if_splits)
qed

text \<open>Reading \<open>n\<close> bytes of an open connection succeeds exactly when it still delivers \<open>n\<close>.\<close>

lemma nc_ReadFull_Ok:
  assumes "n \<le> length (nc_content c)" "\<not> c_closed c"
  obtains r where "nc_ReadFull n c = ((take n (nc_content c), None), c\<lparr>c_in := r\<rparr>)"
    "nc_content (c\<lparr>c_in := r\<rparr>) = drop n (nc_content c)" "rend r = rend (c_in c)"
proof -
  obtain r where "conn_ReadFull n (c_in c) = ((take n (nc_content c), None), r)"
    "concat (rchunks r) = drop n (nc_content c)" "rend r = rend (c_in c)"
    using assms(1) unfolding nc_content_def by (rule conn_ReadFull_Ok)
  then show thesis
    using assms(2) by (intro that [of r]) (simp_all add: nc_ReadFull_def nc_content_def)
qed

lemma nc_ReadFull_Some:
  assumes "nc_ReadFull n c = ((b, None), c')" "0 < n"
  shows "\<not> c_closed c \<and> n \<le> length (nc_content c)"
proof (rule ccontr)
  assume *: "\<not> (\<not> c_closed c \<and> n \<le> length (nc_content c))"
  with assms have "\<not> c_closed c" by (auto simp: nc_ReadFull_def)
  with * obtain r' where "conn_ReadFull n (c_in c) = ((concat (rchunks (c_in c)),
      Some (short_read (concat (rchunks (c_in c))) (rend (c_in c)))), r')"
    by (auto simp: nc_content_def not_le elim: conn_ReadFull_short)
  with assms \<open>\<not> c_closed c\<close> show False by (simp add: nc_ReadFull_def)
qed

lemma Write_healthy [simp]:
  "healthy w \<Longrightarrow> Write p w = (Ok (), w\<lparr>wout := wout w @ [p]\<rparr>)"
  by (simp add: healthy_def Write_def)

lemma healthy_wout [simp]: "healthy (w\<lparr>wout := ps\<rparr>) = healthy w"
  by (simp add: healthy_def)

lemma healthy_empty [simp]: "healthy empty_writer"
  by (simp add: healthy_def empty_writer_def)

lemma wbytes_empty [simp]: "wbytes empty_writer = []"
  by (simp add: wbytes_def empty_writer_def)

lemma wbytes_wout [simp]: "wbytes (w\<lparr>wout := ps\<rparr>) = concat ps"
  by (simp add: wbytes_def)

text \<open>A write delivers a prefix of its argument; all of it exactly when it succeeds.\<close>

lemma Write_Ok_bytes: "Write p w = (Ok u, w') \<Longrightarrow> wout w' = wout w @ [p]"
  by (auto simp: Write_def split: list.splits wevent.splits)

lemma Write_no_panic [simp]: "Write p w \<noteq> (Panic q, w')"
  by (auto simp: Write_def split: list.splits wevent.splits)

text \<open>Nothing that was sent is taken back.\<close>

lemma Write_sent [stable_intros]: "stable (\<lambda>w. prefix B (wbytes w)) (Write p)"
  by (auto simp: stable_def Write_def wbytes_def split: list.splits wevent.splits)

lemma nc_Write_sent: "stable (\<lambda>c. prefix B (wbytes (c_out c))) (nc_Write p)"
  by (auto simp: stable_def nc_Write_def dest: stableD [OF Write_sent] split: if_splits prod.splits)

lemma nc_asWriter_sent:
  "stable (\<lambda>w. prefix B (wbytes w)) enc \<Longrightarrow> stable (\<lambda>c. prefix B (wbytes (c_out c))) (nc_asWriter enc)"
  by (auto simp: stable_def nc_asWriter_def split: if_splits prod.splits)

text \<open>
  A \<open>bufio.Reader\<close> reads ahead no further than the record it needs: a read that the buffer can
  serve leaves the connection alone, and a read at an empty buffer takes one record.
\<close>

lemma bufio_ReadFull_buffered:
  assumes "0 < n" "n \<le> length (bbuf b)"
  shows "bufio_ReadFull n b = ((take n (bbuf b), None), b\<lparr>bbuf := drop n (bbuf b)\<rparr>)"
proof -
  have r: "bufio_Read n b = ((take n (bbuf b), None), b\<lparr>bbuf := drop n (bbuf b)\<rparr>)"
    using assms by (auto simp: bufio_Read_def)
  have "ReadLoop bufio_Read (Suc (length (rchunks (bconn b)) + n)) n [] b
      = ReadLoop bufio_Read (length (rchunks (bconn b)) + n) n (take n (bbuf b)) (b\<lparr>bbuf := drop n (bbuf b)\<rparr>)"
    using assms(1) r by (subst ReadLoop.simps) simp
  also have "\<dots> = Some ((take n (bbuf b), None), b\<lparr>bbuf := drop n (bbuf b)\<rparr>)"
    using assms(2) by (subst ReadLoop.simps) simp
  finally show ?thesis by (simp add: bufio_ReadFull_def)
qed

lemma bufio_ReadFull_record:
  assumes "bbuf b = []" "rchunks (bconn b) = x # xs" "0 < n" "n \<le> length x" "n < bufio_size" "length x \<le> bufio_size"
  shows "bufio_ReadFull n b = ((take n x, None), \<lparr>bbuf = drop n x, bconn = (bconn b)\<lparr>rchunks := xs\<rparr>\<rparr>)"
proof -
  have r: "bufio_Read n b = ((take n x, None), \<lparr>bbuf = drop n x, bconn = (bconn b)\<lparr>rchunks := xs\<rparr>\<rparr>)"
    using assms by (simp add: bufio_Read_def conn_Read_def)
  have "ReadLoop bufio_Read (Suc (length (rchunks (bconn b)) + n)) n [] b
      = ReadLoop bufio_Read (length (rchunks (bconn b)) + n) n (take n x) \<lparr>bbuf = drop n x, bconn = (bconn b)\<lparr>rchunks := xs\<rparr>\<rparr>"
    using assms(3) r by (subst ReadLoop.simps) simp
  also have "\<dots> = Some ((take n x, None), \<lparr>bbuf = drop n x, bconn = (bconn b)\<lparr>rchunks := xs\<rparr>\<rparr>)"
    using assms(4) by (subst ReadLoop.simps) simp
  finally show ?thesis by (simp add: bufio_ReadFull_def)
qed

end
