(* ===== verification/Protocol.thy ===== *)
theory Protocol
  imports Go_IO
begin

text \<open>
  The wire protocol, package \<open>src/pkg/protocol\<close>: the constants of \<open>types.go\<close>, the sentinel
  errors of \<open>errors.go\<close>, the handshake messages and the signed data of \<open>auth.go\<close>, the framed
  data messages of \<open>data.go\<close> and the TLS channel binding of \<open>channelbinding.go\<close>. Fixed arrays
  are byte lists with a length invariant. A decoder takes the \<open>ReadFull\<close> of its reader, the
  Go interface value \<open>io.Reader\<close>; an encoder writes to a \<open>writer\<close>. The locale \<open>wire_codec\<close> is
  the contract of a self-delimiting message format, interpreted for all six messages.
\<close>

section \<open>Constants (types.go)\<close>

definition TypeClientHello :: byte where [sizes]: "TypeClientHello = 1"
definition TypeServerChallenge :: byte where [sizes]: "TypeServerChallenge = 2"
definition TypeClientResponse :: byte where [sizes]: "TypeClientResponse = 3"
definition TypeAuthResult :: byte where [sizes]: "TypeAuthResult = 4"

definition PublicKeySize :: nat where [sizes]: "PublicKeySize = 32"
definition ChallengeSize :: nat where [sizes]: "ChallengeSize = 32"
definition TimestampSize :: nat where [sizes]: "TimestampSize = 8"
definition ServerIDSize :: nat where [sizes]: "ServerIDSize = 32"
definition SignatureSize :: nat where [sizes]: "SignatureSize = 64"
definition ChannelBindingSize :: nat where [sizes]: "ChannelBindingSize = 32"

definition AuthStatusOK :: byte where [sizes]: "AuthStatusOK = 0"
definition AuthStatusInvalidSig :: byte where [sizes]: "AuthStatusInvalidSig = 2"
definition AuthStatusReplay :: byte where [sizes]: "AuthStatusReplay = 3"

definition ProtocolVersion :: string where "ProtocolVersion = ''goro-auth-v1''"

definition MaxMessageSize :: nat where [sizes]: "MaxMessageSize = 65536"
definition MaxMsgIDLen :: nat where [sizes]: "MaxMsgIDLen = 256"
definition MaxErrorMsgLen :: nat where [sizes]: "MaxErrorMsgLen = 1024"

section \<open>Sentinel errors (errors.go)\<close>

definition ErrAuthFailed :: go_error where "ErrAuthFailed = ErrNew ''authentication failed''"
definition ErrInvalidSignature :: go_error where "ErrInvalidSignature = ErrNew ''invalid signature''"
definition ErrChallengeExpired :: go_error where "ErrChallengeExpired = ErrNew ''challenge expired''"
definition ErrConnectionClosed :: go_error where "ErrConnectionClosed = ErrNew ''connection closed''"

section \<open>Handshake messages (auth.go)\<close>

record ClientHello =
  PubKey :: bytes

definition ClientHello_Encode :: "ClientHello \<Rightarrow> (writer, unit) go" where
  "ClientHello_Encode m =
     go_bind (wrapf ''write type'' (Write [TypeClientHello])) (\<lambda>_.
     wrapf ''write pubkey'' (Write (PubKey m)))"

definition DecodeClientHello :: "'r read_fn \<Rightarrow> ('r, ClientHello) go" where
  "DecodeClientHello rf =
     go_bind (wrapf ''read pubkey'' (read_exact rf PublicKeySize)) (\<lambda>k.
     go_return \<lparr>PubKey = k\<rparr>)"

record ServerChallenge =
  Challenge :: bytes
  Timestamp :: uint64
  ServerID :: bytes

definition ServerChallenge_Encode :: "ServerChallenge \<Rightarrow> (writer, unit) go" where
  "ServerChallenge_Encode m =
     go_bind (wrapf ''write type'' (Write [TypeServerChallenge])) (\<lambda>_.
     go_bind (wrapf ''write challenge'' (Write (Challenge m))) (\<lambda>_.
     go_bind (wrapf ''write timestamp'' (Write (PutUint64 (Timestamp m)))) (\<lambda>_.
     wrapf ''write server_id'' (Write (ServerID m)))))"

definition DecodeServerChallenge :: "'r read_fn \<Rightarrow> ('r, ServerChallenge) go" where
  "DecodeServerChallenge rf =
     go_bind (wrapf ''read challenge'' (read_exact rf ChallengeSize)) (\<lambda>c.
     go_bind (wrapf ''read timestamp'' (read_exact rf TimestampSize)) (\<lambda>ts.
     go_bind (wrapf ''read server_id'' (read_exact rf ServerIDSize)) (\<lambda>sid.
     go_return \<lparr>Challenge = c, Timestamp = GetUint64 ts, ServerID = sid\<rparr>)))"

record ClientResponse =
  Signature :: bytes

definition ClientResponse_Encode :: "ClientResponse \<Rightarrow> (writer, unit) go" where
  "ClientResponse_Encode m =
     go_bind (wrapf ''write type'' (Write [TypeClientResponse])) (\<lambda>_.
     wrapf ''write signature'' (Write (Signature m)))"

definition DecodeClientResponse :: "'r read_fn \<Rightarrow> ('r, ClientResponse) go" where
  "DecodeClientResponse rf =
     go_bind (wrapf ''read signature'' (read_exact rf SignatureSize)) (\<lambda>s.
     go_return \<lparr>Signature = s\<rparr>)"

record AuthResult =
  Status :: byte
  ErrorMsg :: string

definition AuthResult_Encode :: "AuthResult \<Rightarrow> (writer, unit) go" where
  "AuthResult_Encode m =
     go_bind (wrapf ''write type'' (Write [TypeAuthResult])) (\<lambda>_.
     go_bind (wrapf ''write status'' (Write [Status m])) (\<lambda>_.
     if Status m \<noteq> AuthStatusOK then
       (let errBytes = bytes_of_string (ErrorMsg m);
            errBytes = (if length errBytes > MaxErrorMsgLen then take MaxErrorMsgLen errBytes else errBytes)
        in go_bind (wrapf ''write error len'' (Write (PutUint16 (of_nat (length errBytes))))) (\<lambda>_.
           wrapf ''write error msg'' (Write errBytes)))
     else go_return ()))"

definition DecodeAuthResult :: "'r read_fn \<Rightarrow> ('r, AuthResult) go" where
  "DecodeAuthResult rf =
     go_bind (wrapf ''read status'' (read_exact rf 1)) (\<lambda>st.
     if st ! 0 \<noteq> AuthStatusOK then
       go_bind (wrapf ''read error len'' (read_exact rf 2)) (\<lambda>lenBuf.
       let errLen = GetUint16 lenBuf in
       go_bind (go_guard (unat errLen \<le> MaxErrorMsgLen)
                  (Errorf ''error message too long: %d'' [uint errLen])) (\<lambda>_.
       go_bind (wrapf ''read error msg'' (read_exact rf (unat errLen))) (\<lambda>errBytes.
       go_return \<lparr>Status = st ! 0, ErrorMsg = string_of_bytes errBytes\<rparr>)))
     else go_return \<lparr>Status = st ! 0, ErrorMsg = ''''\<rparr>)"

definition ReadMessageType :: "'r read_fn \<Rightarrow> ('r, byte) go" where
  "ReadMessageType rf = go_bind (read_exact rf 1) (\<lambda>t. go_return (t ! 0))"

section \<open>The signed data (auth.go)\<close>

definition SignedDataSize :: nat where
  "SignedDataSize = length ProtocolVersion + ChallengeSize + TimestampSize + ServerIDSize
     + PublicKeySize + ChannelBindingSize"

text \<open>
  \<open>BuildSignedDataTo\<close> returns the updated buffer (the callers pass a slice of a larger one) and
  the length of the result; the data is the prefix of the buffer of that length. The bounds
  check at the top panics on a short buffer.
\<close>

definition BuildSignedDataTo ::
    "bytes \<Rightarrow> bytes \<Rightarrow> uint64 \<Rightarrow> bytes \<Rightarrow> bytes \<Rightarrow> bytes \<Rightarrow> (bytes \<times> nat) res" where
  "BuildSignedDataTo buf challenge timestamp serverID clientPubKey channelBinding =
     (if length buf < SignedDataSize then Panic ''index out of range''
      else
        let b1 = copy_at buf 0 (bytes_of_string ProtocolVersion);
            o1 = min (length buf) (length ProtocolVersion);
            b2 = copy_at b1 o1 challenge;
            o2 = o1 + min (length buf - o1) (length challenge);
            b3 = copy_at b2 o2 (PutUint64 timestamp);
            o3 = o2 + TimestampSize;
            b4 = copy_at b3 o3 serverID;
            o4 = o3 + min (length buf - o3) (length serverID);
            b5 = copy_at b4 o4 clientPubKey;
            o5 = o4 + min (length buf - o4) (length clientPubKey);
            b6 = copy_at b5 o5 channelBinding;
            o6 = o5 + min (length buf - o5) (length channelBinding)
        in Ok (b6, o6))"

definition BuildSignedData ::
    "bytes \<Rightarrow> uint64 \<Rightarrow> bytes \<Rightarrow> bytes \<Rightarrow> bytes \<Rightarrow> bytes res" where
  "BuildSignedData challenge timestamp serverID clientPubKey channelBinding =
     (case BuildSignedDataTo (replicate SignedDataSize 0) challenge timestamp serverID
             clientPubKey channelBinding of
        Ok (b, n) \<Rightarrow> Ok (take n b)
      | Err e \<Rightarrow> Err e
      | Panic p \<Rightarrow> Panic p)"

section \<open>Data messages (data.go)\<close>

record ClientMessage =
  cm_To :: string
  cm_MsgID :: string
  cm_Payload :: bytes

definition ClientMessage_Encode :: "ClientMessage \<Rightarrow> (writer, unit) go" where
  "ClientMessage_Encode m =
     (let toBytes = bytes_of_string (cm_To m);
          msgIDBytes = bytes_of_string (cm_MsgID m);
          totalLen = PublicKeySize * 2 + 2 + length msgIDBytes + length (cm_Payload m)
      in go_bind (go_guard (length toBytes = PublicKeySize * 2)
                   (Errorf ''invalid to length: expected %d, got %d''
                      [int (PublicKeySize * 2), int (length toBytes)])) (\<lambda>_.
         go_bind (go_guard (length msgIDBytes \<le> MaxMsgIDLen)
                   (Errorf ''msg_id too long: %d > %d''
                      [int (length msgIDBytes), int MaxMsgIDLen])) (\<lambda>_.
         go_bind (go_guard (totalLen \<le> MaxMessageSize)
                   (Errorf ''message too large: %d > %d'' [int totalLen, int MaxMessageSize])) (\<lambda>_.
         go_bind (wrapf ''write total len'' (Write (PutUint32 (of_nat totalLen)))) (\<lambda>_.
         go_bind (wrapf ''write to'' (Write toBytes)) (\<lambda>_.
         go_bind (wrapf ''write msg_id len'' (Write (PutUint16 (of_nat (length msgIDBytes))))) (\<lambda>_.
         go_bind (wrapf ''write msg_id'' (Write msgIDBytes)) (\<lambda>_.
         wrapf ''write payload'' (Write (cm_Payload m))))))))))"

definition DecodeClientMessage :: "'r read_fn \<Rightarrow> ('r, ClientMessage) go" where
  "DecodeClientMessage rf =
     go_bind (wrapf ''read total len'' (read_exact rf 4)) (\<lambda>lenBuf.
     let totalLen = GetUint32 lenBuf in
     go_bind (go_guard (unat totalLen \<le> MaxMessageSize)
                (Errorf ''message too large: %d > %d'' [uint totalLen, int MaxMessageSize])) (\<lambda>_.
     go_bind (wrapf ''read message data'' (read_exact rf (unat totalLen))) (\<lambda>data.
     go_bind (go_guard (PublicKeySize * 2 + 2 \<le> length data)
                (Errorf ''message too short'' [])) (\<lambda>_.
     let to = string_of_bytes (take (PublicKeySize * 2) data);
         data = drop (PublicKeySize * 2) data;
         msgIDLen = unat (GetUint16 (take 2 data));
         data = drop 2 data
     in go_bind (go_guard (msgIDLen \<le> length data) (Errorf ''invalid msg_id length'' [])) (\<lambda>_.
        go_return \<lparr>cm_To = to, cm_MsgID = string_of_bytes (take msgIDLen data),
                    cm_Payload = drop msgIDLen data\<rparr>)))))"

record ServerMessage =
  sm_Data :: bytes

definition ServerMessage_Encode :: "ServerMessage \<Rightarrow> (writer, unit) go" where
  "ServerMessage_Encode m =
     go_bind (go_guard (length (sm_Data m) \<le> MaxMessageSize)
                (Errorf ''message too large: %d > %d'' [int (length (sm_Data m)), int MaxMessageSize])) (\<lambda>_.
     go_bind (wrapf ''write total len'' (Write (PutUint32 (of_nat (length (sm_Data m)))))) (\<lambda>_.
     wrapf ''write data'' (Write (sm_Data m))))"

definition DecodeServerMessage :: "'r read_fn \<Rightarrow> ('r, ServerMessage) go" where
  "DecodeServerMessage rf =
     go_bind (wrapf ''read total len'' (read_exact rf 4)) (\<lambda>lenBuf.
     let totalLen = GetUint32 lenBuf in
     go_bind (go_guard (unat totalLen \<le> MaxMessageSize)
                (Errorf ''message too large: %d > %d'' [uint totalLen, int MaxMessageSize])) (\<lambda>_.
     go_bind (wrapf ''read data'' (read_exact rf (unat totalLen))) (\<lambda>data.
     go_return \<lparr>sm_Data = data\<rparr>)))"

section \<open>Channel binding (channelbinding.go)\<close>

definition ChannelBindingLabel :: string where
  "ChannelBindingLabel = ''EXPORTER-goro-auth-v1''"

definition GetChannelBinding :: "tls_state \<Rightarrow> bytes res" where
  "GetChannelBinding st =
     (if \<not> HandshakeComplete st then Err (Errorf ''TLS handshake not complete'' [])
      else case ExportKeyingMaterial st ChannelBindingLabel None ChannelBindingSize of
          Ok exported \<Rightarrow> Ok (copy_at (replicate ChannelBindingSize 0) 0 exported)
        | Err e \<Rightarrow> Err (Wrapf ''export keying material'' e)
        | Panic p \<Rightarrow> Panic p)"

section \<open>Well-formed messages and their bytes\<close>

definition wf_ClientHello :: "ClientHello \<Rightarrow> bool" where
  "wf_ClientHello m \<longleftrightarrow> length (PubKey m) = PublicKeySize"

definition wf_ServerChallenge :: "ServerChallenge \<Rightarrow> bool" where
  "wf_ServerChallenge m \<longleftrightarrow> length (Challenge m) = ChallengeSize \<and> length (ServerID m) = ServerIDSize"

definition wf_ClientResponse :: "ClientResponse \<Rightarrow> bool" where
  "wf_ClientResponse m \<longleftrightarrow> length (Signature m) = SignatureSize"

definition wf_AuthResult :: "AuthResult \<Rightarrow> bool" where
  "wf_AuthResult m \<longleftrightarrow> (if Status m = AuthStatusOK then ErrorMsg m = ''''
                        else length (ErrorMsg m) \<le> MaxErrorMsgLen)"

definition wf_ClientMessage :: "ClientMessage \<Rightarrow> bool" where
  "wf_ClientMessage m \<longleftrightarrow> length (cm_To m) = PublicKeySize * 2 \<and> length (cm_MsgID m) \<le> MaxMsgIDLen
     \<and> PublicKeySize * 2 + 2 + length (cm_MsgID m) + length (cm_Payload m) \<le> MaxMessageSize"

definition wf_ServerMessage :: "ServerMessage \<Rightarrow> bool" where
  "wf_ServerMessage m \<longleftrightarrow> length (sm_Data m) \<le> MaxMessageSize"

lemmas wf_defs = wf_ClientHello_def wf_ServerChallenge_def wf_ClientResponse_def
  wf_AuthResult_def wf_ClientMessage_def wf_ServerMessage_def

definition wire_ClientHello :: "ClientHello \<Rightarrow> bytes" where
  "wire_ClientHello m = TypeClientHello # PubKey m"

definition wire_ServerChallenge :: "ServerChallenge \<Rightarrow> bytes" where
  "wire_ServerChallenge m =
     TypeServerChallenge # Challenge m @ PutUint64 (Timestamp m) @ ServerID m"

definition wire_ClientResponse :: "ClientResponse \<Rightarrow> bytes" where
  "wire_ClientResponse m = TypeClientResponse # Signature m"

definition wire_AuthResult :: "AuthResult \<Rightarrow> bytes" where
  "wire_AuthResult m = TypeAuthResult # Status m #
     (if Status m = AuthStatusOK then []
      else PutUint16 (of_nat (length (ErrorMsg m))) @ bytes_of_string (ErrorMsg m))"

definition body_ClientMessage :: "ClientMessage \<Rightarrow> bytes" where
  "body_ClientMessage m = bytes_of_string (cm_To m) @ PutUint16 (of_nat (length (cm_MsgID m)))
     @ bytes_of_string (cm_MsgID m) @ cm_Payload m"

definition wire_ClientMessage :: "ClientMessage \<Rightarrow> bytes" where
  "wire_ClientMessage m = PutUint32 (of_nat (length (body_ClientMessage m))) @ body_ClientMessage m"

definition wire_ServerMessage :: "ServerMessage \<Rightarrow> bytes" where
  "wire_ServerMessage m = PutUint32 (of_nat (length (sm_Data m))) @ sm_Data m"

text \<open>The type byte is read first and checked by the caller, as the client does.\<close>

definition expect_type :: "'r read_fn \<Rightarrow> byte \<Rightarrow> ('r, 'm) go \<Rightarrow> ('r, 'm) go" where
  "expect_type rf ty d =
     go_bind (ReadMessageType rf) (\<lambda>t.
     go_bind (go_guard (t = ty) (Errorf ''unexpected message type: %d'' [uint t])) (\<lambda>_. d))"

section \<open>The contract of a self-delimiting message format\<close>

text \<open>Writing, and reading, a list of messages one after the other.\<close>

fun write_all :: "('m \<Rightarrow> (writer, unit) go) \<Rightarrow> 'm list \<Rightarrow> (writer, unit) go" where
  "write_all enc [] = go_return ()"
| "write_all enc (m # ms) = go_bind (enc m) (\<lambda>_. write_all enc ms)"

fun read_all :: "('r, 'm) go \<Rightarrow> nat \<Rightarrow> ('r, 'm list) go" where
  "read_all dec 0 = go_return []"
| "read_all dec (Suc n) = go_bind dec (\<lambda>m. go_bind (read_all dec n) (\<lambda>ms. go_return (m # ms)))"

locale wire_codec =
  fixes enc :: "'m \<Rightarrow> (writer, unit) go"
    and dec :: "(byte_buf, 'm) go"
    and valid :: "'m \<Rightarrow> bool"
    and wire :: "'m \<Rightarrow> bytes"
  assumes enc_wire: "valid m \<Longrightarrow> healthy w \<Longrightarrow>
        \<exists>w'. enc m w = (Ok (), w') \<and> healthy w' \<and> wbytes w' = wbytes w @ wire m"
    and dec_wire: "valid m \<Longrightarrow> dec (wire m @ rest, e) = (Ok m, (rest, e))"
begin

lemma prefix_free:
  assumes "valid m" "valid m'" "wire m @ r = wire m' @ r'"
  shows "m = m' \<and> r = r'"
proof -
  have "(Ok m, (r, io_EOF)) = (Ok m', (r', io_EOF))"
    unfolding dec_wire [OF assms(1), symmetric] dec_wire [OF assms(2), symmetric] assms(3) ..
  then show ?thesis by simp
qed
lemma write_all_wire:
  "list_all valid ms \<Longrightarrow> healthy w \<Longrightarrow>
     \<exists>w'. write_all enc ms w = (Ok (), w') \<and> healthy w'
        \<and> wbytes w' = wbytes w @ concat (map wire ms)"
proof (induction ms arbitrary: w)
  case Nil
  then show ?case by simp
next
  case (Cons m ms)
  then obtain w1 where 1: "enc m w = (Ok (), w1)" "healthy w1" "wbytes w1 = wbytes w @ wire m"
    using enc_wire by fastforce
  with Cons obtain w2 where "write_all enc ms w1 = (Ok (), w2)" "healthy w2"
      "wbytes w2 = wbytes w1 @ concat (map wire ms)"
    by fastforce
  with 1 show ?case by simp
qed

lemma read_all_wire:
  "list_all valid ms \<Longrightarrow> read_all dec (length ms) (concat (map wire ms) @ rest, e) = (Ok ms, (rest, e))"
  by (induction ms) (simp_all add: dec_wire)

text \<open>A stream of messages is read back as it was written, whatever follows it.\<close>

lemma stream_roundtrip:
  assumes "list_all valid ms"
  shows "\<exists>w. write_all enc ms empty_writer = (Ok (), w)
       \<and> read_all dec (length ms) (wbytes w @ rest, e) = (Ok ms, (rest, e))"
proof -
  obtain w where "write_all enc ms empty_writer = (Ok (), w)" "wbytes w = concat (map wire ms)"
    using write_all_wire [OF assms healthy_empty] by auto
  with read_all_wire [OF assms] show ?thesis by simp
qed

end

section \<open>The six formats meet the contract\<close>

lemma short_lengths:
  "n \<le> MaxMessageSize \<Longrightarrow> unat (of_nat n :: uint32) = n"
  "n \<le> MaxErrorMsgLen \<Longrightarrow> unat (of_nat n :: uint16) = n"
  "n \<le> MaxMsgIDLen \<Longrightarrow> unat (of_nat n :: uint16) = n"
  by (simp_all add: sizes unat_of_nat)

lemma ReadMessageType_Cons [simp]: "ReadMessageType buf_ReadFull (b # bs, e) = (Ok b, (bs, e))"
  by (simp add: ReadMessageType_def read_exact_buf)

lemma expect_type_Cons [simp]: "expect_type buf_ReadFull ty d (ty # bs, e) = d (bs, e)"
  by (simp add: expect_type_def)

lemma expect_type_other [simp]:
  "b \<noteq> ty \<Longrightarrow> expect_type buf_ReadFull ty d (b # bs, e)
     = (Err (Errorf ''unexpected message type: %d'' [uint b]), (bs, e))"
  by (simp add: expect_type_def)

interpretation hello: wire_codec ClientHello_Encode
    "expect_type buf_ReadFull TypeClientHello (DecodeClientHello buf_ReadFull)"
    wf_ClientHello wire_ClientHello
  by standard
     (auto simp: ClientHello_Encode_def DecodeClientHello_def wf_defs wire_ClientHello_def wbytes_def)

interpretation chal: wire_codec ServerChallenge_Encode
    "expect_type buf_ReadFull TypeServerChallenge (DecodeServerChallenge buf_ReadFull)"
    wf_ServerChallenge wire_ServerChallenge
  by standard
     (auto simp: ServerChallenge_Encode_def DecodeServerChallenge_def wf_defs wire_ServerChallenge_def
        TimestampSize_def wbytes_def)

interpretation resp: wire_codec ClientResponse_Encode
    "expect_type buf_ReadFull TypeClientResponse (DecodeClientResponse buf_ReadFull)"
    wf_ClientResponse wire_ClientResponse
  by standard
     (auto simp: ClientResponse_Encode_def DecodeClientResponse_def wf_defs wire_ClientResponse_def wbytes_def)

interpretation ares: wire_codec AuthResult_Encode
    "expect_type buf_ReadFull TypeAuthResult (DecodeAuthResult buf_ReadFull)"
    wf_AuthResult wire_AuthResult
proof (standard, goal_cases)
  case (1 m w)
  then show ?case
    by (auto simp: AuthResult_Encode_def wf_defs wire_AuthResult_def wbytes_def)
next
  case (2 m rest e)
  then show ?case
    by (auto simp: DecodeAuthResult_def wf_defs wire_AuthResult_def read_exact_buf short_lengths)
qed

lemma length_body_ClientMessage:
  "length (cm_To m) = PublicKeySize * 2 \<Longrightarrow>
     length (body_ClientMessage m) = PublicKeySize * 2 + 2 + length (cm_MsgID m) + length (cm_Payload m)"
  by (simp add: body_ClientMessage_def)

interpretation cmsg: wire_codec ClientMessage_Encode "DecodeClientMessage buf_ReadFull"
    wf_ClientMessage wire_ClientMessage
proof (standard, goal_cases)
  case (1 m w)
  then show ?case
    by (auto simp: ClientMessage_Encode_def wf_defs wire_ClientMessage_def wbytes_def
        length_body_ClientMessage) (simp add: body_ClientMessage_def)
next
  case (2 m rest e)
  then have len: "length (body_ClientMessage m)
      = PublicKeySize * 2 + 2 + length (cm_MsgID m) + length (cm_Payload m)"
    by (simp add: wf_defs length_body_ClientMessage)
  with 2 have le: "length (body_ClientMessage m) \<le> MaxMessageSize"
    by (simp add: wf_defs)
  from short_lengths(1) [OF this] le 2 len show ?case
    by (simp add: DecodeClientMessage_def wire_ClientMessage_def wf_defs read_exact_buf)
       (simp add: body_ClientMessage_def short_lengths)
qed

interpretation smsg: wire_codec ServerMessage_Encode "DecodeServerMessage buf_ReadFull"
    wf_ServerMessage wire_ServerMessage
proof (standard, goal_cases)
  case (1 m w)
  then show ?case
    by (auto simp: ServerMessage_Encode_def wf_defs wire_ServerMessage_def wbytes_def)
next
  case (2 m rest e)
  then show ?case
    by (simp add: DecodeServerMessage_def wire_ServerMessage_def wf_defs read_exact_buf short_lengths)
qed

section \<open>Decoders over any source of bytes\<close>

context byte_source
begin

lemma ReadMessageType_refines [refine_intros]:
  "refines \<alpha> (ReadMessageType rf) (ReadMessageType buf_ReadFull)"
  unfolding ReadMessageType_def by (intro refine_intros read_exact_refines)

lemma expect_type_refines [refine_intros]:
  "refines \<alpha> d d' \<Longrightarrow> refines \<alpha> (expect_type rf ty d) (expect_type buf_ReadFull ty d')"
  unfolding expect_type_def by (intro refine_intros ReadMessageType_refines)

lemma DecodeClientHello_refines:
  "refines \<alpha> (DecodeClientHello rf) (DecodeClientHello buf_ReadFull)"
  unfolding DecodeClientHello_def by (intro refine_intros read_exact_refines)

lemma DecodeServerChallenge_refines:
  "refines \<alpha> (DecodeServerChallenge rf) (DecodeServerChallenge buf_ReadFull)"
  unfolding DecodeServerChallenge_def by (intro refine_intros read_exact_refines)

lemma DecodeClientResponse_refines:
  "refines \<alpha> (DecodeClientResponse rf) (DecodeClientResponse buf_ReadFull)"
  unfolding DecodeClientResponse_def by (intro refine_intros read_exact_refines)

lemma DecodeAuthResult_refines:
  "refines \<alpha> (DecodeAuthResult rf) (DecodeAuthResult buf_ReadFull)"
  unfolding DecodeAuthResult_def Let_def by (intro refine_intros read_exact_refines)

lemma DecodeClientMessage_refines:
  "refines \<alpha> (DecodeClientMessage rf) (DecodeClientMessage buf_ReadFull)"
  unfolding DecodeClientMessage_def Let_def by (intro refine_intros read_exact_refines)

lemma DecodeServerMessage_refines:
  "refines \<alpha> (DecodeServerMessage rf) (DecodeServerMessage buf_ReadFull)"
  unfolding DecodeServerMessage_def Let_def by (intro refine_intros read_exact_refines)

lemma read_all_refines:
  "refines \<alpha> d d' \<Longrightarrow> refines \<alpha> (read_all d n) (read_all d' n)"
  by (induction n) (auto intro!: refine_intros)

end

section \<open>Parsing a message body\<close>

text \<open>The message that the fields at their fixed offsets of a body make up.\<close>

definition parse_body :: "bytes \<Rightarrow> ClientMessage" where
  "parse_body d =
     (let k = unat (GetUint16 (take 2 (drop (PublicKeySize * 2) d)));
          r = drop (PublicKeySize * 2 + 2) d
      in \<lparr>cm_To = string_of_bytes (take (PublicKeySize * 2) d),
          cm_MsgID = string_of_bytes (take k r), cm_Payload = drop k r\<rparr>)"

definition body_ok :: "bytes \<Rightarrow> bool" where
  "body_ok d \<longleftrightarrow> PublicKeySize * 2 + 2 \<le> length d
     \<and> unat (GetUint16 (take 2 (drop (PublicKeySize * 2) d))) \<le> length d - (PublicKeySize * 2 + 2)"

lemma body_parse:
  assumes "body_ok d"
  shows "body_ClientMessage (parse_body d) = d"
proof -
  let ?x = "take 2 (drop 64 d)"
  from assms have "PutUint16 (GetUint16 ?x) = ?x"
    by (intro PutUint16_Get) (auto simp: body_ok_def PublicKeySize_def)
  moreover have "length (cm_MsgID (parse_body d)) = unat (GetUint16 ?x)"
    using assms by (simp add: body_ok_def parse_body_def Let_def PublicKeySize_def)
  ultimately have "body_ClientMessage (parse_body d)
      = take 64 d @ ?x @ take (unat (GetUint16 ?x)) (drop 66 d) @ drop (unat (GetUint16 ?x)) (drop 66 d)"
    by (simp add: body_ClientMessage_def parse_body_def Let_def PublicKeySize_def del: drop_drop)
  then show ?thesis
    using take_take_drop [of 64 d 2] by (simp del: drop_drop)
qed

lemma length_To_parse: "body_ok d \<Longrightarrow> length (cm_To (parse_body d)) = PublicKeySize * 2"
  by (simp add: body_ok_def parse_body_def Let_def)

lemma parse_body_wire:
  assumes "length (cm_To m) = PublicKeySize * 2" "length (cm_MsgID m) < 65536"
  shows "body_ok (body_ClientMessage m)" "parse_body (body_ClientMessage m) = m"
  using assms by (simp_all add: body_ok_def parse_body_def body_ClientMessage_def Let_def unat_of_nat)

text \<open>The decoder in closed form.\<close>

lemma DecodeClientMessage_buf:
  "DecodeClientMessage buf_ReadFull (bs, e) =
     (if length bs < 4 then (Err (Wrapf ''read total len'' (short_read bs e)), ([], e))
      else let n = unat (GetUint32 (take 4 bs)); d = take n (drop 4 bs) in
        if MaxMessageSize < n then
          (Err (Errorf ''message too large: %d > %d'' [uint (GetUint32 (take 4 bs)), int MaxMessageSize]),
           (drop 4 bs, e))
        else if length bs - 4 < n then
          (Err (Wrapf ''read message data'' (short_read (drop 4 bs) e)), ([], e))
        else if n < PublicKeySize * 2 + 2 then (Err (Errorf ''message too short'' []), (drop n (drop 4 bs), e))
        else if \<not> body_ok d then (Err (Errorf ''invalid msg_id length'' []), (drop n (drop 4 bs), e))
        else (Ok (parse_body d), (drop n (drop 4 bs), e)))"
  by (simp add: DecodeClientMessage_def bind_read_buf Let_def body_ok_def parse_body_def not_le
      not_less min_def add.commute)

section \<open>The signed data in closed form\<close>

definition signed_data :: "bytes \<Rightarrow> uint64 \<Rightarrow> bytes \<Rightarrow> bytes \<Rightarrow> bytes \<Rightarrow> bytes" where
  "signed_data challenge timestamp serverID clientPubKey channelBinding =
     bytes_of_string ProtocolVersion @ challenge @ PutUint64 timestamp @ serverID
       @ clientPubKey @ channelBinding"

lemma SignedDataSize_eq [sizes]: "SignedDataSize = 148"
  by (simp add: SignedDataSize_def ProtocolVersion_def sizes)

lemma length_ProtocolVersion [simp]: "length ProtocolVersion = 12"
  by (simp add: ProtocolVersion_def)

lemma BuildSignedDataTo_eq:
  assumes "SignedDataSize \<le> length buf" "length c = ChallengeSize" "length s = ServerIDSize"
    "length k = PublicKeySize" "length cb = ChannelBindingSize"
  shows "BuildSignedDataTo buf c t s k cb = Ok (signed_data c t s k cb @ drop SignedDataSize buf, SignedDataSize)"
proof -
  let ?v = "bytes_of_string ProtocolVersion" and ?t = "PutUint64 t"
  have b: "148 \<le> length buf" using assms(1) by (simp add: sizes)
  have 1: "copy_at buf 0 ?v = ?v @ drop 12 buf"
    using b copy_at_append [of "[]" 0 ?v buf] by simp
  have 2: "copy_at (?v @ drop 12 buf) 12 c = (?v @ c) @ drop 44 buf"
    using b assms(2) copy_at_append [of ?v 12 c "drop 12 buf"] by (simp add: sizes)
  have 3: "copy_at ((?v @ c) @ drop 44 buf) 44 ?t = (?v @ c @ ?t) @ drop 52 buf"
    using b assms(2) copy_at_append [of "?v @ c" 44 ?t "drop 44 buf"] by (simp add: sizes)
  have 4: "copy_at ((?v @ c @ ?t) @ drop 52 buf) 52 s = (?v @ c @ ?t @ s) @ drop 84 buf"
    using b assms(2,3) copy_at_append [of "?v @ c @ ?t" 52 s "drop 52 buf"] by (simp add: sizes)
  have 5: "copy_at ((?v @ c @ ?t @ s) @ drop 84 buf) 84 k = (?v @ c @ ?t @ s @ k) @ drop 116 buf"
    using b assms(2-4) copy_at_append [of "?v @ c @ ?t @ s" 84 k "drop 84 buf"] by (simp add: sizes)
  have 6: "copy_at ((?v @ c @ ?t @ s @ k) @ drop 116 buf) 116 cb = (?v @ c @ ?t @ s @ k @ cb) @ drop 148 buf"
    using b assms(2-5) copy_at_append [of "?v @ c @ ?t @ s @ k" 116 cb "drop 116 buf"] by (simp add: sizes)
  have m: "min (length buf) 12 = 12" "min (length buf - 12) 32 = 32" "min (length buf - 52) 32 = 32"
    "min (length buf - 84) 32 = 32" "min (length buf - 116) 32 = 32" "\<not> length buf < 148"
    using b by auto
  have l: "length c = 32" "length s = 32" "length k = 32" "length cb = 32"
    using assms(2-5) by (simp_all add: sizes)
  have a: "(12::nat) + 32 = 44" "(44::nat) + 8 = 52" "(52::nat) + 32 = 84" "(84::nat) + 32 = 116"
    "(116::nat) + 32 = 148" by simp_all
  show ?thesis
    by (simp only: BuildSignedDataTo_def Let_def SignedDataSize_eq TimestampSize_def m l a
        length_ProtocolVersion 1 2 3 4 5 6 if_False signed_data_def)
qed

lemma length_signed_data:
  "length c = ChallengeSize \<Longrightarrow> length s = ServerIDSize \<Longrightarrow> length k = PublicKeySize \<Longrightarrow>
   length cb = ChannelBindingSize \<Longrightarrow> length (signed_data c t s k cb) = SignedDataSize"
  by (simp add: signed_data_def sizes)

lemma BuildSignedData_eq:
  assumes "length c = ChallengeSize" "length s = ServerIDSize" "length k = PublicKeySize"
    "length cb = ChannelBindingSize"
  shows "BuildSignedData c t s k cb = Ok (signed_data c t s k cb)"
  using BuildSignedDataTo_eq [of "replicate SignedDataSize 0" c s k cb t] assms
  by (simp add: BuildSignedData_def length_signed_data)

section \<open>Properties\<close>

text \<open>A stream of server messages survives the network. However the bytes that
  \<open>ServerMessage.Encode\<close> writes for a list of admissible messages are cut into TLS records, a
  client that reads them through a \<open>bufio.Reader\<close> with \<open>DecodeServerMessage\<close> gets exactly these
  messages in this order and nothing is left over.\<close>

theorem server_stream_delivered:
  assumes "list_all wf_ServerMessage ms"
  shows "\<exists>w. write_all ServerMessage_Encode ms empty_writer = (Ok (), w)
    \<and> (\<forall>b. fst (bufio_abs b) = wbytes w \<longrightarrow>
         (\<exists>b'. read_all (DecodeServerMessage bufio_ReadFull) (length ms) b = (Ok ms, b')
              \<and> fst (bufio_abs b') = []))"
proof -
  obtain w where w: "write_all ServerMessage_Encode ms empty_writer = (Ok (), w)"
      "wbytes w = concat (map wire_ServerMessage ms)"
    using smsg.write_all_wire [OF assms healthy_empty] by auto
  have "\<exists>b'. read_all (DecodeServerMessage bufio_ReadFull) (length ms) b = (Ok ms, b')
              \<and> fst (bufio_abs b') = []"
    if "fst (bufio_abs b) = wbytes w" for b
  proof -
    have "read_all (DecodeServerMessage buf_ReadFull) (length ms) (bufio_abs b)
        = (Ok ms, ([], snd (bufio_abs b)))"
      using smsg.read_all_wire [OF assms, of "[]" "snd (bufio_abs b)"] that w(2)
      by (metis append_Nil2 prod.collapse)
    from refines_Ok [OF bufio_src.read_all_refines [OF bufio_src.DecodeServerMessage_refines] this]
    show ?thesis by auto
  qed
  with w(1) show ?thesis by blast
qed

theorem server_stream_delivered_witness:
  "list_all wf_ServerMessage [\<lparr>sm_Data = [1, 2]\<rparr>, \<lparr>sm_Data = []\<rparr>]
   \<and> (\<exists>w. write_all ServerMessage_Encode [\<lparr>sm_Data = [1, 2]\<rparr>, \<lparr>sm_Data = []\<rparr>] empty_writer = (Ok (), w))"
  using server_stream_delivered [of "[\<lparr>sm_Data = [1, 2]\<rparr>, \<lparr>sm_Data = []\<rparr>]"]
  by (auto simp: wf_ServerMessage_def sizes)



text \<open>C31: The data a client signs binds all five parts of the handshake: two runs of
  \<open>BuildSignedData\<close> on arrays of the protocol's sizes give the same bytes only when challenge,
  timestamp, server identifier, public key and channel binding all agree. A signature made for
  one connection says nothing about another.\<close>

theorem BuildSignedData_injective:
  assumes "length c = ChallengeSize" "length s = ServerIDSize" "length k = PublicKeySize"
    "length cb = ChannelBindingSize" "length c' = ChallengeSize" "length s' = ServerIDSize"
    "length k' = PublicKeySize" "length cb' = ChannelBindingSize"
  shows "BuildSignedData c t s k cb = BuildSignedData c' t' s' k' cb'
    \<longleftrightarrow> c = c' \<and> t = t' \<and> s = s' \<and> k = k' \<and> cb = cb'"
  using assms by (auto simp: BuildSignedData_eq signed_data_def)

theorem BuildSignedData_injective_witness:
  "BuildSignedData (replicate 32 1) 5 (replicate 32 2) (replicate 32 3) (replicate 32 4)
   \<noteq> BuildSignedData (replicate 32 1) 6 (replicate 32 2) (replicate 32 3) (replicate 32 4)"
  using BuildSignedData_injective [of "replicate 32 1" "replicate 32 2" "replicate 32 3" "replicate 32 4"
      "replicate 32 1" "replicate 32 2" "replicate 32 3" "replicate 32 4" 5 6]
  by (simp add: sizes)

text \<open>C32: the allocation-free routine of the server and the one of the client agree: \<open>BuildSignedDataTo\<close>
  panics exactly on a buffer that is too short; otherwise it writes into the buffer the bytes that
  \<open>BuildSignedData\<close> returns, whatever the buffer held before, leaves the rest of the buffer as it is
  and returns their number.\<close>

theorem BuildSignedDataTo_equiv:
  assumes "length c = ChallengeSize" "length s = ServerIDSize" "length k = PublicKeySize"
    "length cb = ChannelBindingSize"
  shows "((\<exists>p. BuildSignedDataTo buf c t s k cb = Panic p) \<longleftrightarrow> length buf < SignedDataSize)
    \<and> (SignedDataSize \<le> length buf \<longrightarrow>
        (\<exists>data. BuildSignedData c t s k cb = Ok data \<and> length data = SignedDataSize
           \<and> BuildSignedDataTo buf c t s k cb = Ok (data @ drop (length data) buf, length data)))"
proof (cases "length buf < SignedDataSize")
  case False
  then have "BuildSignedDataTo buf c t s k cb = Ok (signed_data c t s k cb @ drop SignedDataSize buf, SignedDataSize)"
    using assms by (intro BuildSignedDataTo_eq) simp_all
  with False assms show ?thesis by (simp add: BuildSignedData_eq length_signed_data)
qed (simp add: BuildSignedDataTo_def)

theorem BuildSignedDataTo_equiv_witness:
  "\<exists>data. BuildSignedData (replicate 32 1) 5 (replicate 32 2) (replicate 32 3) (replicate 32 4) = Ok data
     \<and> BuildSignedDataTo (replicate 150 9) (replicate 32 1) 5 (replicate 32 2) (replicate 32 3) (replicate 32 4) = Ok (data @ [9, 9], 148)"
proof -
  have "drop 148 (replicate 150 (9 :: byte)) = [9, 9]" by (simp add: numeral_2_eq_2)
  moreover obtain data where "BuildSignedData (replicate 32 1) 5 (replicate 32 2) (replicate 32 3) (replicate 32 4) = Ok data"
    "length data = 148" "BuildSignedDataTo (replicate 150 9) (replicate 32 1) 5 (replicate 32 2) (replicate 32 3) (replicate 32 4)
       = Ok (data @ drop (length data) (replicate 150 9), length data)"
    using BuildSignedDataTo_equiv [of "replicate 32 1" "replicate 32 2" "replicate 32 3" "replicate 32 4" "replicate 150 9" 5]
    by (auto simp: sizes)
  ultimately show ?thesis by simp
qed

text \<open>An inadmissible client message (recipient not 64 bytes, identifier or total size over
  the limit) is refused before the first byte is written: \<open>Encode\<close> returns an error and the
  writer is unchanged, so the stream stays in step and the next message can be sent. On a
  connection that accepts writes, \<open>Encode\<close> succeeds for every other message and writes its frame.\<close>

theorem ClientMessage_Encode_all_or_nothing:
  "(\<not> wf_ClientMessage m \<longrightarrow> (\<exists>s ns. ClientMessage_Encode m w = (Err (Errorf s ns), w)))
   \<and> (wf_ClientMessage m \<and> healthy w \<longrightarrow>
        (\<exists>w'. ClientMessage_Encode m w = (Ok (), w') \<and> wbytes w' = wbytes w @ wire_ClientMessage m))"
  using cmsg.enc_wire [of m w]
  by (auto simp: ClientMessage_Encode_def wf_ClientMessage_def Let_def)

theorem ClientMessage_Encode_all_or_nothing_witness:
  "\<exists>s ns. ClientMessage_Encode \<lparr>cm_To = ''too_short'', cm_MsgID = ''test'', cm_Payload = [1]\<rparr> empty_writer
     = (Err (Errorf s ns), empty_writer)"
  using ClientMessage_Encode_all_or_nothing
      [of "\<lparr>cm_To = ''too_short'', cm_MsgID = ''test'', cm_Payload = [1]\<rparr>" empty_writer]
  by (simp add: wf_ClientMessage_def sizes)

text \<open>The end of a connection as the client sees it. When the peer closes after \<open>bs\<close>, reading
  the next server message reports \<open>io.EOF\<close>, which the read loop takes for an orderly end, in
  exactly two cases: nothing was sent, or the stream stops right after a four-byte length header
  that announces an admissible non-empty body. A cut anywhere else is another error.\<close>

theorem DecodeServerMessage_EOF:
  assumes "DecodeServerMessage buf_ReadFull (bs, io_EOF) = (Err e, st)"
  shows "errors_is e io_EOF \<longleftrightarrow>
     bs = [] \<or> length bs = 4 \<and> 0 < unat (GetUint32 bs) \<and> unat (GetUint32 bs) \<le> MaxMessageSize"
  using assms
  by (auto simp: DecodeServerMessage_def bind_read_buf Let_def short_read_def io_EOF_def
      io_ErrUnexpectedEOF_def not_le split: if_splits)

theorem DecodeServerMessage_EOF_witness:
  "\<exists>e st. DecodeServerMessage buf_ReadFull ([0, 0, 0, 9], io_EOF) = (Err e, st) \<and> errors_is e io_EOF"
proof -
  have n: "unat (GetUint32 [0, 0, 0, 9]) = 9" by (simp add: GetUint32_def)
  then have "DecodeServerMessage buf_ReadFull ([0, 0, 0, 9], io_EOF)
      = (Err (Wrapf ''read data'' io_EOF), ([], io_EOF))"
    by (simp add: DecodeServerMessage_def read_exact_buf Let_def short_read_def sizes)
  from DecodeServerMessage_EOF [OF this] this n show ?thesis by (auto simp: sizes)
qed

text \<open>A rejection with a long explanation is cut, not refused: for a status other than OK the
  result of \<open>AuthResult.Encode\<close> is read back by \<open>DecodeAuthResult\<close> with the same status and the
  first 1024 bytes of the text, whatever its length.\<close>

theorem AuthResult_truncates:
  assumes "Status m \<noteq> AuthStatusOK"
  shows "\<exists>w. AuthResult_Encode m empty_writer = (Ok (), w)
     \<and> expect_type buf_ReadFull TypeAuthResult (DecodeAuthResult buf_ReadFull) (wbytes w @ rest, e)
         = (Ok (m\<lparr>ErrorMsg := take MaxErrorMsgLen (ErrorMsg m)\<rparr>), (rest, e))"
proof -
  let ?m = "m\<lparr>ErrorMsg := take MaxErrorMsgLen (ErrorMsg m)\<rparr>"
  have "AuthResult_Encode m = AuthResult_Encode ?m"
    using assms by (auto simp: AuthResult_Encode_def bytes_of_string_def take_map Let_def)
  moreover have wf: "wf_AuthResult ?m" using assms by (simp add: wf_AuthResult_def)
  ultimately show ?thesis
    using ares.enc_wire [OF wf healthy_empty] ares.dec_wire [OF wf, of rest e] by auto
qed

theorem AuthResult_truncates_witness:
  "\<exists>w. AuthResult_Encode \<lparr>Status = 2, ErrorMsg = replicate 2000 CHR ''x''\<rparr> empty_writer = (Ok (), w)
     \<and> expect_type buf_ReadFull TypeAuthResult (DecodeAuthResult buf_ReadFull) (wbytes w @ [], io_EOF)
         = (Ok \<lparr>Status = 2, ErrorMsg = replicate 1024 CHR ''x''\<rparr>, ([], io_EOF))"
  using AuthResult_truncates [of "\<lparr>Status = 2, ErrorMsg = replicate 2000 CHR ''x''\<rparr>" "[]" io_EOF]
  by (simp add: sizes)

text \<open>The handshake messages round trip over any reader. What \<open>Encode\<close> writes for a hello, a
  challenge and a response of the protocol's sizes is, behind its type byte, decoded to the same
  message on a connection that delivers these bytes in records of any size.\<close>

theorem handshake_messages_roundtrip:
  assumes "wf_ClientHello h" "wf_ServerChallenge c" "wf_ClientResponse r"
  shows "\<exists>w1 w2 w3. ClientHello_Encode h empty_writer = (Ok (), w1)
      \<and> ServerChallenge_Encode c w1 = (Ok (), w2) \<and> ClientResponse_Encode r w2 = (Ok (), w3)
      \<and> (\<forall>s. fst (conn_abs s) = wbytes w3 \<longrightarrow>
          (\<exists>s1 s2 s3. expect_type conn_ReadFull TypeClientHello (DecodeClientHello conn_ReadFull) s = (Ok h, s1)
           \<and> expect_type conn_ReadFull TypeServerChallenge (DecodeServerChallenge conn_ReadFull) s1 = (Ok c, s2)
           \<and> expect_type conn_ReadFull TypeClientResponse (DecodeClientResponse conn_ReadFull) s2 = (Ok r, s3)
           \<and> fst (conn_abs s3) = []))"
proof -
  obtain w1 w2 w3 where w: "ClientHello_Encode h empty_writer = (Ok (), w1)"
      "ServerChallenge_Encode c w1 = (Ok (), w2)" "ClientResponse_Encode r w2 = (Ok (), w3)"
    and bs: "wbytes w3 = wire_ClientHello h @ wire_ServerChallenge c @ wire_ClientResponse r @ []"
    using hello.enc_wire [OF assms(1) healthy_empty] chal.enc_wire [OF assms(2)] resp.enc_wire [OF assms(3)]
    by (metis append.assoc append_Nil append_Nil2 wbytes_empty)
  have "\<exists>s1 s2 s3. expect_type conn_ReadFull TypeClientHello (DecodeClientHello conn_ReadFull) s = (Ok h, s1)
           \<and> expect_type conn_ReadFull TypeServerChallenge (DecodeServerChallenge conn_ReadFull) s1 = (Ok c, s2)
           \<and> expect_type conn_ReadFull TypeClientResponse (DecodeClientResponse conn_ReadFull) s2 = (Ok r, s3)
           \<and> fst (conn_abs s3) = []"
    if "fst (conn_abs s) = wbytes w3" for s
  proof -
    let ?e = "snd (conn_abs s)"
    have s: "conn_abs s = (wire_ClientHello h @ wire_ServerChallenge c @ wire_ClientResponse r @ [], ?e)"
      using that bs by (metis prod.collapse)
    obtain s1 where 1: "expect_type conn_ReadFull TypeClientHello (DecodeClientHello conn_ReadFull) s = (Ok h, s1)"
        "conn_abs s1 = (wire_ServerChallenge c @ wire_ClientResponse r @ [], ?e)"
      using refines_Ok [OF conn_src.expect_type_refines [OF conn_src.DecodeClientHello_refines]]
        hello.dec_wire [OF assms(1)] s by metis
    obtain s2 where 2: "expect_type conn_ReadFull TypeServerChallenge (DecodeServerChallenge conn_ReadFull) s1 = (Ok c, s2)"
        "conn_abs s2 = (wire_ClientResponse r @ [], ?e)"
      using refines_Ok [OF conn_src.expect_type_refines [OF conn_src.DecodeServerChallenge_refines]]
        chal.dec_wire [OF assms(2)] 1(2) by metis
    obtain s3 where "expect_type conn_ReadFull TypeClientResponse (DecodeClientResponse conn_ReadFull) s2 = (Ok r, s3)"
        "conn_abs s3 = ([], ?e)"
      using refines_Ok [OF conn_src.expect_type_refines [OF conn_src.DecodeClientResponse_refines]]
        resp.dec_wire [OF assms(3)] 2(2) by metis
    with 1 2 show ?thesis by auto
  qed
  with w show ?thesis by blast
qed

theorem handshake_messages_roundtrip_witness:
  "\<exists>w1. ClientHello_Encode \<lparr>PubKey = replicate 32 1\<rparr> empty_writer = (Ok (), w1)"
  using handshake_messages_roundtrip [of "\<lparr>PubKey = replicate 32 1\<rparr>"
      "\<lparr>Challenge = replicate 32 2, Timestamp = 3, ServerID = replicate 32 4\<rparr>"
      "\<lparr>Signature = replicate 64 5\<rparr>"]
  by (auto simp: wf_defs sizes)

end
