(* ===== verification/Router_Auth.thy ===== *)
theory Router_Auth
  imports Protocol
begin

text \<open>
  Authentication of a client by the router, \<open>src/pkg/router/auth.go\<close>. The handshake works in one
  preallocated buffer with fixed regions; the state of the computation is the connection and
  that buffer. Slices out of range panic. Randomness, the three readings of the clock and
  Ed25519 verification are parameters. \<open>authenticate\<close> is split at the places where it waits for
  the client; each part has a forward lemma and an inversion lemma, and the theorems put them
  together.
\<close>

section \<open>Layout of the buffer\<close>

definition offPubKey :: nat where [sizes]: "offPubKey = 0"
definition offChallenge :: nat where [sizes]: "offChallenge = 32"
definition offTimestamp :: nat where [sizes]: "offTimestamp = 64"
definition offServerID :: nat where [sizes]: "offServerID = 72"
definition offSignature :: nat where [sizes]: "offSignature = 104"
definition offSignedData :: nat where [sizes]: "offSignedData = 168"
definition offWork :: nat where "offWork = offSignedData + SignedDataSize"
definition AuthBufSize :: nat where "AuthBufSize = offWork + 128"

section \<open>State and environment\<close>

record auth_st =
  as_conn :: netconn
  as_buf :: bytes

text \<open>
  \<open>ae_rand\<close> is \<open>rand.Read\<close>, \<open>ae_start\<close> the time in nanoseconds when the deadline is set,
  \<open>ae_stamp\<close> and \<open>ae_check\<close> are the two calls of \<open>time.Now().Unix()\<close>, \<open>ae_verify\<close> is
  \<open>ed25519.Verify\<close> (public key, message, signature).
\<close>

record auth_env =
  ae_rand :: "nat \<Rightarrow> bytes res"
  ae_start :: int
  ae_stamp :: int
  ae_check :: int
  ae_verify :: "bytes \<Rightarrow> bytes \<Rightarrow> bytes \<Rightarrow> bool"

section \<open>Operations on the buffer\<close>

definition slice_panic :: string where
  "slice_panic = ''slice bounds out of range''"

text \<open>\<open>io.ReadFull(conn, buf[off:off+n])\<close>\<close>

definition readInto :: "nat \<Rightarrow> nat \<Rightarrow> (auth_st, unit) go" where
  "readInto off n s =
     (if length (as_buf s) < off + n then (Panic slice_panic, s)
      else case nc_ReadFull n (as_conn s) of ((b, eo), c) \<Rightarrow>
        (case eo of None \<Rightarrow> Ok () | Some e \<Rightarrow> Err e,
         s\<lparr>as_conn := c, as_buf := copy_at (as_buf s) off b\<rparr>))"

text \<open>\<open>buf[lo:hi]\<close>, read\<close>

definition bufSlice :: "nat \<Rightarrow> nat \<Rightarrow> (auth_st, bytes) go" where
  "bufSlice lo hi s =
     (if length (as_buf s) < hi then Panic slice_panic else Ok (slice (as_buf s) lo hi), s)"

text \<open>\<open>copy(buf[lo:hi], src)\<close>\<close>

definition bufCopy :: "nat \<Rightarrow> nat \<Rightarrow> bytes \<Rightarrow> (auth_st, unit) go" where
  "bufCopy lo hi src s =
     (if length (as_buf s) < hi then (Panic slice_panic, s)
      else (Ok (), s\<lparr>as_buf := copy_at (as_buf s) lo (take (hi - lo) src)\<rparr>))"

definition onConn :: "(netconn, 'a) go \<Rightarrow> (auth_st, 'a) go" where
  "onConn = go_lift as_conn (\<lambda>c s. s\<lparr>as_conn := c\<rparr>)"

definition ofRes :: "'a res \<Rightarrow> ('s, 'a) go" where
  "ofRes r = (\<lambda>s. (r, s))"

text \<open>\<open>uint64(d.Seconds())\<close> for a duration in nanoseconds: whole seconds, truncated.\<close>

definition duration_seconds :: "int \<Rightarrow> uint64" where
  "duration_seconds d = word_of_int (d div 1000000000)"

section \<open>The handshake\<close>

text \<open>A type byte, read into the work area and checked, then a field read into its region.\<close>

definition recv_typed :: "string \<Rightarrow> byte \<Rightarrow> string \<Rightarrow> nat \<Rightarrow> nat \<Rightarrow> (auth_st, unit) go" where
  "recv_typed typeErr ty fieldErr off n =
     go_bind (wrapf typeErr (readInto offWork 1)) (\<lambda>_.
     go_bind (bufSlice offWork (offWork + 1)) (\<lambda>t.
     go_bind (go_guard (t ! 0 = ty) (Errorf ''unexpected message type: %d'' [uint (t ! 0)])) (\<lambda>_.
     wrapf fieldErr (readInto off n))))"

text \<open>Steps 1 and 2: the hello.\<close>

definition auth_hello :: "(auth_st, unit) go" where
  "auth_hello = recv_typed ''read hello type'' TypeClientHello ''read pubkey'' offPubKey PublicKeySize"

text \<open>Steps 3 to 6: a fresh challenge and its timestamp, sent with the server identifier.\<close>

definition auth_challenge :: "auth_env \<Rightarrow> (auth_st, unit) go" where
  "auth_challenge E =
     go_bind (wrapf ''generate challenge'' (ofRes (ae_rand E ChallengeSize))) (\<lambda>r.
     go_bind (bufCopy offChallenge (offChallenge + ChallengeSize) r) (\<lambda>_.
     go_bind (bufCopy offTimestamp (offTimestamp + TimestampSize)
                (PutUint64 (word_of_int (ae_stamp E)))) (\<lambda>_.
     go_bind (bufCopy offWork (offWork + 1) [TypeServerChallenge]) (\<lambda>_.
     go_bind (bufSlice offChallenge (offChallenge + ChallengeSize)) (\<lambda>c.
     go_bind (bufCopy (offWork + 1) (offWork + 73) c) (\<lambda>_.
     go_bind (bufSlice offTimestamp (offTimestamp + TimestampSize)) (\<lambda>ts.
     go_bind (bufCopy (offWork + 1 + ChallengeSize) (offWork + 73) ts) (\<lambda>_.
     go_bind (bufSlice offServerID (offServerID + ServerIDSize)) (\<lambda>sid.
     go_bind (bufCopy (offWork + 1 + ChallengeSize + TimestampSize) (offWork + 73) sid) (\<lambda>_.
     go_bind (bufSlice offWork (offWork + 1 + ChallengeSize + TimestampSize + ServerIDSize)) (\<lambda>msg.
     wrapf ''send challenge'' (onConn (nc_Write msg)))))))))))))"

text \<open>Steps 7 and 8: the response.\<close>

definition auth_response :: "(auth_st, unit) go" where
  "auth_response =
     recv_typed ''read response type'' TypeClientResponse ''read signature'' offSignature SignatureSize"

text \<open>Step 9: the channel binding of the TLS connection.\<close>

definition auth_binding :: "(auth_st, bytes) go" where
  "auth_binding s = (case c_tls (as_conn s) of
     None \<Rightarrow> (Err (Errorf ''not a TLS connection'' []), s)
   | Some st \<Rightarrow> wrapf ''get channel binding'' (ofRes (GetChannelBinding st)) s)"

text \<open>Steps 10 and 11: the signed data, assembled in its region of the buffer, and the signature.\<close>

definition auth_signature :: "auth_env \<Rightarrow> bytes \<Rightarrow> (auth_st, unit) go" where
  "auth_signature E cb =
     go_bind (bufSlice offChallenge (offChallenge + ChallengeSize)) (\<lambda>c.
     go_bind (bufSlice offServerID (offServerID + ServerIDSize)) (\<lambda>sid.
     go_bind (bufSlice offPubKey (offPubKey + PublicKeySize)) (\<lambda>pk.
     go_bind (bufSlice offSignedData (offSignedData + SignedDataSize)) (\<lambda>buf.
     go_bind (ofRes (BuildSignedDataTo buf c (word_of_int (ae_stamp E)) sid pk cb)) (\<lambda>signed.
     go_bind (bufCopy offSignedData (offSignedData + SignedDataSize) (fst signed)) (\<lambda>_.
     go_bind (bufSlice offPubKey (offPubKey + PublicKeySize)) (\<lambda>key.
     go_bind (bufSlice offSignature (offSignature + SignatureSize)) (\<lambda>sig.
     go_guard (ae_verify E key (take (snd signed) (fst signed)) sig) ErrInvalidSignature))))))))"

text \<open>Steps 12 and 13: freshness of the timestamp, in unsigned 64-bit arithmetic, and the result.\<close>

definition auth_finish :: "auth_env \<Rightarrow> int \<Rightarrow> (auth_st, unit) go" where
  "auth_finish E challengeTTL =
     (let timestamp = word_of_int (ae_stamp E) :: uint64;
          now = word_of_int (ae_check E) :: uint64
      in go_bind (go_guard (\<not> now + 60 < timestamp) (Errorf ''timestamp in future'' [])) (\<lambda>_.
         go_bind (go_guard (\<not> duration_seconds challengeTTL < now - timestamp) ErrChallengeExpired) (\<lambda>_.
         go_bind (bufCopy offWork (offWork + 1) [TypeAuthResult]) (\<lambda>_.
         go_bind (bufCopy (offWork + 1) (offWork + 2) [AuthStatusOK]) (\<lambda>_.
         go_bind (bufSlice offWork (offWork + 2)) (\<lambda>msg.
         wrapf ''send auth result'' (onConn (nc_Write msg))))))))"

definition auth_body :: "auth_env \<Rightarrow> int \<Rightarrow> (auth_st, unit) go" where
  "auth_body E challengeTTL =
     go_bind auth_hello (\<lambda>_.
     go_bind (auth_challenge E) (\<lambda>_.
     go_bind auth_response (\<lambda>_.
     go_bind auth_binding (\<lambda>cb.
     go_bind (auth_signature E cb) (\<lambda>_.
     auth_finish E challengeTTL)))))"

text \<open>The deadline covers the whole handshake and is lifted on every return.\<close>

definition authenticate :: "auth_env \<Rightarrow> int \<Rightarrow> int \<Rightarrow> (auth_st, unit) go" where
  "authenticate E timeout challengeTTL =
     go_bind (wrapf ''set deadline'' (onConn (nc_SetDeadline (Some (ae_start E + timeout))))) (\<lambda>_.
     go_defer (onConn (nc_SetDeadline None)) (auth_body E challengeTTL))"

section \<open>Every path keeps the buffer and does not panic\<close>

lemma offWork_eq [sizes]: "offWork = 316"
  by (simp add: offWork_def sizes)

lemma AuthBufSize_eq [sizes]: "AuthBufSize = 444"
  by (simp add: AuthBufSize_def sizes)

text \<open>The buffer has its size and the server identifier is at its place.\<close>

definition server_buf :: "bytes \<Rightarrow> bytes \<Rightarrow> bool" where
  "server_buf sid b \<longleftrightarrow> length b = AuthBufSize \<and> slice b offServerID (offServerID + ServerIDSize) = sid"

abbreviation auth_inv :: "tls_state option \<Rightarrow> bytes \<Rightarrow> auth_st \<Rightarrow> bool" where
  "auth_inv tls sid s \<equiv> server_buf sid (as_buf s) \<and> c_tls (as_conn s) = tls"

text \<open>The keying-material exporter of the TLS connection returns a value or an error.\<close>

definition exporter_total :: "tls_state option \<Rightarrow> bool" where
  "exporter_total tls \<longleftrightarrow> (\<forall>st l c n p. tls = Some st \<longrightarrow> ExportKeyingMaterial st l c n \<noteq> Panic p)"

lemma server_buf_copy_at:
  assumes "server_buf sid b" "off + length src \<le> AuthBufSize"
    "off + length src \<le> offServerID \<or> offServerID + ServerIDSize \<le> off"
  shows "server_buf sid (copy_at b off src)"
  using assms
  by (auto simp: server_buf_def sizes slice_copy_at_below slice_copy_at_above)

lemma nc_ReadFull_tls: "nc_ReadFull n c = (r, c') \<Longrightarrow> c_tls c' = c_tls c"
  by (auto simp: nc_ReadFull_def split: if_splits prod.splits)

lemma nc_Write_tls: "nc_Write p c = (r, c') \<Longrightarrow> c_tls c' = c_tls c"
  by (auto simp: nc_Write_def split: if_splits prod.splits)

lemma nc_SetDeadline_tls: "nc_SetDeadline t c = (r, c') \<Longrightarrow> c_tls c' = c_tls c"
  by (auto simp: nc_SetDeadline_def split: if_splits list.splits option.splits)

lemma safe_readInto:
  assumes "off + n \<le> AuthBufSize" "off + n \<le> offServerID \<or> offServerID + ServerIDSize \<le> off"
  shows "safe (auth_inv tls sid) (readInto off n)"
  unfolding safe_def
proof (intro allI impI)
  fix s assume I: "auth_inv tls sid s"
  obtain b eo c where r: "nc_ReadFull n (as_conn s) = ((b, eo), c)" by (metis surj_pair)
  then have "length b \<le> n" by (rule nc_ReadFull_length)
  with assms I have "server_buf sid (copy_at (as_buf s) off b)"
    by (intro server_buf_copy_at) auto
  with r I assms nc_ReadFull_tls [OF r] show "auth_inv tls sid (snd (readInto off n s)) \<and> (\<forall>p. fst (readInto off n s) \<noteq> Panic p)"
    by (auto simp: readInto_def server_buf_def split: option.splits)
qed

lemma safe_bufCopy:
  assumes "hi \<le> AuthBufSize" "lo \<le> hi" "hi \<le> offServerID \<or> offServerID + ServerIDSize \<le> lo"
  shows "safe (auth_inv tls sid) (bufCopy lo hi src)"
proof -
  have "server_buf sid b \<Longrightarrow> server_buf sid (copy_at b lo (take (hi - lo) src))" for b
    using assms by (intro server_buf_copy_at) auto
  then show ?thesis using assms(1) by (auto simp: safe_def bufCopy_def server_buf_def)
qed

lemma safe_bufSlice: "hi \<le> AuthBufSize \<Longrightarrow> safe (auth_inv tls sid) (bufSlice lo hi)"
  by (auto simp: safe_def bufSlice_def server_buf_def)

lemma safe_bufSlice_bind:
  assumes "hi \<le> AuthBufSize" "\<And>x. length x = hi - lo \<Longrightarrow> safe (auth_inv tls sid) (f x)"
  shows "safe (auth_inv tls sid) (go_bind (bufSlice lo hi) f)"
  by (rule safe_bind_post [where Q = "\<lambda>x. length x = hi - lo"])
     (use assms in \<open>auto simp: safe_def bufSlice_def server_buf_def\<close>)

lemma nc_Write_no_panic: "nc_Write p c \<noteq> (Panic q, c')"
  by (auto simp: nc_Write_def split: prod.splits)

lemma nc_SetDeadline_no_panic: "nc_SetDeadline t c \<noteq> (Panic q, c')"
  by (auto simp: nc_SetDeadline_def split: list.splits option.splits)

lemma safe_Write: "safe (auth_inv tls sid) (onConn (nc_Write p))"
  by (auto simp: safe_def onConn_def go_lift_def nc_Write_no_panic dest: nc_Write_tls split: prod.splits)

lemma safe_SetDeadline: "safe (auth_inv tls sid) (onConn (nc_SetDeadline t))"
  by (auto simp: safe_def onConn_def go_lift_def nc_SetDeadline_no_panic dest: nc_SetDeadline_tls
      split: prod.splits)

lemma safe_ofRes: "(\<And>p. r \<noteq> Panic p) \<Longrightarrow> safe I (ofRes r)"
  by (simp add: safe_def ofRes_def)

lemmas auth_safe = safe_intros safe_readInto safe_bufCopy safe_Write safe_SetDeadline safe_bufSlice

lemma auth_hello_safe: "safe (auth_inv tls sid) auth_hello"
  unfolding auth_hello_def recv_typed_def
  by (intro auth_safe) (simp_all add: sizes)

lemma auth_response_safe: "safe (auth_inv tls sid) auth_response"
  unfolding auth_response_def recv_typed_def
  by (intro auth_safe) (simp_all add: sizes)

lemma auth_challenge_safe:
  "(\<And>n p. ae_rand E n \<noteq> Panic p) \<Longrightarrow> safe (auth_inv tls sid) (auth_challenge E)"
  unfolding auth_challenge_def
  by (intro auth_safe safe_ofRes) (simp_all add: sizes)

lemma auth_finish_safe: "safe (auth_inv tls sid) (auth_finish E ttl)"
  unfolding auth_finish_def Let_def
  by (intro auth_safe) (simp_all add: sizes)

lemma GetChannelBinding_total:
  "exporter_total (Some st) \<Longrightarrow> GetChannelBinding st \<noteq> Panic p"
  by (auto simp: GetChannelBinding_def exporter_total_def split: res.splits)

lemma BuildSignedDataTo_total:
  "SignedDataSize \<le> length buf \<Longrightarrow> BuildSignedDataTo buf c t s k cb \<noteq> Panic p"
  by (simp only: BuildSignedDataTo_def Let_def not_less [symmetric] if_False res.distinct not_False_eq_True)

lemma auth_binding_safe:
  assumes "exporter_total tls"
  shows "safe (auth_inv tls sid) auth_binding"
  using assms
  by (auto simp: safe_def auth_binding_def wrapf_def ofRes_def GetChannelBinding_total
      split: option.splits res.splits)

lemma auth_signature_safe: "safe (auth_inv tls sid) (auth_signature E cb)"
proof -
  have b: "offChallenge + ChallengeSize \<le> AuthBufSize" "offServerID + ServerIDSize \<le> AuthBufSize"
    "offPubKey + PublicKeySize \<le> AuthBufSize" "offSignedData + SignedDataSize \<le> AuthBufSize"
    by (simp_all add: sizes)
  show ?thesis
    unfolding auth_signature_def
    by (rule safe_bind [OF safe_bufSlice [OF b(1)]] safe_bind [OF safe_bufSlice [OF b(2)]]
          safe_bind [OF safe_bufSlice [OF b(3)]] safe_bufSlice_bind [OF b(4)])+
       (intro auth_safe safe_ofRes BuildSignedDataTo_total, simp_all add: sizes)
qed

lemma authenticate_safe:
  assumes "\<And>n p. ae_rand E n \<noteq> Panic p" "exporter_total tls"
  shows "safe (auth_inv tls sid) (authenticate E timeout ttl)"
  unfolding authenticate_def auth_body_def
  by (intro auth_safe auth_hello_safe auth_challenge_safe auth_response_safe auth_binding_safe auth_signature_safe
      auth_finish_safe assms)

section \<open>What each part does\<close>

lemma readInto_Ok:
  assumes "n \<le> length (nc_content (as_conn s))" "\<not> c_closed (as_conn s)" "off + n \<le> length (as_buf s)"
  obtains r where "readInto off n s = (Ok (), s\<lparr>as_conn := as_conn s\<lparr>c_in := r\<rparr>,
      as_buf := copy_at (as_buf s) off (take n (nc_content (as_conn s)))\<rparr>)"
    "nc_content (as_conn s\<lparr>c_in := r\<rparr>) = drop n (nc_content (as_conn s))"
proof -
  obtain r where "nc_ReadFull n (as_conn s) = ((take n (nc_content (as_conn s)), None), as_conn s\<lparr>c_in := r\<rparr>)"
    "nc_content (as_conn s\<lparr>c_in := r\<rparr>) = drop n (nc_content (as_conn s))"
    using assms(1,2) by (rule nc_ReadFull_Ok)
  with assms(3) show thesis by (intro that [of r]) (simp_all add: readInto_def)
qed

lemma readInto_OkD:
  assumes "readInto off n s = (Ok u, t)" "0 < n"
  shows "\<not> c_closed (as_conn s) \<and> n \<le> length (nc_content (as_conn s)) \<and> off + n \<le> length (as_buf s)"
proof -
  obtain b eo c where r: "nc_ReadFull n (as_conn s) = ((b, eo), c)" by (metis surj_pair)
  with assms have "eo = None" "off + n \<le> length (as_buf s)"
    by (auto simp: readInto_def split: if_splits option.splits)
  with r assms(2) nc_ReadFull_Some [of n "as_conn s" b c] show ?thesis by simp
qed

lemma slice_work [simp]: "length b = AuthBufSize \<Longrightarrow> slice (copy_at b offWork [x]) offWork (Suc offWork) = [x]"
  by (simp add: slice_copy_at_same sizes)

lemma recv_typed_Ok:
  assumes "nc_content (as_conn s) = ty # x @ rest" "length x = n" "\<not> c_closed (as_conn s)"
    "length (as_buf s) = AuthBufSize" "off + n \<le> AuthBufSize"
  obtains r where "recv_typed e1 ty e2 off n s = (Ok (), s\<lparr>as_conn := as_conn s\<lparr>c_in := r\<rparr>,
      as_buf := copy_at (copy_at (as_buf s) offWork [ty]) off x\<rparr>)"
    "nc_content (as_conn s\<lparr>c_in := r\<rparr>) = rest"
proof -
  obtain r1 where 1: "readInto offWork 1 s = (Ok (), s\<lparr>as_conn := as_conn s\<lparr>c_in := r1\<rparr>,
      as_buf := copy_at (as_buf s) offWork [ty]\<rparr>)" "nc_content (as_conn s\<lparr>c_in := r1\<rparr>) = x @ rest"
    using assms(1,3,4) readInto_Ok [of 1 s offWork] by (auto simp: sizes)
  let ?s1 = "s\<lparr>as_conn := as_conn s\<lparr>c_in := r1\<rparr>, as_buf := copy_at (as_buf s) offWork [ty]\<rparr>"
  obtain r2 where 2: "readInto off n ?s1 = (Ok (), ?s1\<lparr>as_conn := as_conn ?s1\<lparr>c_in := r2\<rparr>,
      as_buf := copy_at (as_buf ?s1) off x\<rparr>)" "nc_content (as_conn ?s1\<lparr>c_in := r2\<rparr>) = rest"
    using assms 1(2) readInto_Ok [of n ?s1 off] by (auto simp: sizes)
  have "bufSlice offWork (offWork + 1) ?s1 = (Ok [ty], ?s1)"
    using assms(4) by (simp add: bufSlice_def) (simp add: sizes)
  with 1 2 show thesis by (intro that [of r2]) (simp_all add: recv_typed_def)
qed

lemma recv_typed_OkD:
  assumes "recv_typed e1 ty e2 off n s = (Ok u, t)" "0 < n" "length (as_buf s) = AuthBufSize"
  obtains x rest where "nc_content (as_conn s) = ty # x @ rest" "length x = n" "\<not> c_closed (as_conn s)"
proof -
  from assms(1) obtain s1 where s1: "readInto offWork 1 s = (Ok (), s1)"
    and rest: "(\<lambda>s. go_bind (bufSlice offWork (offWork + 1)) (\<lambda>t.
        go_bind (go_guard (t ! 0 = ty) (Errorf ''unexpected message type: %d'' [uint (t ! 0)])) (\<lambda>_.
        wrapf e2 (readInto off n))) s) s1 = (Ok u, t)"
    by (auto simp: recv_typed_def go_bind_eq_Ok [of "wrapf _ _"] wrapf_eq_Ok)
  from readInto_OkD [OF s1] obtain b bs where c: "nc_content (as_conn s) = b # bs" "\<not> c_closed (as_conn s)"
    by (cases "nc_content (as_conn s)") auto
  obtain r where r: "s1 = s\<lparr>as_conn := as_conn s\<lparr>c_in := r\<rparr>, as_buf := copy_at (as_buf s) offWork [b]\<rparr>"
      "nc_content (as_conn s\<lparr>c_in := r\<rparr>) = bs"
    using c assms(3) s1 readInto_Ok [of 1 s offWork] by (auto simp: sizes)
  have "bufSlice offWork (offWork + 1) s1 = (Ok [b], s1)"
    using assms(3) r(1) by (simp add: bufSlice_def) (simp add: sizes)
  with rest have "b = ty" and "readInto off n s1 = (Ok u, t)"
    by (auto simp: wrapf_eq_Ok split: if_splits)
  with readInto_OkD [OF this(2) assms(2)] r have "n \<le> length bs" by simp
  with c \<open>b = ty\<close> show thesis by (intro that [of "take n bs" "drop n bs"]) simp_all
qed

lemma bufCopy_Ok:
  "hi \<le> length (as_buf s) \<Longrightarrow> length src \<le> hi - lo \<Longrightarrow>
     bufCopy lo hi src s = (Ok (), s\<lparr>as_buf := copy_at (as_buf s) lo src\<rparr>)"
  by (simp add: bufCopy_def)

lemma bufSlice_Ok: "hi \<le> length (as_buf s) \<Longrightarrow> bufSlice lo hi s = (Ok (slice (as_buf s) lo hi), s)"
  by (simp add: bufSlice_def)

lemma onConn_Write_Ok:
  "healthy (c_out (as_conn s)) \<Longrightarrow> \<not> c_closed (as_conn s) \<Longrightarrow>
     onConn (nc_Write p) s = (Ok (), s\<lparr>as_conn := as_conn s\<lparr>c_out :=
        (c_out (as_conn s))\<lparr>wout := wout (c_out (as_conn s)) @ [p]\<rparr>\<rparr>\<rparr>)"
  by (simp add: onConn_def go_lift_def nc_Write_def)

text \<open>The buffer after the challenge has been assembled.\<close>

definition challenge_buf :: "bytes \<Rightarrow> bytes \<Rightarrow> bytes \<Rightarrow> bytes" where
  "challenge_buf b chal ts =
     copy_at (copy_at (copy_at (copy_at (copy_at (copy_at b 32 chal) 64 ts) 316 [TypeServerChallenge])
       317 chal) 349 ts) 357 (slice b 72 104)"

lemma challenge_buf_regions:
  assumes "length b = 444" "length chal = 32" "length ts = 8"
  shows "length (challenge_buf b chal ts) = 444"
    "slice (challenge_buf b chal ts) 0 32 = slice b 0 32"
    "slice (challenge_buf b chal ts) 32 64 = chal"
    "slice (challenge_buf b chal ts) 72 104 = slice b 72 104"
    "slice (challenge_buf b chal ts) 316 389 = TypeServerChallenge # chal @ ts @ slice b 72 104"
proof -
  let ?c = "challenge_buf b chal ts"
  show "length ?c = 444" "slice ?c 0 32 = slice b 0 32" "slice ?c 32 64 = chal"
    "slice ?c 72 104 = slice b 72 104"
    using assms by (simp_all add: challenge_buf_def slice_copy_at)
  have "slice ?c 316 389 = slice ?c 316 317 @ slice ?c 317 349 @ slice ?c 349 357 @ slice ?c 357 389"
    using slice_split [of 316 317 389 ?c] slice_split [of 317 349 389 ?c] slice_split [of 349 357 389 ?c]
    by simp
  also have "\<dots> = [TypeServerChallenge] @ chal @ ts @ slice b 72 104"
    using assms by (simp add: challenge_buf_def slice_copy_at)
  finally show "slice ?c 316 389 = TypeServerChallenge # chal @ ts @ slice b 72 104" by simp
qed

lemma auth_challenge_Ok:
  assumes "ae_rand E ChallengeSize = Ok chal" "length chal = ChallengeSize"
    "length (as_buf s) = AuthBufSize" "\<not> c_closed (as_conn s)" "healthy (c_out (as_conn s))"
  shows "auth_challenge E s = (Ok (), s\<lparr>
      as_conn := as_conn s\<lparr>c_out := (c_out (as_conn s))\<lparr>wout := wout (c_out (as_conn s)) @
        [wire_ServerChallenge \<lparr>Challenge = chal, Timestamp = word_of_int (ae_stamp E),
           ServerID = slice (as_buf s) 72 104\<rparr>]\<rparr>\<rparr>,
      as_buf := challenge_buf (as_buf s) chal (PutUint64 (word_of_int (ae_stamp E)))\<rparr>)"
proof -
  let ?ts = "PutUint64 (word_of_int (ae_stamp E))"
  have l: "length (as_buf s) = 444" "length chal = 32" using assms by (simp_all add: sizes)
  have r: "ofRes (ae_rand E 32) s = (Ok chal, s)" using assms(1) by (simp add: ofRes_def sizes)
  have w: "wrapf ''send challenge'' (onConn (nc_Write p)) (s\<lparr>as_buf := b\<rparr>) = (Ok (), s\<lparr>
      as_conn := as_conn s\<lparr>c_out := (c_out (as_conn s))\<lparr>wout := wout (c_out (as_conn s)) @ [p]\<rparr>\<rparr>,
      as_buf := b\<rparr>)" for p b
    using assms(4,5) by (simp add: onConn_Write_Ok)
  show ?thesis
    using l r challenge_buf_regions(5) [OF l, of ?ts]
    by (simp add: auth_challenge_def sizes bufCopy_Ok bufSlice_Ok slice_copy_at w wire_ServerChallenge_def
        challenge_buf_def)
qed

lemma GetChannelBinding_length: "GetChannelBinding st = Ok cb \<Longrightarrow> length cb = ChannelBindingSize"
  by (auto simp: GetChannelBinding_def split: if_splits res.splits)

lemma auth_binding_Ok:
  "c_tls (as_conn s) = Some st \<Longrightarrow> GetChannelBinding st = Ok cb \<Longrightarrow> auth_binding s = (Ok cb, s)"
  by (simp add: auth_binding_def ofRes_def)

lemma auth_signature_eq:
  assumes "length (as_buf s) = AuthBufSize" "length cb = ChannelBindingSize"
  shows "auth_signature E cb s =
    (let d = signed_data (slice (as_buf s) 32 64) (word_of_int (ae_stamp E)) (slice (as_buf s) 72 104)
               (slice (as_buf s) 0 32) cb
     in (if ae_verify E (slice (as_buf s) 0 32) d (slice (as_buf s) 104 168)
         then Ok () else Err ErrInvalidSignature,
         s\<lparr>as_buf := copy_at (as_buf s) 168 d\<rparr>))"
proof -
  let ?b = "as_buf s"
  let ?d = "signed_data (slice ?b 32 64) (word_of_int (ae_stamp E)) (slice ?b 72 104) (slice ?b 0 32) cb"
  have l: "length ?b = 444" using assms(1) by (simp add: sizes)
  have d: "length ?d = 148" using l assms(2) by (simp add: signed_data_def sizes)
  have "BuildSignedDataTo (slice ?b 168 316) (slice ?b 32 64) (word_of_int (ae_stamp E))
      (slice ?b 72 104) (slice ?b 0 32) cb = Ok (?d, 148)"
    using l assms(2) by (subst BuildSignedDataTo_eq) (simp_all add: sizes)
  with l d show ?thesis
    by (simp add: auth_signature_def sizes bufSlice_Ok bufCopy_Ok ofRes_def slice_copy_at Let_def)
qed

text \<open>The freshness test of step 12.\<close>

definition auth_fresh :: "auth_env \<Rightarrow> int \<Rightarrow> bool" where
  "auth_fresh E ttl \<longleftrightarrow>
     (word_of_int (ae_stamp E) :: uint64) \<le> word_of_int (ae_check E) + 60
     \<and> (word_of_int (ae_check E) :: uint64) - word_of_int (ae_stamp E) \<le> duration_seconds ttl"

lemma auth_finish_OkD: "auth_finish E ttl s = (Ok u, t) \<Longrightarrow> auth_fresh E ttl"
  by (auto simp: auth_finish_def auth_fresh_def Let_def not_less split: if_splits)

lemma auth_finish_Ok:
  assumes "auth_fresh E ttl" "length (as_buf s) = AuthBufSize" "\<not> c_closed (as_conn s)"
    "healthy (c_out (as_conn s))"
  shows "auth_finish E ttl s = (Ok (), s\<lparr>
      as_conn := as_conn s\<lparr>c_out := (c_out (as_conn s))\<lparr>wout := wout (c_out (as_conn s)) @
        [wire_AuthResult \<lparr>Status = AuthStatusOK, ErrorMsg = ''''\<rparr>]\<rparr>\<rparr>,
      as_buf := copy_at (copy_at (as_buf s) 316 [TypeAuthResult]) 317 [AuthStatusOK]\<rparr>)"
proof -
  let ?b = "copy_at (copy_at (as_buf s) 316 [TypeAuthResult]) 317 [AuthStatusOK]"
  have l: "length (as_buf s) = 444" using assms by (simp add: sizes)
  have "slice ?b 316 318 = slice ?b 316 317 @ slice ?b 317 318" by (rule slice_split) simp_all
  also have "\<dots> = [TypeAuthResult, AuthStatusOK]" using l by (simp add: slice_copy_at)
  finally have "slice ?b 316 318 = [TypeAuthResult, AuthStatusOK]" .
  with assms l show ?thesis
    by (simp add: auth_finish_def auth_fresh_def Let_def not_less offWork_eq bufCopy_Ok bufSlice_Ok
        onConn_Write_Ok wire_AuthResult_def)
qed

section \<open>The whole handshake\<close>

text \<open>
  The abstract decision: the input starts with a hello and a response, the signature verifies
  under the key of the hello for this challenge, this server and this TLS connection, and the
  challenge is fresh.
\<close>

definition auth_accepts ::
    "auth_env \<Rightarrow> int \<Rightarrow> bytes \<Rightarrow> bytes \<Rightarrow> bytes \<Rightarrow> bytes \<Rightarrow> bytes \<Rightarrow> bytes \<Rightarrow> bytes \<Rightarrow> bool" where
  "auth_accepts E ttl chal sid cb bs pk sig rest \<longleftrightarrow>
     bs = wire_ClientHello \<lparr>PubKey = pk\<rparr> @ wire_ClientResponse \<lparr>Signature = sig\<rparr> @ rest
     \<and> length pk = PublicKeySize \<and> length sig = SignatureSize
     \<and> ae_verify E pk (signed_data chal (word_of_int (ae_stamp E)) sid pk cb) sig
     \<and> auth_fresh E ttl"

text \<open>The state of affairs in which a handshake starts, failures of the server's side aside.\<close>

definition auth_ready :: "auth_env \<Rightarrow> bytes \<Rightarrow> bytes \<Rightarrow> bytes \<Rightarrow> auth_st \<Rightarrow> bool" where
  "auth_ready E chal sid cb s \<longleftrightarrow>
     server_buf sid (as_buf s) \<and> \<not> c_closed (as_conn s) \<and> healthy (c_out (as_conn s))
     \<and> ae_rand E ChallengeSize = Ok chal \<and> length chal = ChallengeSize
     \<and> (\<exists>st. c_tls (as_conn s) = Some st \<and> GetChannelBinding st = Ok cb)"

definition challenge_of :: "auth_env \<Rightarrow> bytes \<Rightarrow> bytes \<Rightarrow> ServerChallenge" where
  "challenge_of E chal sid =
     \<lparr>Challenge = chal, Timestamp = word_of_int (ae_stamp E), ServerID = sid\<rparr>"

definition accepted :: AuthResult where
  "accepted = \<lparr>Status = AuthStatusOK, ErrorMsg = ''''\<rparr>"

text \<open>What a successful run leaves behind.\<close>

definition auth_done :: "auth_env \<Rightarrow> bytes \<Rightarrow> bytes \<Rightarrow> bytes \<Rightarrow> bytes \<Rightarrow> auth_st \<Rightarrow> auth_st \<Rightarrow> bool" where
  "auth_done E chal sid pk rest s t \<longleftrightarrow>
     nc_content (as_conn t) = rest
     \<and> wout (c_out (as_conn t)) = wout (c_out (as_conn s))
          @ [wire_ServerChallenge (challenge_of E chal sid), wire_AuthResult accepted]
     \<and> server_buf sid (as_buf t) \<and> slice (as_buf t) offPubKey (offPubKey + PublicKeySize) = pk
     \<and> \<not> c_closed (as_conn t) \<and> c_dlplan (as_conn t) = c_dlplan (as_conn s)"

lemma auth_hello_prefix:
  assumes "auth_ready E chal sid cb s" "nc_content (as_conn s) = TypeClientHello # pk @ bs" "length pk = PublicKeySize"
  obtains r where "auth_hello s = (Ok (), s\<lparr>as_conn := as_conn s\<lparr>c_in := r\<rparr>,
      as_buf := copy_at (copy_at (as_buf s) offWork [TypeClientHello]) offPubKey pk\<rparr>)"
    "nc_content (as_conn s\<lparr>c_in := r\<rparr>) = bs"
  unfolding auth_hello_def using assms
  by (elim recv_typed_Ok [where off = offPubKey and n = PublicKeySize])
     (auto simp: auth_ready_def server_buf_def sizes)

text \<open>The state in which the response is awaited.\<close>

lemma auth_challenge_step:
  assumes "auth_ready E chal sid cb s" "nc_content (as_conn s) = TypeClientHello # pk @ bs" "length pk = PublicKeySize"
  obtains u t where "auth_hello s = (Ok (), u)" "auth_challenge E u = (Ok (), t)"
    "length (as_buf t) = AuthBufSize" "\<not> c_closed (as_conn t)" "healthy (c_out (as_conn t))"
    "c_tls (as_conn t) = c_tls (as_conn s)" "nc_content (as_conn t) = bs"
    "wout (c_out (as_conn t)) = wout (c_out (as_conn s)) @ [wire_ServerChallenge (challenge_of E chal sid)]"
    "slice (as_buf t) 0 32 = pk" "slice (as_buf t) 32 64 = chal" "slice (as_buf t) 72 104 = sid"
    "c_dlplan (as_conn t) = c_dlplan (as_conn s)"
proof -
  obtain r where h: "auth_hello s = (Ok (), s\<lparr>as_conn := as_conn s\<lparr>c_in := r\<rparr>,
      as_buf := copy_at (copy_at (as_buf s) offWork [TypeClientHello]) offPubKey pk\<rparr>)"
    "nc_content (as_conn s\<lparr>c_in := r\<rparr>) = bs"
    using assms by (rule auth_hello_prefix)
  let ?b = "copy_at (copy_at (as_buf s) offWork [TypeClientHello]) offPubKey pk"
  let ?s = "s\<lparr>as_conn := as_conn s\<lparr>c_in := r\<rparr>, as_buf := ?b\<rparr>"
  have b: "length (as_buf s) = 444" "slice (as_buf s) 72 104 = sid" "length pk = 32"
    "length chal = 32"
    using assms by (simp_all add: auth_ready_def server_buf_def sizes)
  then have b': "length ?b = 444" "slice ?b 0 32 = pk" "slice ?b 72 104 = sid"
    by (simp_all add: sizes slice_copy_at)
  have c: "auth_challenge E ?s = (Ok (), ?s\<lparr>as_conn := as_conn ?s\<lparr>c_out := (c_out (as_conn s))\<lparr>wout :=
        wout (c_out (as_conn s)) @ [wire_ServerChallenge (challenge_of E chal sid)]\<rparr>\<rparr>,
        as_buf := challenge_buf ?b chal (PutUint64 (word_of_int (ae_stamp E)))\<rparr>)"
    using assms(1) b' by (subst auth_challenge_Ok [of E chal])
      (auto simp: auth_ready_def challenge_of_def AuthBufSize_eq)
  show thesis
    by (rule that [of ?s "snd (auth_challenge E ?s)"])
       (use assms(1) h b b' c challenge_buf_regions [OF b'(1) b(4), of "PutUint64 (word_of_int (ae_stamp E))"]
         in \<open>simp_all add: auth_ready_def AuthBufSize_eq nc_content_def\<close>)
qed

lemma auth_response_step:
  assumes "nc_content (as_conn s) = TypeClientResponse # sig @ rest" "length sig = SignatureSize"
    "\<not> c_closed (as_conn s)" "length (as_buf s) = AuthBufSize"
  obtains t where "auth_response s = (Ok (), t)"
    "length (as_buf t) = AuthBufSize" "\<not> c_closed (as_conn t)" "c_out (as_conn t) = c_out (as_conn s)"
    "c_tls (as_conn t) = c_tls (as_conn s)" "nc_content (as_conn t) = rest"
    "slice (as_buf t) 0 32 = slice (as_buf s) 0 32" "slice (as_buf t) 32 64 = slice (as_buf s) 32 64"
    "slice (as_buf t) 72 104 = slice (as_buf s) 72 104" "slice (as_buf t) 104 168 = sig"
    "c_dlplan (as_conn t) = c_dlplan (as_conn s)"
proof -
  obtain r where r: "auth_response s = (Ok (), s\<lparr>as_conn := as_conn s\<lparr>c_in := r\<rparr>,
      as_buf := copy_at (copy_at (as_buf s) offWork [TypeClientResponse]) offSignature sig\<rparr>)"
    "nc_content (as_conn s\<lparr>c_in := r\<rparr>) = rest"
    unfolding auth_response_def using assms
    by (elim recv_typed_Ok [where off = offSignature and n = SignatureSize]) (auto simp: sizes)
  show thesis
    by (rule that [of "snd (auth_response s)"])
       (use assms r in \<open>simp_all add: sizes slice_copy_at\<close>)
qed

lemma auth_body_Ok:
  assumes "auth_ready E chal sid cb s" "auth_accepts E ttl chal sid cb (nc_content (as_conn s)) pk sig rest"
  shows "\<exists>t. auth_body E ttl s = (Ok (), t) \<and> auth_done E chal sid pk rest s t"
proof -
  have c: "nc_content (as_conn s) = TypeClientHello # pk @ TypeClientResponse # sig @ rest"
    and l: "length pk = PublicKeySize" "length sig = SignatureSize"
    using assms(2) by (simp_all add: auth_accepts_def wire_ClientHello_def wire_ClientResponse_def)
  obtain t0 t1 where 0: "auth_hello s = (Ok (), t0)" and 1: "auth_challenge E t0 = (Ok (), t1)"
    "length (as_buf t1) = AuthBufSize" "\<not> c_closed (as_conn t1)" "healthy (c_out (as_conn t1))"
    "c_tls (as_conn t1) = c_tls (as_conn s)" "nc_content (as_conn t1) = TypeClientResponse # sig @ rest"
    "wout (c_out (as_conn t1)) = wout (c_out (as_conn s)) @ [wire_ServerChallenge (challenge_of E chal sid)]"
    "slice (as_buf t1) 0 32 = pk" "slice (as_buf t1) 32 64 = chal" "slice (as_buf t1) 72 104 = sid"
    "c_dlplan (as_conn t1) = c_dlplan (as_conn s)"
    using assms(1) c l(1) by (rule auth_challenge_step)
  obtain t2 where 2: "auth_response t1 = (Ok (), t2)"
    "length (as_buf t2) = AuthBufSize" "\<not> c_closed (as_conn t2)" "c_out (as_conn t2) = c_out (as_conn t1)"
    "c_tls (as_conn t2) = c_tls (as_conn t1)" "nc_content (as_conn t2) = rest"
    "slice (as_buf t2) 0 32 = slice (as_buf t1) 0 32" "slice (as_buf t2) 32 64 = slice (as_buf t1) 32 64"
    "slice (as_buf t2) 72 104 = slice (as_buf t1) 72 104" "slice (as_buf t2) 104 168 = sig"
    "c_dlplan (as_conn t2) = c_dlplan (as_conn t1)"
    using 1(6) l(2) 1(3,2) by (rule auth_response_step)
  obtain st where st: "c_tls (as_conn t2) = Some st" "GetChannelBinding st = Ok cb"
    using assms(1) 1(5) 2(5) by (auto simp: auth_ready_def)
  have cb: "length cb = ChannelBindingSize" using st(2) by (rule GetChannelBinding_length)
  define d where "d = signed_data chal (word_of_int (ae_stamp E)) sid pk cb"
  let ?t3 = "t2\<lparr>as_buf := copy_at (as_buf t2) 168 d\<rparr>"
  have sd: "length d = 148"
    unfolding d_def using l assms(1) cb 1(10,2)
    by (subst length_signed_data) (auto simp: auth_ready_def sizes)
  have 3: "auth_signature E cb t2 = (Ok (), ?t3)"
    using assms(2) 1(8-10) 2(7-10) auth_signature_eq [OF 2(2) cb, of E]
    by (simp add: auth_accepts_def Let_def d_def)
  have b3: "length (as_buf ?t3) = AuthBufSize" using 2(2) by (simp add: sizes)
  have 4: "auth_finish E ttl ?t3 = (Ok (), ?t3\<lparr>
      as_conn := as_conn ?t3\<lparr>c_out := (c_out (as_conn ?t3))\<lparr>wout := wout (c_out (as_conn ?t3)) @
        [wire_AuthResult accepted]\<rparr>\<rparr>,
      as_buf := copy_at (copy_at (as_buf ?t3) 316 [TypeAuthResult]) 317 [AuthStatusOK]\<rparr>)"
    unfolding accepted_def using assms(2) b3 1(4) 2(3,4)
    by (intro auth_finish_Ok) (simp_all add: auth_accepts_def)
  have "auth_body E ttl s = auth_finish E ttl ?t3"
    using 0 1(1) 2(1) 3 auth_binding_Ok [OF st] by (simp add: auth_body_def)
  with 4 show ?thesis
    using 1(7-11) 2(2-4,6-9,11) sd
    by (simp add: auth_done_def server_buf_def sizes slice_copy_at nc_content_def)
qed

lemma auth_body_OkD:
  assumes "auth_ready E chal sid cb s" "auth_body E ttl s = (Ok u, t)"
  obtains pk sig rest where "auth_accepts E ttl chal sid cb (nc_content (as_conn s)) pk sig rest"
proof -
  have "length (as_buf s) = AuthBufSize" using assms(1) by (simp add: auth_ready_def server_buf_def)
  moreover from assms(2) obtain s1 where "auth_hello s = (Ok (), s1)"
    by (auto simp: auth_body_def go_bind_eq_Ok [of auth_hello])
  ultimately obtain pk bs where pk: "nc_content (as_conn s) = TypeClientHello # pk @ bs" "length pk = PublicKeySize"
    unfolding auth_hello_def by (elim recv_typed_OkD) (simp_all add: sizes)
  obtain t0 t1 where 0: "auth_hello s = (Ok (), t0)" and 1: "auth_challenge E t0 = (Ok (), t1)"
    "length (as_buf t1) = AuthBufSize" "\<not> c_closed (as_conn t1)"
    "c_tls (as_conn t1) = c_tls (as_conn s)" "nc_content (as_conn t1) = bs"
    "slice (as_buf t1) 0 32 = pk" "slice (as_buf t1) 32 64 = chal" "slice (as_buf t1) 72 104 = sid"
    using auth_challenge_step [OF assms(1) pk] by metis
  have tail: "go_bind auth_response (\<lambda>_. go_bind auth_binding (\<lambda>cb. go_bind (auth_signature E cb)
      (\<lambda>_. auth_finish E ttl))) t1 = (Ok u, t)"
    using assms(2) 0 1(1) by (simp add: auth_body_def)
  then obtain t2' where "auth_response t1 = (Ok (), t2')"
    by (auto simp: go_bind_eq_Ok [of auth_response])
  with 1(2) obtain sig rest where sig: "bs = TypeClientResponse # sig @ rest" "length sig = SignatureSize"
    unfolding auth_response_def using 1(5) by (elim recv_typed_OkD) (auto simp: sizes)
  obtain t2 where 2: "auth_response t1 = (Ok (), t2)" "length (as_buf t2) = AuthBufSize"
    "c_tls (as_conn t2) = c_tls (as_conn t1)"
    "slice (as_buf t2) 0 32 = slice (as_buf t1) 0 32" "slice (as_buf t2) 32 64 = slice (as_buf t1) 32 64"
    "slice (as_buf t2) 72 104 = slice (as_buf t1) 72 104" "slice (as_buf t2) 104 168 = sig"
    using auth_response_step [OF _ sig(2) 1(3,2), of rest] 1(5) sig(1) by metis
  obtain st where st: "c_tls (as_conn t2) = Some st" "GetChannelBinding st = Ok cb"
    using assms(1) 1(4) 2(3) by (auto simp: auth_ready_def)
  with tail 2(1) obtain t3 where "auth_signature E cb t2 = (Ok (), t3)" "auth_finish E ttl t3 = (Ok u, t)"
    by (auto simp: auth_binding_Ok [OF st] go_bind_eq_Ok [of "auth_signature _ _"])
  then have "ae_verify E pk (signed_data chal (word_of_int (ae_stamp E)) sid pk cb) sig" "auth_fresh E ttl"
    using auth_signature_eq [OF 2(2) GetChannelBinding_length [OF st(2)], of E] 1(6-8) 2(4-7)
    by (auto simp: Let_def split: if_splits dest: auth_finish_OkD)
  with pk sig show thesis
    by (intro that [of pk sig rest])
       (simp add: auth_accepts_def wire_ClientHello_def wire_ClientResponse_def)
qed

lemma auth_deadline_set:
  "auth_ready E chal sid cb s \<Longrightarrow> c_dlplan (as_conn s) = [] \<Longrightarrow>
     onConn (nc_SetDeadline d) s = (Ok (), s\<lparr>as_conn := as_conn s\<lparr>c_deadline := d, c_wdeadline := d\<rparr>\<rparr>)"
  by (simp add: auth_ready_def onConn_def go_lift_def nc_SetDeadline_def)

lemma auth_ready_deadline [simp]:
  "auth_ready E chal sid cb (s\<lparr>as_conn := as_conn s\<lparr>c_deadline := d, c_wdeadline := d\<rparr>\<rparr>) = auth_ready E chal sid cb s"
  by (simp add: auth_ready_def)

lemma nc_content_deadline [simp]: "nc_content (c\<lparr>c_deadline := d, c_wdeadline := d\<rparr>) = nc_content c"
  by (simp add: nc_content_def)

lemma authenticate_Ok_done:
  assumes "auth_ready E chal sid cb s" "c_dlplan (as_conn s) = []"
    "auth_accepts E ttl chal sid cb (nc_content (as_conn s)) pk sig rest"
  shows "\<exists>t. authenticate E timeout ttl s = (Ok (), t) \<and> auth_done E chal sid pk rest s t"
proof -
  let ?s = "s\<lparr>as_conn := as_conn s\<lparr>c_deadline := Some (ae_start E + timeout), c_wdeadline := Some (ae_start E + timeout)\<rparr>\<rparr>"
  have "auth_ready E chal sid cb ?s" using assms(1) by simp
  from auth_body_Ok [OF this, of ttl pk sig rest] assms(3)
  obtain u where u: "auth_body E ttl ?s = (Ok (), u)" "auth_done E chal sid pk rest ?s u" by auto
  have "onConn (nc_SetDeadline None) u = (Ok (), u\<lparr>as_conn := as_conn u\<lparr>c_deadline := None, c_wdeadline := None\<rparr>\<rparr>)"
    using assms(2) u(2) by (simp add: auth_done_def onConn_def go_lift_def nc_SetDeadline_def)
  with u show ?thesis
    using auth_deadline_set [OF assms(1,2)] by (simp add: authenticate_def go_defer_def auth_done_def)
qed

lemma authenticate_ok_of_accepts:
  assumes "auth_ready E chal sid cb s" "c_dlplan (as_conn s) = []"
    "auth_accepts E ttl chal sid cb (nc_content (as_conn s)) pk sig rest"
  shows "\<exists>t. authenticate E timeout ttl s = (Ok (), t)"
  using authenticate_Ok_done [OF assms] by blast

section \<open>A handshake to evaluate the theorems on\<close>

definition ex_tls :: tls_state where
  "ex_tls = \<lparr>HandshakeComplete = True, ExportKeyingMaterial = (\<lambda>_ _ n. Ok (replicate n 5))\<rparr>"

definition ex_env :: auth_env where
  "ex_env = \<lparr>ae_rand = (\<lambda>n. Ok (replicate n 9)), ae_start = 0, ae_stamp = 1000, ae_check = 1003,
     ae_verify = (\<lambda>k m sig. sig = take 64 (k @ m))\<rparr>"

definition ex_sid :: bytes where
  "ex_sid = replicate 32 1"

definition ex_key :: bytes where
  "ex_key = replicate 32 3"

definition ex_sig :: bytes where
  "ex_sig = ex_key @ bytes_of_string ProtocolVersion @ replicate 20 9"

definition ex_st :: auth_st where
  "ex_st = \<lparr>as_conn = \<lparr>
       c_in = \<lparr>rchunks = [[1], ex_key, [3] @ ex_sig, [42]], rend = io_EOF\<rparr>,
       c_out = empty_writer, c_closed = False, c_deadline = None, c_wdeadline = None, c_dlplan = [],
       c_closeErr = None, c_tls = Some ex_tls\<rparr>,
     as_buf = copy_at (replicate AuthBufSize 0) offServerID ex_sid\<rparr>"

lemma ex_ready: "auth_ready ex_env (replicate 32 9) ex_sid (replicate 32 5) ex_st"
  by (simp add: auth_ready_def ex_st_def ex_env_def ex_sid_def ex_tls_def server_buf_def GetChannelBinding_def
      slice_def copy_at_def sizes)

lemma ex_accepts:
  "auth_accepts ex_env 60000000000 (replicate 32 9) ex_sid (replicate 32 5)
     (nc_content (as_conn ex_st)) ex_key ex_sig [42]"
  by (simp add: auth_accepts_def ex_st_def ex_env_def ex_key_def ex_sig_def nc_content_def auth_fresh_def
      duration_seconds_def wire_ClientHello_def wire_ClientResponse_def signed_data_def sizes)

section \<open>What the server sends in any case\<close>

abbreviation auth_sent :: "bytes \<Rightarrow> auth_st \<Rightarrow> bool" where
  "auth_sent B s \<equiv> prefix B (wbytes (c_out (as_conn s)))"

lemma auth_sent_stable [stable_intros]:
  "stable (auth_sent B) (readInto off n)" "stable (auth_sent B) (bufSlice lo hi)"
  "stable (auth_sent B) (bufCopy lo hi src)" "stable (auth_sent B) (ofRes r)"
  "stable (auth_sent B) (onConn (nc_Write b))" "stable (auth_sent B) (onConn (nc_SetDeadline d))"
  "stable (auth_sent B) auth_binding"
proof -
  have nc: "nc_ReadFull n c = (r, c') \<Longrightarrow> c_out c' = c_out c" for n c r c'
    by (auto simp: nc_ReadFull_def split: if_splits prod.splits)
  show "stable (auth_sent B) (readInto off n)"
    by (auto simp: stable_def readInto_def dest: nc split: prod.splits if_splits)
  show "stable (auth_sent B) (bufSlice lo hi)" "stable (auth_sent B) (bufCopy lo hi src)"
    by (auto simp: stable_def bufSlice_def bufCopy_def)
  show "stable (auth_sent B) (ofRes r)" by (auto simp: stable_def ofRes_def)
  show "stable (auth_sent B) auth_binding"
    by (auto simp: stable_def auth_binding_def wrapf_def ofRes_def split: option.splits res.splits)
  show "stable (auth_sent B) (onConn (nc_Write b))"
    by (auto simp: stable_def onConn_def go_lift_def dest: stableD [OF nc_Write_sent] split: prod.splits)
  show "stable (auth_sent B) (onConn (nc_SetDeadline d))"
    by (auto simp: stable_def onConn_def go_lift_def nc_SetDeadline_def
        split: prod.splits if_splits list.splits option.splits)
qed

text \<open>After a hello the challenge is sent, whatever the client answers.\<close>

lemma authenticate_sends_challenge:
  assumes "auth_ready E chal sid cb s" "c_dlplan (as_conn s) = []"
    and "nc_content (as_conn s) = wire_ClientHello \<lparr>PubKey = pk\<rparr> @ bs" "length pk = PublicKeySize"
  shows "prefix (wbytes (c_out (as_conn s)) @ wire_ServerChallenge (challenge_of E chal sid))
    (wbytes (c_out (as_conn (snd (authenticate E timeout ttl s)))))"
proof -
  let ?s = "s\<lparr>as_conn := as_conn s\<lparr>c_deadline := Some (ae_start E + timeout), c_wdeadline := Some (ae_start E + timeout)\<rparr>\<rparr>"
  let ?B = "wbytes (c_out (as_conn s)) @ wire_ServerChallenge (challenge_of E chal sid)"
  have r: "auth_ready E chal sid cb ?s" using assms(1) by simp
  have c: "nc_content (as_conn ?s) = TypeClientHello # pk @ bs"
    using assms(3) by (simp add: wire_ClientHello_def)
  obtain u t where ut: "auth_hello ?s = (Ok (), u)" "auth_challenge E u = (Ok (), t)"
    "wout (c_out (as_conn t)) = wout (c_out (as_conn ?s)) @ [wire_ServerChallenge (challenge_of E chal sid)]"
    using r c assms(4) by (rule auth_challenge_step)
  let ?rest = "go_bind auth_response (\<lambda>_. go_bind auth_binding (\<lambda>cb. go_bind (auth_signature E cb) (\<lambda>_. auth_finish E ttl)))"
  have "stable (auth_sent ?B) ?rest"
    unfolding auth_response_def recv_typed_def auth_signature_def auth_finish_def Let_def by (intro stable_intros)
  moreover have "auth_sent ?B t" using ut(3) by (simp add: wbytes_def)
  ultimately have "auth_sent ?B (snd (?rest t))" by (rule stable_snd)
  moreover have "auth_body E ttl ?s = ?rest t" using ut(1,2) by (simp add: auth_body_def)
  ultimately have "auth_sent ?B (snd (auth_body E ttl ?s))" by simp
  then have "auth_sent ?B (snd (go_defer (onConn (nc_SetDeadline None)) (auth_body E ttl) ?s))"
    using stable_snd [OF auth_sent_stable(6)] by simp
  then show ?thesis using auth_deadline_set [OF assms(1,2)] by (simp add: authenticate_def)
qed

section \<open>Properties\<close>

text \<open>C1: Authentication is sound and complete for the protocol's specification. Starting with an
  open TLS connection that accepts writes and a prepared buffer, \<open>authenticate\<close> returns success
  if and only if the client sent a hello with a 32-byte key followed by a response whose signature
  verifies under that key for the server's fresh challenge, its timestamp, its identifier and the
  channel binding of this very TLS connection, and the challenge is fresh by the clock.\<close>

theorem authenticate_iff:
  assumes "auth_ready E chal sid cb s" and "c_dlplan (as_conn s) = []"
  shows "fst (authenticate E timeout ttl s) = Ok ()
    \<longleftrightarrow> (\<exists>pk sig rest. auth_accepts E ttl chal sid cb (nc_content (as_conn s)) pk sig rest)"
proof -
  let ?s = "s\<lparr>as_conn := as_conn s\<lparr>c_deadline := Some (ae_start E + timeout), c_wdeadline := Some (ae_start E + timeout)\<rparr>\<rparr>"
  have r: "auth_ready E chal sid cb ?s" using assms(1) by simp
  have "fst (authenticate E timeout ttl s) = fst (auth_body E ttl ?s)"
    using auth_deadline_set [OF assms]
    by (simp add: authenticate_def go_defer_def split: prod.splits)
  also have "fst (auth_body E ttl ?s) = Ok ()
      \<longleftrightarrow> (\<exists>pk sig rest. auth_accepts E ttl chal sid cb (nc_content (as_conn ?s)) pk sig rest)"
    using auth_body_Ok [OF r] auth_body_OkD [OF r] by (metis fst_conv prod.collapse)
  finally show ?thesis by simp
qed

theorem authenticate_iff_witness:
  "fst (authenticate ex_env 10000000000 60000000000 ex_st) = Ok ()"
  using authenticate_iff [OF ex_ready, of 10000000000 60000000000] ex_accepts
  by (auto simp: ex_st_def)

text \<open>C19: After a successful handshake the buffer holds the key the client proved to own, the server
  has sent exactly two writes, the challenge message for this handshake and the positive result,
  it has consumed exactly the hello and the response from the connection, the server identifier
  is still in its place for the next connection, and no deadline is left on the connection.\<close>

theorem authenticate_result:
  assumes "auth_ready E chal sid cb s" and "c_dlplan (as_conn s) = []"
    and "authenticate E timeout ttl s = (Ok (), t)"
  shows "\<exists>pk sig rest. auth_accepts E ttl chal sid cb (nc_content (as_conn s)) pk sig rest
    \<and> auth_done E chal sid pk rest s t \<and> c_deadline (as_conn t) = None \<and> c_wdeadline (as_conn t) = None"
proof -
  let ?s = "s\<lparr>as_conn := as_conn s\<lparr>c_deadline := Some (ae_start E + timeout), c_wdeadline := Some (ae_start E + timeout)\<rparr>\<rparr>"
  have r: "auth_ready E chal sid cb ?s" using assms(1) by simp
  have a: "authenticate E timeout ttl s = go_defer (onConn (nc_SetDeadline None)) (auth_body E ttl) ?s"
    using auth_deadline_set [OF assms(1,2)] by (simp add: authenticate_def)
  with assms(3) obtain u where u: "auth_body E ttl ?s = (Ok (), u)" "t = snd (onConn (nc_SetDeadline None) u)"
    by (auto simp: go_defer_eq_Ok)
  from auth_body_OkD [OF r u(1)] obtain pk sig rest where
    acc: "auth_accepts E ttl chal sid cb (nc_content (as_conn ?s)) pk sig rest" .
  with auth_body_Ok [OF r] u(1) have d: "auth_done E chal sid pk rest ?s u" by fastforce
  with assms(2) u(2) have "t = u\<lparr>as_conn := as_conn u\<lparr>c_deadline := None, c_wdeadline := None\<rparr>\<rparr>"
    by (simp add: auth_done_def onConn_def go_lift_def nc_SetDeadline_def)
  with acc d show ?thesis by (auto simp: auth_done_def)
qed

theorem authenticate_result_witness:
  "\<exists>t pk. authenticate ex_env 10000000000 60000000000 ex_st = (Ok (), t)
     \<and> slice (as_buf t) offPubKey (offPubKey + PublicKeySize) = pk \<and> c_deadline (as_conn t) = None \<and> c_wdeadline (as_conn t) = None"
proof -
  have dl: "c_dlplan (as_conn ex_st) = []" by (simp add: ex_st_def)
  obtain t where t: "authenticate ex_env 10000000000 60000000000 ex_st = (Ok (), t)"
    using authenticate_ok_of_accepts [OF ex_ready dl ex_accepts] by blast
  from authenticate_result [OF ex_ready dl t] t show ?thesis by (auto simp: auth_done_def)
qed

text \<open>C20: Whatever the client sends and wherever the handshake breaks off (short reads, wrong
  types, failing writes, bad signature, stale challenge), \<open>authenticate\<close> does not index out of
  range and leaves the buffer at its size with the server identifier intact, so it can go back
  to the pool and serve the next connection.\<close>

theorem authenticate_buffer_safe:
  assumes "server_buf sid (as_buf s)"
    and "\<And>n p. ae_rand E n \<noteq> Panic p" and "exporter_total (c_tls (as_conn s))"
  shows "server_buf sid (as_buf (snd (authenticate E timeout ttl s)))
    \<and> (\<forall>p. fst (authenticate E timeout ttl s) \<noteq> Panic p)"
  using authenticate_safe [OF assms(2,3), of sid timeout ttl] assms(1)
  unfolding safe_def by blast

theorem authenticate_buffer_safe_witness:
  "server_buf ex_sid (as_buf (snd (authenticate ex_env 1 1 (ex_st\<lparr>as_conn := as_conn ex_st\<lparr>c_tls := None\<rparr>\<rparr>))))"
  using authenticate_buffer_safe [of ex_sid "ex_st\<lparr>as_conn := as_conn ex_st\<lparr>c_tls := None\<rparr>\<rparr>" ex_env 1 1] ex_ready
  by (simp add: ex_env_def exporter_total_def auth_ready_def)

text \<open>C34: The tolerance for clock differences has no effect. The code rejects timestamps more than
  60 seconds ahead of the clock and then compares the age as an unsigned difference; for a
  timestamp ahead of the clock by any amount the difference wraps around and exceeds every
  lifetime a \<open>time.Duration\<close> can hold, so the challenge counts as expired. A challenge is fresh
  exactly when its age is between zero and the lifetime.\<close>

theorem auth_fresh_iff:
  assumes "0 \<le> ae_stamp E" "ae_stamp E < 2 ^ 62" "0 \<le> ae_check E" "ae_check E < 2 ^ 62"
    and "0 \<le> ttl" "ttl < 2 ^ 63"
  shows "auth_fresh E ttl \<longleftrightarrow>
     ae_stamp E \<le> ae_check E \<and> ae_check E - ae_stamp E \<le> ttl div 1000000000"
proof -
  let ?a = "ae_stamp E" and ?b = "ae_check E" and ?d = "ttl div 1000000000"
  have d: "0 \<le> ?d" "?d < 2 ^ 62" using assms(5,6) by simp_all
  have u: "uint (word_of_int ?a :: uint64) = ?a" "uint (word_of_int ?b :: uint64) = ?b"
    "uint (word_of_int ?d :: uint64) = ?d"
    using assms(1-4) d by (simp_all add: uint_word_of_int take_bit_int_eq_self)
  have sum: "uint (word_of_int ?b + 60 :: uint64) = ?b + 60"
    using assms(3,4) u(2) by (simp add: uint_word_ariths)
  have diff: "uint (word_of_int ?b - word_of_int ?a :: uint64) = (?b - ?a) mod 2 ^ 64"
    using u(1,2) by (simp add: uint_word_ariths)
  have "(?b - ?a) mod 2 ^ 64 = (if ?a \<le> ?b then ?b - ?a else ?b - ?a + 2 ^ 64)"
    using assms(1-4) mod_add_self2 [of "?b - ?a" "2 ^ 64"] mod_pos_pos_trivial [of "?b - ?a + 2 ^ 64" "2 ^ 64"]
    by auto
  with d u sum diff assms(1-4) show ?thesis
    by (auto simp: auth_fresh_def duration_seconds_def word_le_def)
qed

theorem auth_fresh_iff_witness:
  "\<not> auth_fresh (ex_env\<lparr>ae_check := 999\<rparr>) 60000000000"
  using auth_fresh_iff [of "ex_env\<lparr>ae_check := 999\<rparr>" 60000000000]
  by (simp add: ex_env_def)

end
