(* ===== verification/Broker.thy ===== *)
theory Broker
  imports Go_IO
begin

text \<open>
  The NATS integration, package \<open>src/pkg/broker\<close>: the connection (\<open>broker.go\<close>), the publisher
  (\<open>publisher.go\<close>) and the subscriptions of clients (\<open>subscriber.go\<close>). The client library
  \<open>nats.go\<close> is not part of the program: its operations are the fields of the record
  \<open>nats_api\<close>, a parameter of every definition, over the type of its connections, of its
  subscriptions and of message handlers. The subject grammar and the matching rule of the NATS
  documentation are written down here to say what the choice of subjects achieves.
\<close>

section \<open>The interface of the NATS client library\<close>

record nats_opts =
  no_ReconnectWait :: int
  no_MaxReconnects :: int

record ('n, 's, 'h) nats_api =
  nats_DefaultURL :: string
  nats_Connect :: "string \<Rightarrow> nats_opts \<Rightarrow> 'n res"
  nats_Publish :: "string \<Rightarrow> bytes \<Rightarrow> ('n, unit) go"
  nats_Subscribe :: "string \<Rightarrow> 'h \<Rightarrow> ('n, 's) go"
  nats_Unsubscribe :: "'s \<Rightarrow> ('n, unit) go"
  nats_Drain :: "('n, unit) go"

section \<open>Connection (broker.go)\<close>

record BrokerConfig =
  bk_URLs :: "string list"
  bk_ReconnectWait :: int
  bk_MaxReconnects :: int

definition Broker_url :: "('n, 's, 'h) nats_api \<Rightarrow> BrokerConfig \<Rightarrow> string" where
  "Broker_url api cfg =
     (if 0 < length (bk_URLs cfg) then strings_Join (bk_URLs cfg) '','' else nats_DefaultURL api)"

definition Broker_New :: "('n, 's, 'h) nats_api \<Rightarrow> BrokerConfig \<Rightarrow> 'n res" where
  "Broker_New api cfg =
     (case nats_Connect api (Broker_url api cfg)
             \<lparr>no_ReconnectWait = bk_ReconnectWait cfg, no_MaxReconnects = bk_MaxReconnects cfg\<rparr> of
        Ok conn \<Rightarrow> Ok conn
      | Err e \<Rightarrow> Err (Wrapf ''connect to NATS'' e)
      | Panic p \<Rightarrow> Panic p)"

definition Broker_Close :: "('n, 's, 'h) nats_api \<Rightarrow> ('n, unit) go" where
  "Broker_Close api = nats_Drain api"

section \<open>Publisher and subscriber (publisher.go, subscriber.go)\<close>

definition subjectForClient :: "string \<Rightarrow> string" where
  "subjectForClient pubKeyHex = ''goro.msg.'' @ pubKeyHex"

definition Publisher_Publish :: "('n, 's, 'h) nats_api \<Rightarrow> string \<Rightarrow> bytes \<Rightarrow> ('n, unit) go" where
  "Publisher_Publish api toPubKeyHex data =
     (let subject = subjectForClient toPubKeyHex
      in wrapf (''publish to '' @ subject) (nats_Publish api subject data))"

definition NewSubscriber :: "('n, 's, 'h) nats_api \<Rightarrow> string \<Rightarrow> 'h \<Rightarrow> ('n, 's) go" where
  "NewSubscriber api pubKeyHex handler =
     (let subject = subjectForClient pubKeyHex
      in wrapf (''subscribe to '' @ subject) (nats_Subscribe api subject handler))"

definition Subscriber_Unsubscribe :: "('n, 's, 'h) nats_api \<Rightarrow> 's \<Rightarrow> ('n, unit) go" where
  "Subscriber_Unsubscribe api sub = nats_Unsubscribe api sub"

section \<open>Subjects as the NATS documentation describes them\<close>

text \<open>A subject is a list of tokens separated by dots.\<close>

fun subject_tokens :: "string \<Rightarrow> string list" where
  "subject_tokens [] = [[]]"
| "subject_tokens (c # cs) =
     (if c = CHR ''.'' then [] # subject_tokens cs
      else case subject_tokens cs of [] \<Rightarrow> [[c]] | t # ts \<Rightarrow> (c # t) # ts)"

text \<open>
  A subscription matches a subject token by token; \<open>*\<close> stands for any one token and \<open>>\<close>, as the
  last token, for one or more.
\<close>

fun tokens_match :: "string list \<Rightarrow> string list \<Rightarrow> bool" where
  "tokens_match [] [] = True"
| "tokens_match (p # ps) (t # ts) =
     (if p = ''>'' \<and> ps = [] then True
      else (p = ''*'' \<or> p = t) \<and> tokens_match ps ts)"
| "tokens_match _ _ = False"

definition subject_matches :: "string \<Rightarrow> string \<Rightarrow> bool" where
  "subject_matches pattern subject = tokens_match (subject_tokens pattern) (subject_tokens subject)"

lemma subject_tokens_plain: "CHR ''.'' \<notin> set s \<Longrightarrow> subject_tokens s = [s]"
  by (induction s) auto

lemma subject_tokens_ne [simp]: "subject_tokens s \<noteq> []"
  by (induction s) (auto split: list.splits)

lemma subject_tokens_append: "subject_tokens (s @ CHR ''.'' # t) = subject_tokens s @ subject_tokens t"
proof (induction s)
  case (Cons c s)
  then show ?case by (cases "subject_tokens s") auto
qed simp

lemma subjectForClient_tokens:
  assumes "CHR ''.'' \<notin> set k"
  shows "subject_tokens (subjectForClient k) = [''goro'', ''msg'', k]"
  using assms subject_tokens_append [of "''goro''" "''msg.'' @ k"] subject_tokens_append [of "''msg''" k]
  by (simp add: subjectForClient_def subject_tokens_plain)

lemma subjectForClient_inject [simp]: "subjectForClient k = subjectForClient k' \<longleftrightarrow> k = k'"
  by (simp add: subjectForClient_def)

text \<open>A key that is one plain token is matched by its own subscription only.\<close>

lemma subjectForClient_match:
  assumes "CHR ''.'' \<notin> set k" "CHR ''.'' \<notin> set k'" "k \<noteq> ''*''" "k \<noteq> ''>''"
  shows "subject_matches (subjectForClient k) (subjectForClient k') \<longleftrightarrow> k = k'"
  using assms by (simp add: subject_matches_def subjectForClient_tokens)

text \<open>A broker that records what is published, for examples.\<close>

definition ex_nats :: "((string \<times> bytes) list, unit, unit) nats_api" where
  "ex_nats = \<lparr>nats_DefaultURL = ''nats://127.0.0.1:4222'', nats_Connect = (\<lambda>url opts. Ok []),
     nats_Publish = (\<lambda>subj d n. (Ok (), n @ [(subj, d)])),
     nats_Subscribe = (\<lambda>subj h n. (Ok (), n)), nats_Unsubscribe = (\<lambda>u n. (Ok (), n)),
     nats_Drain = (\<lambda>n. (Ok (), n))\<rparr>"

end
