(* ===== verification/Router_Message.thy ===== *)
theory Router_Message
  imports Protocol Broker
begin

text \<open>
  Handling one message of an authenticated client, \<open>src/pkg/router/message.go\<close>, and the protobuf
  message it publishes, \<open>src/pkg/message/message.pb.go\<close>. The state is the client's connection,
  the pool of read buffers, the buffer taken from it, the pool of protobuf objects and the NATS
  connection. Serialisation (\<open>proto.Marshal\<close>), the NATS library and the clock are parameters.
\<close>

section \<open>The protobuf message\<close>

record Message =
  pm_From :: string
  pm_To :: string
  pm_Id :: string
  pm_Payload :: bytes
  pm_UnixDateTime :: int

definition new_Message :: Message where
  "new_Message = \<lparr>pm_From = '''', pm_To = '''', pm_Id = '''', pm_Payload = [], pm_UnixDateTime = 0\<rparr>"

definition Message_Reset :: "Message \<Rightarrow> Message" where
  "Message_Reset x = new_Message"

text \<open>The accessors return zero values on a nil message.\<close>

definition GetFrom :: "Message option \<Rightarrow> string" where
  "GetFrom x = (case x of Some m \<Rightarrow> pm_From m | None \<Rightarrow> '''')"

definition GetTo :: "Message option \<Rightarrow> string" where
  "GetTo x = (case x of Some m \<Rightarrow> pm_To m | None \<Rightarrow> '''')"

definition GetId :: "Message option \<Rightarrow> string" where
  "GetId x = (case x of Some m \<Rightarrow> pm_Id m | None \<Rightarrow> '''')"

definition GetPayload :: "Message option \<Rightarrow> bytes" where
  "GetPayload x = (case x of Some m \<Rightarrow> pm_Payload m | None \<Rightarrow> [])"

definition GetUnixDateTime :: "Message option \<Rightarrow> int" where
  "GetUnixDateTime x = (case x of Some m \<Rightarrow> pm_UnixDateTime m | None \<Rightarrow> 0)"

section \<open>Validation of the recipient\<close>

definition minMessageSize :: nat where
  "minMessageSize = PublicKeySize * 2 + 2"

definition errInvalidRecipient :: go_error where
  "errInvalidRecipient = ErrNew ''invalid recipient pubkey format''"

definition is_hex_char :: "char \<Rightarrow> bool" where
  "is_hex_char c \<longleftrightarrow> CHR ''0'' \<le> c \<and> c \<le> CHR ''9'' \<or> CHR ''a'' \<le> c \<and> c \<le> CHR ''f''
     \<or> CHR ''A'' \<le> c \<and> c \<le> CHR ''F''"

fun hex_scan :: "string \<Rightarrow> bool" where
  "hex_scan [] = True"
| "hex_scan (c # cs) = (if \<not> is_hex_char c then False else hex_scan cs)"

definition isValidHexPubKey :: "string \<Rightarrow> bool" where
  "isValidHexPubKey s = (if length s \<noteq> PublicKeySize * 2 then False else hex_scan s)"

section \<open>State\<close>

record 'n msg_st =
  ms_conn :: netconn
  ms_pool :: "bytes list"
  ms_buf :: bytes
  ms_messagePool :: "Message list"
  ms_nats :: 'n

text \<open>\<open>sync.Pool\<close>: a stored object, or a new one when there is none.\<close>

definition pool_Get :: "'a \<Rightarrow> 'a list \<Rightarrow> 'a \<times> 'a list" where
  "pool_Get new xs = (case xs of [] \<Rightarrow> (new, []) | y # ys \<Rightarrow> (y, ys))"

text \<open>\<open>io.ReadFull(peer.conn, buf[:n])\<close>\<close>

definition readBuf :: "nat \<Rightarrow> ('n msg_st, unit) go" where
  "readBuf n s =
     (if length (ms_buf s) < n then (Panic ''slice bounds out of range'', s)
      else case nc_ReadFull n (ms_conn s) of ((b, eo), c) \<Rightarrow>
        (case eo of None \<Rightarrow> Ok () | Some e \<Rightarrow> Err e,
         s\<lparr>ms_conn := c, ms_buf := copy_at (ms_buf s) 0 b\<rparr>))"

section \<open>handleMessage\<close>

text \<open>Steps 5 to 7: the protobuf object is filled, serialised, published and given back reset.\<close>

definition publishMessage ::
    "('n, 's, 'h) nats_api \<Rightarrow> (Message \<Rightarrow> bytes res) \<Rightarrow> int \<Rightarrow> string \<Rightarrow> string \<Rightarrow> string \<Rightarrow> bytes
     \<Rightarrow> ('n msg_st, unit) go" where
  "publishMessage api marshal now peerHex to msgID payload s =
     (let (msg, pool) = pool_Get new_Message (ms_messagePool s);
          msg = msg\<lparr>pm_From := peerHex, pm_To := to, pm_Id := msgID, pm_Payload := payload,
                     pm_UnixDateTime := now\<rparr>;
          s = s\<lparr>ms_messagePool := pool\<rparr>;
          (r, s) = (case marshal msg of
              Err e \<Rightarrow> (Err (Wrapf ''marshal message'' e), s)
            | Panic p \<Rightarrow> (Panic p, s)
            | Ok data \<Rightarrow>
                wrapf ''publish to NATS''
                  (go_lift ms_nats (\<lambda>n s. s\<lparr>ms_nats := n\<rparr>) (Publisher_Publish api to data)) s)
      in (r, s\<lparr>ms_messagePool := Message_Reset msg # ms_messagePool s\<rparr>))"

text \<open>Steps 1 and 2: the length header is checked and the body read over it into the same buffer.\<close>

definition recvFrame :: "int \<Rightarrow> ('n msg_st, nat) go" where
  "recvFrame maxMessageSize =
     go_bind (wrapf ''read length'' (readBuf 4)) (\<lambda>_.
     go_bind go_get (\<lambda>s.
     let totalLen = GetUint32 (take 4 (ms_buf s)) in
     go_bind (go_guard (totalLen \<le> word_of_int maxMessageSize)
                (Errorf ''message too large: %d bytes'' [uint totalLen])) (\<lambda>_.
     go_bind (go_guard (minMessageSize \<le> unat totalLen)
                (Errorf ''message too small: %d bytes, minimum %d'' [uint totalLen, int minMessageSize])) (\<lambda>_.
     go_bind (go_guard (unat totalLen \<le> length (ms_buf s))
                (Errorf ''message too large for buffer: %d'' [uint totalLen])) (\<lambda>_.
     go_bind (wrapf ''read message body'' (readBuf (unat totalLen))) (\<lambda>_.
     go_return (unat totalLen)))))))"

text \<open>Steps 3 and 4: the fields are cut out of the buffer.\<close>

definition parseFrame :: "nat \<Rightarrow> ('n msg_st, string \<times> string \<times> bytes) go" where
  "parseFrame totalLen =
     go_bind go_get (\<lambda>s.
     let buf = ms_buf s; to = string_of_bytes (take (PublicKeySize * 2) buf) in
     go_bind (go_guard (isValidHexPubKey to) errInvalidRecipient) (\<lambda>_.
     let msgIDLen = GetUint16 (slice buf (PublicKeySize * 2) (PublicKeySize * 2 + 2)) in
     go_bind (go_guard (unat msgIDLen \<le> MaxMsgIDLen) (Errorf ''msgID too long: %d'' [uint msgIDLen])) (\<lambda>_.
     let msgIDStart = PublicKeySize * 2 + 2; msgIDEnd = msgIDStart + unat msgIDLen in
     go_bind (go_guard (msgIDEnd \<le> totalLen)
                (Errorf ''invalid message structure: msgID exceeds total length'' [])) (\<lambda>_.
     go_return (to, string_of_bytes (slice buf msgIDStart msgIDEnd), slice buf msgIDEnd totalLen)))))"

definition handleBuf ::
    "('n, 's, 'h) nats_api \<Rightarrow> (Message \<Rightarrow> bytes res) \<Rightarrow> int \<Rightarrow> int \<Rightarrow> string \<Rightarrow> ('n msg_st, unit) go" where
  "handleBuf api marshal now maxMessageSize peerHex =
     go_bind (recvFrame maxMessageSize) (\<lambda>totalLen.
     go_bind (parseFrame totalLen) (\<lambda>(to, msgID, payload).
     publishMessage api marshal now peerHex to msgID payload))"

definition handleMessage ::
    "('n, 's, 'h) nats_api \<Rightarrow> (Message \<Rightarrow> bytes res) \<Rightarrow> int \<Rightarrow> nat \<Rightarrow> int \<Rightarrow> string \<Rightarrow> ('n msg_st, unit) go" where
  "handleMessage api marshal now poolSize maxMessageSize peerHex s =
     (let (buf, pool) = pool_Get (replicate poolSize 0) (ms_pool s);
          (r, s) = handleBuf api marshal now maxMessageSize peerHex (s\<lparr>ms_pool := pool, ms_buf := buf\<rparr>)
      in (r, s\<lparr>ms_pool := ms_buf s # ms_pool s\<rparr>))"

section \<open>What is published\<close>

text \<open>The messages the router accepts, and the protobuf message it makes of one.\<close>

definition admissible :: "nat \<Rightarrow> ClientMessage \<Rightarrow> bool" where
  "admissible lim m \<longleftrightarrow> isValidHexPubKey (cm_To m) \<and> length (cm_MsgID m) \<le> MaxMsgIDLen
     \<and> length (body_ClientMessage m) \<le> lim"

definition routed :: "int \<Rightarrow> string \<Rightarrow> ClientMessage \<Rightarrow> Message" where
  "routed now peerHex m = \<lparr>pm_From = peerHex, pm_To = cm_To m, pm_Id = cm_MsgID m,
     pm_Payload = cm_Payload m, pm_UnixDateTime = now\<rparr>"

text \<open>The pool of read buffers is sound when all of them have the configured size.\<close>

definition pool_ok :: "nat \<Rightarrow> 'n msg_st \<Rightarrow> bool" where
  "pool_ok n s \<longleftrightarrow> (\<forall>b \<in> set (ms_pool s). length b = n)"

lemma valid_hex_length: "isValidHexPubKey k \<Longrightarrow> length k = PublicKeySize * 2"
  by (simp add: isValidHexPubKey_def split: if_splits)

lemma hex_scan_iff: "hex_scan s \<longleftrightarrow> (\<forall>c \<in> set s. is_hex_char c)"
  by (induction s) auto

lemma minMessageSize_eq [sizes]: "minMessageSize = 66"
  by (simp add: minMessageSize_def sizes)

lemma fill_Message:
  "msg\<lparr>pm_From := peerHex, pm_To := cm_To m, pm_Id := cm_MsgID m, pm_Payload := cm_Payload m,
     pm_UnixDateTime := now\<rparr> = routed now peerHex m"
  by (cases msg) (simp add: routed_def)

lemma publishMessage_eq:
  "publishMessage api marshal now peerHex (cm_To m) (cm_MsgID m) (cm_Payload m) s =
     (case marshal (routed now peerHex m) of
        Err e \<Rightarrow> (Err (Wrapf ''marshal message'' e), s\<lparr>ms_messagePool := new_Message # tl (ms_messagePool s)\<rparr>)
      | Panic p \<Rightarrow> (Panic p, s\<lparr>ms_messagePool := new_Message # tl (ms_messagePool s)\<rparr>)
      | Ok data \<Rightarrow>
          (case Publisher_Publish api (cm_To m) data (ms_nats s) of (r, n) \<Rightarrow>
             (case r of Ok x \<Rightarrow> Ok x | Err e \<Rightarrow> Err (Wrapf ''publish to NATS'' e) | Panic p \<Rightarrow> Panic p,
              s\<lparr>ms_nats := n, ms_messagePool := new_Message # tl (ms_messagePool s)\<rparr>)))"
  by (cases "ms_messagePool s")
     (auto simp: publishMessage_def pool_Get_def Message_Reset_def fill_Message go_lift_def wrapf_def
        Let_def split: res.splits prod.splits)

lemma readBuf_Ok:
  assumes "n \<le> length (nc_content (ms_conn s))" "\<not> c_closed (ms_conn s)" "n \<le> length (ms_buf s)"
  obtains r where "readBuf n s = (Ok (), s\<lparr>ms_conn := ms_conn s\<lparr>c_in := r\<rparr>,
      ms_buf := copy_at (ms_buf s) 0 (take n (nc_content (ms_conn s)))\<rparr>)"
    "nc_content (ms_conn s\<lparr>c_in := r\<rparr>) = drop n (nc_content (ms_conn s))"
proof -
  obtain r where "nc_ReadFull n (ms_conn s) = ((take n (nc_content (ms_conn s)), None), ms_conn s\<lparr>c_in := r\<rparr>)"
    "nc_content (ms_conn s\<lparr>c_in := r\<rparr>) = drop n (nc_content (ms_conn s))"
    using assms(1,2) by (rule nc_ReadFull_Ok)
  with assms(3) show thesis by (intro that [of r]) (simp_all add: readBuf_def)
qed

lemma readBuf_OkD:
  assumes "readBuf n s = (Ok u, t)" "0 < n"
  shows "\<not> c_closed (ms_conn s) \<and> n \<le> length (nc_content (ms_conn s)) \<and> n \<le> length (ms_buf s)"
proof -
  obtain b eo c where r: "nc_ReadFull n (ms_conn s) = ((b, eo), c)" by (metis surj_pair)
  with assms have "eo = None" "n \<le> length (ms_buf s)"
    by (auto simp: readBuf_def split: if_splits option.splits)
  with r assms(2) nc_ReadFull_Some [of n "ms_conn s" b c] show ?thesis by simp
qed

lemma copy_at_0_take: "length src \<le> length b \<Longrightarrow> n \<le> length src \<Longrightarrow> take n (copy_at b 0 src) = take n src"
  by (simp add: copy_at_def)

lemma slice_copy_at_0:
  "length src \<le> length b \<Longrightarrow> hi \<le> length src \<Longrightarrow> slice (copy_at b 0 src) lo hi = slice src lo hi"
  by (auto simp: slice_def copy_at_def)

text \<open>The fields, read from the buffer at their offsets, are those of the parsed body.\<close>

lemma buffer_fields:
  assumes "length d \<le> length b" "66 \<le> length d" "k = unat (GetUint16 (take 2 (drop 64 d)))"
  shows "string_of_bytes (take 64 (copy_at b 0 d)) = cm_To (parse_body d)"
    "unat (GetUint16 (slice (copy_at b 0 d) 64 66)) = k"
    "66 + k \<le> length d \<Longrightarrow> string_of_bytes (slice (copy_at b 0 d) 66 (66 + k)) = cm_MsgID (parse_body d)"
    "66 + k \<le> length d \<Longrightarrow> slice (copy_at b 0 d) (66 + k) (length d) = cm_Payload (parse_body d)"
  using assms
  by (simp_all add: copy_at_0_take slice_copy_at_0 parse_body_def Let_def PublicKeySize_def)
     (simp_all add: slice_def add.commute)

lemma header_fits:
  assumes "n \<le> N" "N < 2 ^ 32"
  shows "unat (of_nat n :: uint32) = n" "(of_nat n :: uint32) \<le> word_of_int (int N)"
proof -
  show n: "unat (of_nat n :: uint32) = n" using assms by (simp add: unat_of_nat)
  have "unat (of_nat N :: uint32) = N" using assms by (simp add: unat_of_nat)
  with n assms show "(of_nat n :: uint32) \<le> word_of_int (int N)" by (simp add: word_le_nat_alt)
qed

lemma readBuf_frame:
  "readBuf n s = (r, t) \<Longrightarrow> ms_pool t = ms_pool s \<and> ms_messagePool t = ms_messagePool s
     \<and> ms_nats t = ms_nats s \<and> length (ms_buf t) = length (ms_buf s)"
  by (auto simp: readBuf_def split: if_splits prod.splits)

text \<open>What it takes to receive a frame, and what is then in the buffer.\<close>

lemma recvFrame_Ok:
  assumes c: "nc_content (ms_conn s) = PutUint32 (of_nat (length d)) @ d @ rest" "\<not> c_closed (ms_conn s)"
    and b: "length (ms_buf s) = N" "4 \<le> N" "N < 2 ^ 32" and d: "66 \<le> length d" "length d \<le> N"
  obtains t where "recvFrame (int N) s = (Ok (length d), t)" "nc_content (ms_conn t) = rest"
    "take (length d) (ms_buf t) = d"
proof -
  let ?h = "PutUint32 (of_nat (length d))"
  obtain r1 where 1: "readBuf 4 s = (Ok (), s\<lparr>ms_conn := ms_conn s\<lparr>c_in := r1\<rparr>,
      ms_buf := copy_at (ms_buf s) 0 ?h\<rparr>)" "nc_content (ms_conn s\<lparr>c_in := r1\<rparr>) = d @ rest"
    using c b readBuf_Ok [of 4 s] by auto
  let ?b = "copy_at (ms_buf s) 0 ?h"
  let ?s1 = "s\<lparr>ms_conn := ms_conn s\<lparr>c_in := r1\<rparr>, ms_buf := ?b\<rparr>"
  obtain r2 where 2: "readBuf (length d) ?s1 = (Ok (), ?s1\<lparr>ms_conn := ms_conn ?s1\<lparr>c_in := r2\<rparr>,
      ms_buf := copy_at ?b 0 d\<rparr>)" "nc_content (ms_conn ?s1\<lparr>c_in := r2\<rparr>) = rest"
    using c(2) b d 1(2) readBuf_Ok [of "length d" ?s1] by auto
  have h: "GetUint32 (take 4 ?b) = of_nat (length d)"
    using b by (simp add: copy_at_0_take)
  let ?t = "?s1\<lparr>ms_conn := ms_conn ?s1\<lparr>c_in := r2\<rparr>, ms_buf := copy_at ?b 0 d\<rparr>"
  have "recvFrame (int N) s = (Ok (length d), ?t)"
    unfolding recvFrame_def using 1(1) 2(1) b d header_fits [OF d(2) b(3)]
    by (simp add: h Let_def minMessageSize_eq)
  moreover have "nc_content (ms_conn ?t) = rest" using 2(2) by simp
  moreover have "take (length d) (ms_buf ?t) = d" using b d by (simp add: copy_at_0_take)
  ultimately show thesis by (rule that)
qed

lemma readBuf_OkE:
  assumes "readBuf n s = (Ok u, t)" "0 < n"
  shows "\<not> c_closed (ms_conn s) \<and> n \<le> length (nc_content (ms_conn s)) \<and> n \<le> length (ms_buf s)
    \<and> c_closed (ms_conn t) = c_closed (ms_conn s)
    \<and> ms_buf t = copy_at (ms_buf s) 0 (take n (nc_content (ms_conn s)))
    \<and> nc_content (ms_conn t) = drop n (nc_content (ms_conn s))"
proof -
  note 1 = readBuf_OkD [OF assms]
  then obtain r where "readBuf n s = (Ok (), s\<lparr>ms_conn := ms_conn s\<lparr>c_in := r\<rparr>,
      ms_buf := copy_at (ms_buf s) 0 (take n (nc_content (ms_conn s)))\<rparr>)"
    "nc_content (ms_conn s\<lparr>c_in := r\<rparr>) = drop n (nc_content (ms_conn s))"
    using readBuf_Ok [of n s] by blast
  with assms(1) 1 show ?thesis by auto
qed

lemma recvFrame_OkD:
  assumes "recvFrame lim s = (Ok n, t)"
  obtains d rest where "nc_content (ms_conn s) = PutUint32 (of_nat (length d)) @ d @ rest"
    "n = length d" "\<not> c_closed (ms_conn s)" "66 \<le> length d" "length d \<le> length (ms_buf s)"
    "take (length d) (ms_buf t) = d" "nc_content (ms_conn t) = rest"
    "(of_nat (length d) :: uint32) \<le> word_of_int lim" "length d < 2 ^ 32"
proof -
  from assms obtain s1 where r1: "readBuf 4 s = (Ok (), s1)"
    and n: "n = unat (GetUint32 (take 4 (ms_buf s1)))" "66 \<le> n" "n \<le> length (ms_buf s1)"
      "GetUint32 (take 4 (ms_buf s1)) \<le> word_of_int lim"
    and r2: "readBuf n s1 = (Ok (), t)"
    by (auto simp: recvFrame_def go_eq_Ok go_get_def go_return_def Let_def minMessageSize_eq
        split: if_splits)
  let ?c = "nc_content (ms_conn s)"
  let ?d = "take n (drop 4 ?c)"
  note f1 = readBuf_OkE [OF r1] readBuf_frame [OF r1]
  from n have "0 < n" by simp
  from readBuf_OkE [OF r2 this] f1 have f2: "n \<le> length (drop 4 ?c)"
    "ms_buf t = copy_at (ms_buf s1) 0 ?d" "nc_content (ms_conn t) = drop n (drop 4 ?c)"
    by auto
  have h: "GetUint32 (take 4 (ms_buf s1)) = GetUint32 (take 4 ?c)"
    using f1 by (simp add: copy_at_0_take)
  from f2 have ld: "length ?d = n" by simp
  have w: "of_nat n = GetUint32 (take 4 ?c)" using n(1) h by simp
  have "PutUint32 (of_nat (length ?d)) = take 4 ?c"
    unfolding ld w using f1 by (intro PutUint32_Get) simp
  then have "?c = PutUint32 (of_nat (length ?d)) @ ?d @ drop n (drop 4 ?c)"
    by (simp only: append_take_drop_id)
  moreover have "take (length ?d) (ms_buf t) = ?d"
    using f2 n(3) ld by (simp add: copy_at_0_take)
  moreover have "n < 2 ^ 32" using n(1) unsigned_less [of "GetUint32 (take 4 (ms_buf s1))"] by simp
  ultimately show thesis
    using f1 f2 n ld w h by (intro that [of ?d]) simp_all
qed

lemma parseFrame_eq:
  assumes "take n (ms_buf s) = d" "length d = n" "66 \<le> n" "n \<le> length (ms_buf s)"
  shows "parseFrame n s =
    (let m = parse_body d; k = GetUint16 (take 2 (drop 64 d))
     in if \<not> isValidHexPubKey (cm_To m) then (Err errInvalidRecipient, s)
        else if MaxMsgIDLen < unat k then (Err (Errorf ''msgID too long: %d'' [uint k]), s)
        else if n < 66 + unat k
          then (Err (Errorf ''invalid message structure: msgID exceeds total length'' []), s)
        else (Ok (cm_To m, cm_MsgID m, cm_Payload m), s))"
proof -
  have b: "ms_buf s = copy_at (ms_buf s) 0 d"
    using assms(2,4) append_take_drop_id [of n "ms_buf s"] unfolding assms(1) by (simp add: copy_at_def)
  note f = buffer_fields [of d "ms_buf s", OF _ _ refl, folded b]
  let ?k = "GetUint16 (take 2 (drop 64 d))"
  have k: "GetUint16 (slice (ms_buf s) 64 66) = ?k"
    using f(2) assms by (intro unsigned_word_eqI) simp
  show ?thesis
    using f assms k by (simp add: parseFrame_def go_get_def go_bind_def go_return_def Let_def
      PublicKeySize_def not_le not_less)
qed

text \<open>Receiving and parsing leave the pools and the broker alone.\<close>

definition msg_rest :: "'n msg_st \<Rightarrow> bytes list \<times> Message list \<times> 'n \<times> nat" where
  "msg_rest s = (ms_pool s, ms_messagePool s, ms_nats s, length (ms_buf s))"

lemma readBuf_keeps [keeps_intros]: "keeps msg_rest (readBuf n)"
  by (rule keepsI) (auto simp: msg_rest_def dest!: readBuf_frame)

lemma recvFrame_keeps [keeps_intros]: "keeps msg_rest (recvFrame lim)"
  unfolding recvFrame_def Let_def by (intro keeps_intros)

lemma recvFrame_frame:
  "recvFrame lim s = (r, t) \<Longrightarrow> ms_pool t = ms_pool s \<and> ms_messagePool t = ms_messagePool s
     \<and> ms_nats t = ms_nats s \<and> length (ms_buf t) = length (ms_buf s)"
  using keepsD [OF recvFrame_keeps] by (auto simp: msg_rest_def)

lemma parseFrame_state: "parseFrame n s = (r, t) \<Longrightarrow> t = s"
proof -
  have "keeps (\<lambda>s. s) (parseFrame n)"
    unfolding parseFrame_def Let_def by (intro keeps_intros)
  then show "parseFrame n s = (r, t) \<Longrightarrow> t = s" by (rule keepsD)
qed

lemma parseFrame_OkD:
  assumes "parseFrame n s = (Ok (to, i, p), t)"
    and d: "take n (ms_buf s) = d" "length d = n" "66 \<le> n" "n \<le> length (ms_buf s)"
  obtains m where "d = body_ClientMessage m" "isValidHexPubKey (cm_To m)"
    "length (cm_MsgID m) \<le> MaxMsgIDLen" "to = cm_To m" "i = cm_MsgID m" "p = cm_Payload m"
proof -
  let ?k = "GetUint16 (take 2 (drop 64 d))"
  from assms(1) have *: "isValidHexPubKey (cm_To (parse_body d))" "unat ?k \<le> MaxMsgIDLen" "66 + unat ?k \<le> n"
    "to = cm_To (parse_body d)" "i = cm_MsgID (parse_body d)" "p = cm_Payload (parse_body d)"
    unfolding parseFrame_eq [OF d] by (auto simp: Let_def split: if_splits)
  then have "body_ok d" using d by (simp add: body_ok_def PublicKeySize_def)
  from body_parse [OF this] * d show thesis
    by (intro that [of "parse_body d"]) (simp_all add: parse_body_def Let_def PublicKeySize_def)
qed

lemma parseFrame_body:
  assumes "admissible N m" and d: "take n (ms_buf s) = body_ClientMessage m"
    "length (body_ClientMessage m) = n" "n \<le> length (ms_buf s)"
  shows "parseFrame n s = (Ok (cm_To m, cm_MsgID m, cm_Payload m), s)"
proof -
  have m: "length (cm_To m) = 64" "length (cm_MsgID m) < 2 ^ 16" "length (cm_MsgID m) \<le> MaxMsgIDLen"
    using assms(1) valid_hex_length [of "cm_To m"] by (simp_all add: admissible_def sizes)
  then have "66 + length (cm_MsgID m) \<le> n" using d(2) by (simp add: body_ClientMessage_def)
  moreover have "unat (GetUint16 (take 2 (drop 64 (body_ClientMessage m)))) = length (cm_MsgID m)"
    using m by (simp add: body_ClientMessage_def unat_of_nat)
  ultimately show ?thesis
    using assms m parse_body_wire [of m] unfolding parseFrame_eq [OF d(1,2) _ d(3)]
    by (simp add: parseFrame_eq [OF d(1,2) _ d(3)] admissible_def PublicKeySize_def)
qed

section \<open>The effect of one call\<close>

text \<open>
  \<open>publishes api marshal now peerHex m n n'\<close>: the message \<open>m\<close>, stamped with its sender and the
  time, is serialised and accepted by the broker, whose state goes from \<open>n\<close> to \<open>n'\<close>.
\<close>

definition publishes ::
    "('n, 's, 'h) nats_api \<Rightarrow> (Message \<Rightarrow> bytes res) \<Rightarrow> int \<Rightarrow> string \<Rightarrow> ClientMessage \<Rightarrow> 'n \<Rightarrow> 'n \<Rightarrow> bool" where
  "publishes api marshal now peerHex m n n' \<longleftrightarrow>
     (case marshal (routed now peerHex m) of
        Ok data \<Rightarrow> nats_Publish api (subjectForClient (cm_To m)) data n = (Ok (), n')
      | _ \<Rightarrow> False)"

lemma publishMessage_Ok_iff:
  "publishMessage api marshal now peerHex (cm_To m) (cm_MsgID m) (cm_Payload m) s = (Ok u, t) \<longleftrightarrow>
     publishes api marshal now peerHex m (ms_nats s) (ms_nats t)
       \<and> t = s\<lparr>ms_nats := ms_nats t, ms_messagePool := new_Message # tl (ms_messagePool s)\<rparr>"
  by (auto simp: publishMessage_eq publishes_def Publisher_Publish_def wrapf_def Let_def
      split: res.splits prod.splits)

lemma body_length: "isValidHexPubKey (cm_To m) \<Longrightarrow> 66 \<le> length (body_ClientMessage m)"
  using valid_hex_length [of "cm_To m"] by (simp add: body_ClientMessage_def sizes)

lemma handleBuf_Ok:
  assumes "nc_content (ms_conn s) = wire_ClientMessage m @ rest" "\<not> c_closed (ms_conn s)"
    and b: "length (ms_buf s) = N" "4 \<le> N" "N < 2 ^ 32" and m: "admissible N m"
    and p: "publishes api marshal now peerHex m (ms_nats s) n'"
  obtains t where "handleBuf api marshal now (int N) peerHex s = (Ok (), t)"
    "ms_nats t = n'" "nc_content (ms_conn t) = rest"
proof -
  let ?d = "body_ClientMessage m"
  have c: "nc_content (ms_conn s) = PutUint32 (of_nat (length ?d)) @ ?d @ rest"
    using assms(1) by (simp add: wire_ClientMessage_def)
  from m have d: "66 \<le> length ?d" "length ?d \<le> N" by (simp_all add: admissible_def body_length)
  obtain s1 where 1: "recvFrame (int N) s = (Ok (length ?d), s1)" "nc_content (ms_conn s1) = rest"
    "take (length ?d) (ms_buf s1) = ?d"
    using recvFrame_Ok [OF c assms(2) b d] by blast
  note f = recvFrame_frame [OF 1(1)]
  have 2: "parseFrame (length ?d) s1 = (Ok (cm_To m, cm_MsgID m, cm_Payload m), s1)"
    using parseFrame_body [OF m 1(3) refl] f b d by simp
  let ?t = "s1\<lparr>ms_nats := n', ms_messagePool := new_Message # tl (ms_messagePool s1)\<rparr>"
  have "publishMessage api marshal now peerHex (cm_To m) (cm_MsgID m) (cm_Payload m) s1 = (Ok (), ?t)"
    using p f by (simp add: publishMessage_Ok_iff)
  with 1 2 have "handleBuf api marshal now (int N) peerHex s = (Ok (), ?t)"
    by (simp add: handleBuf_def)
  with 1(2) show thesis by (intro that [of ?t]) simp_all
qed

lemma header_fits_conv:
  assumes "(of_nat n :: uint32) \<le> word_of_int (int N)" "n < 2 ^ 32" "N < 2 ^ 32"
  shows "n \<le> N"
proof -
  have "unat (of_nat n :: uint32) \<le> unat (of_nat N :: uint32)"
    using assms(1) by (simp add: word_le_nat_alt)
  with assms(2,3) show ?thesis by (simp add: unat_of_nat)
qed

lemma handleBuf_OkD:
  assumes "handleBuf api marshal now (int N) peerHex s = (Ok u, t)" "N < 2 ^ 32"
  obtains m where "admissible N m" "nc_content (ms_conn s) = wire_ClientMessage m @ nc_content (ms_conn t)"
    "\<not> c_closed (ms_conn s)" "publishes api marshal now peerHex m (ms_nats s) (ms_nats t)"
proof -
  from assms(1) obtain n s1 to i p s2 where 1: "recvFrame (int N) s = (Ok n, s1)"
    and 2: "parseFrame n s1 = (Ok (to, i, p), s2)"
    and 3: "publishMessage api marshal now peerHex to i p s2 = (Ok u, t)"
    by (auto simp: handleBuf_def go_bind_eq_Ok)
  note f = recvFrame_frame [OF 1] and s2 = parseFrame_state [OF 2]
  obtain d rest where d: "nc_content (ms_conn s) = PutUint32 (of_nat (length d)) @ d @ rest"
    "n = length d" "\<not> c_closed (ms_conn s)" "66 \<le> length d" "length d \<le> length (ms_buf s)"
    "take (length d) (ms_buf s1) = d" "nc_content (ms_conn s1) = rest"
    "(of_nat (length d) :: uint32) \<le> word_of_int (int N)" "length d < 2 ^ 32"
    using recvFrame_OkD [OF 1] by blast
  from d f have n: "take n (ms_buf s1) = d" "length d = n" "66 \<le> n" "n \<le> length (ms_buf s1)"
    by auto
  obtain m where m: "d = body_ClientMessage m" "isValidHexPubKey (cm_To m)"
    "length (cm_MsgID m) \<le> MaxMsgIDLen" "to = cm_To m" "i = cm_MsgID m" "p = cm_Payload m"
    using parseFrame_OkD [OF 2 n] by blast
  note q = 3 [unfolded m(4-6) publishMessage_Ok_iff]
  from q have "ms_conn t = ms_conn s2" by (metis msg_st.select_convs(1) msg_st.surjective msg_st.update_convs(4,5))
  with d s2 m(1) have c: "nc_content (ms_conn s) = wire_ClientMessage m @ nc_content (ms_conn t)"
    by (simp add: wire_ClientMessage_def)
  have "admissible N m"
    using m d(8,9) assms(2) by (auto simp: admissible_def intro: header_fits_conv)
  then show thesis using c d(3) q f s2 by (intro that [of m]) simp_all
qed

text \<open>The same with the buffer taken from the pool and given back.\<close>

lemma handleMessage_eq:
  assumes "pool_ok N s"
  obtains b pool where "length b = N" "\<forall>x \<in> set pool. length x = N"
    "handleMessage api marshal now N lim peerHex s =
       (case handleBuf api marshal now lim peerHex (s\<lparr>ms_pool := pool, ms_buf := b\<rparr>) of
          (r, t) \<Rightarrow> (r, t\<lparr>ms_pool := ms_buf t # ms_pool t\<rparr>))"
proof (cases "ms_pool s")
  case Nil
  then show thesis
    by (intro that [of "replicate N 0" "[]"]) (simp_all add: handleMessage_def pool_Get_def)
next
  case (Cons b pool)
  then show thesis using assms
    by (intro that [of b pool]) (simp_all add: handleMessage_def pool_Get_def pool_ok_def)
qed

lemma handleMessage_Ok:
  assumes "pool_ok N s" "4 \<le> N" "N < 2 ^ 32"
    and m: "nc_content (ms_conn s) = wire_ClientMessage m @ rest" "\<not> c_closed (ms_conn s)"
      "admissible N m" "publishes api marshal now peerHex m (ms_nats s) n'"
  shows "\<exists>t. handleMessage api marshal now N (int N) peerHex s = (Ok (), t)
            \<and> ms_nats t = n' \<and> nc_content (ms_conn t) = rest"
proof -
  obtain b pool where b: "length b = N" "\<forall>x \<in> set pool. length x = N"
    and e: "handleMessage api marshal now N (int N) peerHex s =
       (case handleBuf api marshal now (int N) peerHex (s\<lparr>ms_pool := pool, ms_buf := b\<rparr>) of
          (r, t) \<Rightarrow> (r, t\<lparr>ms_pool := ms_buf t # ms_pool t\<rparr>))"
    by (rule handleMessage_eq [OF assms(1)])
  obtain t where "handleBuf api marshal now (int N) peerHex (s\<lparr>ms_pool := pool, ms_buf := b\<rparr>) = (Ok (), t)"
      "ms_nats t = n'" "nc_content (ms_conn t) = rest"
    using handleBuf_Ok [of "s\<lparr>ms_pool := pool, ms_buf := b\<rparr>" m rest N api marshal now peerHex n'] assms b
    by auto
  then show ?thesis unfolding e by auto
qed

text \<open>What a call that does not publish does to the broker: nothing.\<close>

lemma publishMessage_nats:
  assumes "publishMessage api marshal now peerHex (cm_To m) (cm_MsgID m) (cm_Payload m) s = (r, t)"
  shows "ms_pool t = ms_pool s \<and> ms_buf t = ms_buf s \<and> (ms_nats t = ms_nats s
    \<or> (\<exists>data. marshal (routed now peerHex m) = Ok data
         \<and> ms_nats t = snd (nats_Publish api (subjectForClient (cm_To m)) data (ms_nats s))))"
  using assms by (auto simp: publishMessage_eq Publisher_Publish_def wrapf_def Let_def
      split: res.splits prod.splits)

lemma handleBuf_nats:
  assumes "handleBuf api marshal now (int N) peerHex s = (r, t)" "N < 2 ^ 32" "ms_nats t \<noteq> ms_nats s"
  obtains m data where "admissible N m" "marshal (routed now peerHex m) = Ok data"
    "ms_nats t = snd (nats_Publish api (subjectForClient (cm_To m)) data (ms_nats s))"
    "\<exists>rest. nc_content (ms_conn s) = wire_ClientMessage m @ rest"
proof -
  obtain r1 s1 where 1: "recvFrame (int N) s = (r1, s1)" by (cases "recvFrame (int N) s")
  note f = recvFrame_frame [OF 1]
  from assms 1 f obtain n where r1: "r1 = Ok n" by (cases r1) (auto simp: handleBuf_def)
  note 1 = 1 [unfolded r1]
  obtain r2 s2 where 2: "parseFrame n s1 = (r2, s2)" by (cases "parseFrame n s1")
  note s2 = parseFrame_state [OF 2]
  from assms 1 2 f s2 obtain to i p where r2: "r2 = Ok (to, i, p)"
    by (cases r2) (auto simp: handleBuf_def)
  obtain d rest where d: "nc_content (ms_conn s) = PutUint32 (of_nat (length d)) @ d @ rest"
    "n = length d" "66 \<le> length d" "length d \<le> length (ms_buf s)"
    "take (length d) (ms_buf s1) = d"
    "(of_nat (length d) :: uint32) \<le> word_of_int (int N)" "length d < 2 ^ 32"
    using recvFrame_OkD [OF 1] by blast
  then have n: "take n (ms_buf s1) = d" "length d = n" "66 \<le> n" "n \<le> length (ms_buf s1)"
    using f by auto
  obtain m where m: "d = body_ClientMessage m" "isValidHexPubKey (cm_To m)"
    "length (cm_MsgID m) \<le> MaxMsgIDLen" "to = cm_To m" "i = cm_MsgID m" "p = cm_Payload m"
    using parseFrame_OkD [OF 2 [unfolded r2] n] by blast
  have "publishMessage api marshal now peerHex (cm_To m) (cm_MsgID m) (cm_Payload m) s1 = (r, t)"
    using assms(1) 1 2 r2 s2 m by (simp add: handleBuf_def)
  note q = publishMessage_nats [OF this]
  have "admissible N m"
    using m d assms(2) by (auto simp: admissible_def intro: header_fits_conv)
  with q assms(3) f m d(1) show thesis
    by (auto simp: wire_ClientMessage_def intro: that)
qed

section \<open>Panics\<close>

definition no_panic :: "('s, 'a) go \<Rightarrow> bool" where
  "no_panic m \<longleftrightarrow> (\<forall>s p. fst (m s) \<noteq> Panic p)"

definition buf_inv :: "nat \<Rightarrow> bytes list \<Rightarrow> 'n msg_st \<Rightarrow> bool" where
  "buf_inv N pool s \<longleftrightarrow> length (ms_buf s) = N \<and> ms_pool s = pool"

lemma readBuf_safe [safe_intros]: "n \<le> N \<Longrightarrow> safe (buf_inv N pool) (readBuf n)"
  by (auto simp: safe_def buf_inv_def readBuf_def split: prod.splits option.splits)

lemma recvFrame_safe [safe_intros]: "4 \<le> N \<Longrightarrow> safe (buf_inv N pool) (recvFrame lim)"
  unfolding recvFrame_def Let_def
  by (intro safe_bind safe_wrapf readBuf_safe safe_bind_get safe_bind_guard safe_return)
     (simp_all add: buf_inv_def)

lemma parseFrame_safe [safe_intros]: "safe (buf_inv N pool) (parseFrame n)"
  unfolding parseFrame_def Let_def by (intro safe_intros)

lemma Publisher_no_panic:
  assumes "\<And>subj d. no_panic (nats_Publish api subj d)"
  shows "Publisher_Publish api to d n \<noteq> (Panic p, n')"
proof (cases "nats_Publish api (subjectForClient to) d n")
  case (Pair r n1)
  with assms have "r \<noteq> Panic p" by (metis no_panic_def fst_conv)
  with Pair show ?thesis by (cases r) (simp_all add: Publisher_Publish_def wrapf_def Let_def)
qed

lemma publishMessage_no_panic:
  fixes m :: ClientMessage
  assumes "\<And>m p. marshal m \<noteq> Panic p" "\<And>subj d. no_panic (nats_Publish api subj d)"
  shows "publishMessage api marshal now peerHex (cm_To m) (cm_MsgID m) (cm_Payload m) s \<noteq> (Panic p, t)"
  using assms(1) Publisher_no_panic [of api, OF assms(2)]
  by (auto simp: publishMessage_eq split: res.splits prod.splits)

lemma publishMessage_safe [safe_intros]:
  assumes "\<And>m p. marshal m \<noteq> Panic p" "\<And>subj d. no_panic (nats_Publish api subj d)"
  shows "safe (buf_inv N pool) (publishMessage api marshal now peerHex to i b)"
  unfolding safe_def
proof (intro allI impI)
  fix s :: "'a msg_st" assume s: "buf_inv N pool s"
  obtain r t where q: "publishMessage api marshal now peerHex to i b s = (r, t)"
    by (metis surj_pair)
  let ?m = "\<lparr>cm_To = to, cm_MsgID = i, cm_Payload = b\<rparr>"
  have q': "publishMessage api marshal now peerHex (cm_To ?m) (cm_MsgID ?m) (cm_Payload ?m) s = (r, t)"
    using q by simp
  have "r \<noteq> Panic p" for p
    using q' publishMessage_no_panic [where m = ?m, OF assms] by auto
  with publishMessage_nats [OF q'] q s
  show "buf_inv N pool (snd (publishMessage api marshal now peerHex to i b s))
      \<and> (\<forall>p. fst (publishMessage api marshal now peerHex to i b s) \<noteq> Panic p)"
    by (simp add: buf_inv_def)
qed

lemma handleBuf_safe:
  assumes "\<And>m p. marshal m \<noteq> Panic p" "\<And>subj d. no_panic (nats_Publish api subj d)" "4 \<le> N"
  shows "safe (buf_inv N pool) (handleBuf api marshal now lim peerHex)"
  unfolding handleBuf_def using assms
  by (auto intro!: safe_bind recvFrame_safe parseFrame_safe publishMessage_safe split: prod.splits)

section \<open>Properties\<close>

text \<open>A serialiser and a client's connection, for examples.\<close>

definition ex_marshal :: "Message \<Rightarrow> bytes res" where
  "ex_marshal m = Ok (bytes_of_string (pm_From m) @ pm_Payload m)"

definition ex_message :: ClientMessage where
  "ex_message = \<lparr>cm_To = replicate 64 CHR ''a'', cm_MsgID = ''id'', cm_Payload = [1, 2, 3]\<rparr>"

definition ex_msg_st :: "(string \<times> bytes) list msg_st" where
  "ex_msg_st = \<lparr>ms_conn = \<lparr>c_in = \<lparr>rchunks = [wire_ClientMessage ex_message], rend = io_EOF\<rparr>,
       c_out = empty_writer, c_closed = False, c_deadline = None, c_wdeadline = None, c_dlplan = [], c_closeErr = None,
       c_tls = None\<rparr>,
     ms_pool = [], ms_buf = [], ms_messagePool = [], ms_nats = []\<rparr>"

lemma ex_admissible: "admissible 128 ex_message"
  by (simp add: admissible_def ex_message_def isValidHexPubKey_def hex_scan_iff is_hex_char_def
      body_ClientMessage_def sizes less_eq_char_def)

lemma ex_content: "nc_content (ms_conn ex_msg_st) = wire_ClientMessage ex_message @ []"
  "\<not> c_closed (ms_conn ex_msg_st)" "pool_ok n ex_msg_st" "ms_nats ex_msg_st = []"
  by (simp_all add: ex_msg_st_def nc_content_def pool_ok_def)

lemma ex_publishes:
  "publishes ex_nats ex_marshal 7 ''bob'' ex_message []
     [(''goro.msg.'' @ replicate 64 CHR ''a'', bytes_of_string ''bob'' @ [1, 2, 3])]"
  by (simp add: publishes_def ex_nats_def ex_marshal_def routed_def ex_message_def subjectForClient_def)

text \<open>C6: a call of \<open>handleMessage\<close> succeeds, leaving \<open>rest\<close> to be read and the broker in state
  \<open>n'\<close>, exactly when the connection is open and its input starts with the encoding of a message whose
  recipient is a valid key, whose id is not too long and whose size is within the limit, and the
  broker accepts that message, with the authenticated key of this connection as its sender, on
  the recipient's subject. In particular the sender cannot be chosen by the client.\<close>
theorem handleMessage_iff:
  assumes "pool_ok N s" "4 \<le> N" "N < 2 ^ 32"
  shows "(\<exists>t. handleMessage api marshal now N (int N) peerHex s = (Ok (), t)
            \<and> ms_nats t = n' \<and> nc_content (ms_conn t) = rest)
     \<longleftrightarrow> \<not> c_closed (ms_conn s)
       \<and> (\<exists>m. admissible N m \<and> nc_content (ms_conn s) = wire_ClientMessage m @ rest
            \<and> publishes api marshal now peerHex m (ms_nats s) n')"
    (is "?L \<longleftrightarrow> ?R")
proof -
  obtain b pool where b: "length b = N" "\<forall>x \<in> set pool. length x = N"
    and e: "handleMessage api marshal now N (int N) peerHex s =
       (case handleBuf api marshal now (int N) peerHex (s\<lparr>ms_pool := pool, ms_buf := b\<rparr>) of
          (r, t) \<Rightarrow> (r, t\<lparr>ms_pool := ms_buf t # ms_pool t\<rparr>))"
    by (rule handleMessage_eq [OF assms(1)])
  let ?s = "s\<lparr>ms_pool := pool, ms_buf := b\<rparr>"
  show ?thesis
  proof
    assume ?L
    then obtain t where t: "handleBuf api marshal now (int N) peerHex ?s = (Ok (), t)"
      "ms_nats t = n'" "nc_content (ms_conn t) = rest"
      unfolding e by (auto split: prod.splits)
    obtain m where "admissible N m" "nc_content (ms_conn ?s) = wire_ClientMessage m @ nc_content (ms_conn t)"
      "\<not> c_closed (ms_conn ?s)" "publishes api marshal now peerHex m (ms_nats ?s) (ms_nats t)"
      using handleBuf_OkD [OF t(1) assms(3)] .
    with t(2,3) show ?R by (intro conjI exI [of _ m]) simp_all
  next
    assume ?R
    then show ?L using handleMessage_Ok [OF assms] by blast
  qed
qed

theorem handleMessage_iff_witness:
  "\<exists>t. handleMessage ex_nats ex_marshal 7 128 128 ''bob'' ex_msg_st = (Ok (), t)
      \<and> ms_nats t = [(''goro.msg.'' @ replicate 64 CHR ''a'', bytes_of_string ''bob'' @ [1, 2, 3])]
      \<and> nc_content (ms_conn t) = []"
  using handleMessage_iff [of 128 ex_msg_st ex_nats ex_marshal 7 "''bob''"
      "[(''goro.msg.'' @ replicate 64 CHR ''a'', bytes_of_string ''bob'' @ [1, 2, 3])]" "[]"]
    ex_admissible ex_content ex_publishes
  by auto

text \<open>C16: whatever the client sends, one call of \<open>handleMessage\<close> changes the broker only by one
  publication, whose message is admissible, was the next frame on this connection and carries the
  authenticated key as its sender; a frame that is refused at any check changes nothing.\<close>
theorem handleMessage_publishes_authentic:
  assumes "pool_ok N s" "N < 2 ^ 32"
    and "handleMessage api marshal now N (int N) peerHex s = (r, t)" "ms_nats t \<noteq> ms_nats s"
  shows "\<exists>m data rest. admissible N m \<and> nc_content (ms_conn s) = wire_ClientMessage m @ rest
      \<and> marshal \<lparr>pm_From = peerHex, pm_To = cm_To m, pm_Id = cm_MsgID m, pm_Payload = cm_Payload m,
                  pm_UnixDateTime = now\<rparr> = Ok data
      \<and> ms_nats t = snd (nats_Publish api (subjectForClient (cm_To m)) data (ms_nats s))"
proof -
  obtain b pool where b: "length b = N" "\<forall>x \<in> set pool. length x = N"
    and e: "handleMessage api marshal now N (int N) peerHex s =
       (case handleBuf api marshal now (int N) peerHex (s\<lparr>ms_pool := pool, ms_buf := b\<rparr>) of
          (r, t) \<Rightarrow> (r, t\<lparr>ms_pool := ms_buf t # ms_pool t\<rparr>))"
    by (rule handleMessage_eq [OF assms(1)])
  let ?s = "s\<lparr>ms_pool := pool, ms_buf := b\<rparr>"
  obtain t' where t': "handleBuf api marshal now (int N) peerHex ?s = (r, t')" "ms_nats t' = ms_nats t"
    using assms(3) unfolding e by (auto split: prod.splits)
  with assms(4) have "ms_nats t' \<noteq> ms_nats ?s" by simp
  from handleBuf_nats [OF t'(1) assms(2) this] obtain m data
    where m: "admissible N m" "marshal (routed now peerHex m) = Ok data"
    "ms_nats t' = snd (nats_Publish api (subjectForClient (cm_To m)) data (ms_nats ?s))"
    "\<exists>rest. nc_content (ms_conn ?s) = wire_ClientMessage m @ rest" .
  from m(4) obtain rest where "nc_content (ms_conn ?s) = wire_ClientMessage m @ rest" ..
  with m(1-3) t'(2) show ?thesis
    by (intro exI [of _ m] exI [of _ data] exI [of _ rest]) (simp add: routed_def)
qed

theorem handleMessage_publishes_authentic_witness:
  "\<exists>m data rest. admissible 128 m \<and> nc_content (ms_conn ex_msg_st) = wire_ClientMessage m @ rest
      \<and> ex_marshal \<lparr>pm_From = ''bob'', pm_To = cm_To m, pm_Id = cm_MsgID m, pm_Payload = cm_Payload m,
                  pm_UnixDateTime = 7\<rparr> = Ok data"
proof -
  obtain t where t: "handleMessage ex_nats ex_marshal 7 128 (int 128) ''bob'' ex_msg_st = (Ok (), t)"
    "ms_nats t \<noteq> ms_nats ex_msg_st"
    using handleMessage_Ok [OF ex_content(3) _ _ ex_content(1,2) ex_admissible] ex_publishes ex_content(4)
    by fastforce
  from handleMessage_publishes_authentic [OF ex_content(3) _ t] show ?thesis by auto
qed

lemma handleMessage_no_panic:
  assumes "pool_ok N s" "4 \<le> N" "\<And>m p. marshal m \<noteq> Panic p" "\<And>subj d. no_panic (nats_Publish api subj d)"
    and "handleMessage api marshal now N (int N) peerHex s = (r, t)"
  shows "r \<noteq> Panic p \<and> pool_ok N t"
proof -
  obtain b pool where b: "length b = N" "\<forall>x \<in> set pool. length x = N"
    and e: "handleMessage api marshal now N (int N) peerHex s =
       (case handleBuf api marshal now (int N) peerHex (s\<lparr>ms_pool := pool, ms_buf := b\<rparr>) of
          (r, t) \<Rightarrow> (r, t\<lparr>ms_pool := ms_buf t # ms_pool t\<rparr>))"
    by (rule handleMessage_eq [OF assms(1)])
  let ?s = "s\<lparr>ms_pool := pool, ms_buf := b\<rparr>"
  obtain t' where t': "handleBuf api marshal now (int N) peerHex ?s = (r, t')"
    "t = t'\<lparr>ms_pool := ms_buf t' # ms_pool t'\<rparr>"
    using assms(5) unfolding e by (auto split: prod.splits)
  have "safe (buf_inv N pool) (handleBuf api marshal now (int N) peerHex)"
    using assms(3,4,2) by (rule handleBuf_safe)
  moreover have "buf_inv N pool ?s" using b by (simp add: buf_inv_def)
  ultimately have "buf_inv N pool t' \<and> (\<forall>p. r \<noteq> Panic p)" using t'(1) by (rule safeD)
  with b t'(2) show ?thesis by (simp add: buf_inv_def pool_ok_def)
qed

lemma handleMessage_small:
  assumes "pool_ok N s" "N < 4"
  shows "fst (handleMessage api marshal now N (int N) peerHex s) = Panic ''slice bounds out of range''"
proof -
  obtain b pool where b: "length b = N" "\<forall>x \<in> set pool. length x = N"
    and e: "handleMessage api marshal now N (int N) peerHex s =
       (case handleBuf api marshal now (int N) peerHex (s\<lparr>ms_pool := pool, ms_buf := b\<rparr>) of
          (r, t) \<Rightarrow> (r, t\<lparr>ms_pool := ms_buf t # ms_pool t\<rparr>))"
    by (rule handleMessage_eq [OF assms(1)])
  let ?s = "s\<lparr>ms_pool := pool, ms_buf := b\<rparr>"
  have "readBuf 4 ?s = (Panic ''slice bounds out of range'', ?s)"
    using b assms(2) by (simp add: readBuf_def)
  then have "handleBuf api marshal now (int N) peerHex ?s = (Panic ''slice bounds out of range'', ?s)"
    by (simp add: handleBuf_def recvFrame_def wrapf_def)
  then show ?thesis unfolding e by simp
qed



section \<open>Recipients and subjects\<close>

lemma valid_hex_chars:
  assumes "isValidHexPubKey k"
  shows "CHR ''.'' \<notin> set k" "CHR ''*'' \<notin> set k" "CHR ''>'' \<notin> set k" "CHR '' '' \<notin> set k"
  using assms by (auto simp: isValidHexPubKey_def hex_scan_iff is_hex_char_def less_eq_char_def
      split: if_splits)

lemma hextable_hex: "c \<in> set hextable \<Longrightarrow> is_hex_char c"
  by (auto simp: hextable_def is_hex_char_def less_eq_char_def)

lemma hex_valid:
  "length k = PublicKeySize \<Longrightarrow> isValidHexPubKey (hex_EncodeToString k)"
  using hex_digits [of _ k] by (auto simp: isValidHexPubKey_def hex_scan_iff intro: hextable_hex)

text \<open>C17: a recipient that passes validation makes a subject of exactly three tokens without a
  wildcard, and among the subscriptions of clients it reaches precisely the one of the client
  whose key, written in lower-case hexadecimal, it is: there is no subject injection.\<close>
theorem recipient_isolated:
  assumes "isValidHexPubKey to" "length k = PublicKeySize"
  shows "subject_tokens (subjectForClient to) = [''goro'', ''msg'', to]
    \<and> to \<noteq> ''*'' \<and> to \<noteq> ''>''
    \<and> (subject_matches (subjectForClient (hex_EncodeToString k)) (subjectForClient to)
         \<longleftrightarrow> to = hex_EncodeToString k)"
proof -
  note t = valid_hex_chars [OF assms(1)] and h = valid_hex_chars [OF hex_valid [OF assms(2)]]
  have "to \<noteq> ''*''" "to \<noteq> ''>''" "hex_EncodeToString k \<noteq> ''*''" "hex_EncodeToString k \<noteq> ''>''"
    using t h by (metis list.set_intros(1))+
  with t h show ?thesis
    by (auto simp: subjectForClient_tokens subjectForClient_match)
qed

theorem recipient_isolated_witness:
  "subject_tokens (subjectForClient (cm_To ex_message)) = [''goro'', ''msg'', replicate 64 CHR ''a'']
   \<and> subject_matches (subjectForClient (hex_EncodeToString (replicate 32 170))) (subjectForClient (cm_To ex_message))"
proof -
  have v: "isValidHexPubKey (cm_To ex_message)" using ex_admissible by (simp add: admissible_def)
  have "length (replicate 32 170 :: bytes) = PublicKeySize" by (simp add: sizes)
  note r = recipient_isolated [OF v this]
  have "hex_EncodeToString (replicate 32 170) = replicate 64 CHR ''a''" by code_simp
  with r show ?thesis by (simp add: ex_message_def)
qed

end
