(* ===== verification/Peer.thy ===== *)
theory Peer
  imports Protocol Broker
begin

text \<open>
  An authenticated client, \<open>src/pkg/router/peer.go\<close>: its outgoing queue, its subscription, its
  write loop and its shutdown. Three goroutines use a peer at the same time: the callback of the
  NATS subscription fills the queue, the write loop drains it into the connection, and the
  connection's handler (or the handler of a newer connection of the same client) closes it. Each
  operation is a function of the peer; where Go's \<open>select\<close> may choose between cases that are both
  ready, the choice is an argument. The interleavings are the step relation of the second half.
  A \<open>Close\<close> between the two writes of a frame is covered by the writer's plan: it makes the second
  write fail with \<open>net.ErrClosed\<close>.
\<close>

section \<open>State\<close>

type_synonym PeerID = bytes

record ('s, 'l) Peer =
  p_id :: PeerID
  p_conn :: netconn
  p_pubKeyHex :: string
  p_subscriber :: "'s option"
  p_writeCh :: "bytes list"
  p_writeCap :: nat
  p_closeCh :: bool
  p_closeOnce :: bool
  p_writeTimeout :: int
  p_lastDeadline :: "int option"
  p_limiter :: 'l

text \<open>
  \<open>p_closeCh\<close> says that the channel has been closed, \<open>p_closeOnce\<close> that the once has run;
  \<open>p_lastDeadline = None\<close> is the zero time. The peer lives beside the connection to the broker.
\<close>

record ('n, 's, 'l) peer_env =
  pe_peer :: "('s, 'l) Peer"
  pe_nats :: 'n

section \<open>Time\<close>

text \<open>Durations are 64-bit nanoseconds; \<open>Time.Sub\<close> saturates.\<close>

definition maxDuration :: int where
  "maxDuration = 2 ^ 63 - 1"

definition minDuration :: int where
  "minDuration = - (2 ^ 63)"

definition time_Sub :: "int \<Rightarrow> int option \<Rightarrow> int" where
  "time_Sub t u = (case u of None \<Rightarrow> maxDuration | Some u \<Rightarrow> max minDuration (min maxDuration (t - u)))"

section \<open>Operations\<close>

definition newPeer ::
    "('n, 's, 'h) nats_api \<Rightarrow> ('f \<Rightarrow> int \<Rightarrow> 'l) \<Rightarrow> 'h \<Rightarrow> netconn \<Rightarrow> PeerID \<Rightarrow> nat \<Rightarrow> int \<Rightarrow> 'f \<Rightarrow> int
     \<Rightarrow> ('n, ('s, 'l) Peer) go" where
  "newPeer api newLimiter handler conn i writeBufferSize writeTimeout rateLimitPerSec rateLimitBurst =
     (let pubKeyHex = hex_EncodeToString i;
          peer = \<lparr>p_id = i, p_conn = conn, p_pubKeyHex = pubKeyHex, p_subscriber = None,
                  p_writeCh = [], p_writeCap = writeBufferSize, p_closeCh = False, p_closeOnce = False,
                  p_writeTimeout = writeTimeout, p_lastDeadline = None,
                  p_limiter = newLimiter rateLimitPerSec rateLimitBurst\<rparr>
      in go_bind (wrapf ''create subscriber'' (NewSubscriber api pubKeyHex handler)) (\<lambda>sub.
         go_return (peer\<lparr>p_subscriber := Some sub\<rparr>)))"

definition AllowMessage :: "('l \<Rightarrow> bool \<times> 'l) \<Rightarrow> ('s, 'l) Peer \<Rightarrow> bool \<times> ('s, 'l) Peer" where
  "AllowMessage allow p = (case allow (p_limiter p) of (b, l) \<Rightarrow> (b, p\<lparr>p_limiter := l\<rparr>))"

text \<open>The failures of \<open>Unsubscribe\<close> and of \<open>conn.Close\<close> are logged and otherwise ignored.\<close>

definition Peer_Close :: "('n, 's, 'h) nats_api \<Rightarrow> ('n, 's, 'l) peer_env \<Rightarrow> ('n, 's, 'l) peer_env" where
  "Peer_Close api e =
     (let p = pe_peer e in
      if p_closeOnce p then e
      else let p = p\<lparr>p_closeOnce := True, p_closeCh := True\<rparr>;
               n = (case p_subscriber p of
                      Some sub \<Rightarrow> snd (Subscriber_Unsubscribe api sub (pe_nats e))
                    | None \<Rightarrow> pe_nats e)
           in \<lparr>pe_peer = p\<lparr>p_conn := snd (nc_Close (p_conn p))\<rparr>, pe_nats = n\<rparr>)"

definition peerConn :: "(netconn, 'a) go \<Rightarrow> (('s, 'l) Peer, 'a) go" where
  "peerConn = go_lift p_conn (\<lambda>c p. p\<lparr>p_conn := c\<rparr>)"

text \<open>
  The deadline is renewed when half of the timeout has passed since the last renewal. The division
  of \<open>p.writeTimeout/2\<close> truncates; timeouts are not negative.
\<close>

definition renewDeadline :: "int \<Rightarrow> (('s, 'l) Peer, unit) go" where
  "renewDeadline now =
     go_bind go_get (\<lambda>p.
     if p_writeTimeout p div 2 < time_Sub now (p_lastDeadline p)
     then go_bind (wrapf ''set write deadline''
            (peerConn (nc_SetWriteDeadline (Some (now + p_writeTimeout p))))) (\<lambda>_.
          go_modify (\<lambda>p. p\<lparr>p_lastDeadline := Some now\<rparr>))
     else go_return ())"

definition writeMessage :: "int \<Rightarrow> bytes \<Rightarrow> (('s, 'l) Peer, unit) go" where
  "writeMessage now data =
     go_bind (renewDeadline now) (\<lambda>_.
     wrapf ''encode server message'' (peerConn (nc_asWriter (ServerMessage_Encode \<lparr>sm_Data = data\<rparr>))))"

text \<open>
  One turn of \<open>writeLoop\<close>: it waits when no case of the \<open>select\<close> is ready; when both are, \<open>pick\<close>
  chooses (\<open>True\<close> the closed channel).
\<close>

datatype turn = Again | Return | Waits

definition writeLoop_turn ::
    "('n, 's, 'h) nats_api \<Rightarrow> bool \<Rightarrow> int \<Rightarrow> ('n, 's, 'l) peer_env \<Rightarrow> turn \<times> ('n, 's, 'l) peer_env" where
  "writeLoop_turn api pick now e =
     (let p = pe_peer e in
      if p_closeCh p \<and> (pick \<or> p_writeCh p = []) then (Return, e)
      else case p_writeCh p of
        [] \<Rightarrow> (Waits, e)
      | data # rest \<Rightarrow>
          (case writeMessage now data (p\<lparr>p_writeCh := rest\<rparr>) of
             (Ok _, p) \<Rightarrow> (Again, e\<lparr>pe_peer := p\<rparr>)
           | (_, p) \<Rightarrow> (Return, Peer_Close api (e\<lparr>pe_peer := p\<rparr>))))"

text \<open>
  The callback of the subscription; \<open>pick\<close> chooses as above. The inner \<open>select\<close> looks at the
  channel again: \<open>Close\<close> runs at most once, so a peer that another goroutine closed between the two
  is left as if it had been closed before.
\<close>

definition handleNATSMessage ::
    "('n, 's, 'h) nats_api \<Rightarrow> bool \<Rightarrow> bytes \<Rightarrow> ('n, 's, 'l) peer_env \<Rightarrow> ('n, 's, 'l) peer_env" where
  "handleNATSMessage api pick data e =
     (let p = pe_peer e in
      if p_closeCh p \<and> (pick \<or> p_writeCap p \<le> length (p_writeCh p)) then e
      else if length (p_writeCh p) < p_writeCap p
      then e\<lparr>pe_peer := p\<lparr>p_writeCh := p_writeCh p @ [data]\<rparr>\<rparr>
      else if p_closeCh p then e
      else Peer_Close api e)"

section \<open>Writing a frame\<close>

lemma ServerMessage_Encode_result:
  assumes "ServerMessage_Encode m w = (r, w')"
  shows "r = Ok () \<longrightarrow> wf_ServerMessage m \<and> wbytes w' = wbytes w @ wire_ServerMessage m"
    and "\<exists>k. wbytes w' = wbytes w @ take k (wire_ServerMessage m)"
    and "r \<noteq> Panic p"
proof -
  have l: "length (PutUint32 x) = 4" for x by simp
  from assms show "r = Ok () \<longrightarrow> wf_ServerMessage m \<and> wbytes w' = wbytes w @ wire_ServerMessage m"
    and "r \<noteq> Panic p"
    by (auto simp: ServerMessage_Encode_def go_bind_def wrapf_def Write_def wbytes_def wf_ServerMessage_def
        wire_ServerMessage_def split: if_splits list.splits wevent.splits)
  let ?h = "PutUint32 (of_nat (length (sm_Data m)))"
  consider "w' = w" | k where "wbytes w' = wbytes w @ take k ?h"
    | k where "wbytes w' = wbytes w @ ?h @ take k (sm_Data m)"
    | "wbytes w' = wbytes w @ ?h @ sm_Data m"
    using assms by (auto simp: ServerMessage_Encode_def go_bind_def wrapf_def Write_def wbytes_def
        split: if_splits list.splits wevent.splits)
  then show "\<exists>k. wbytes w' = wbytes w @ take k (wire_ServerMessage m)"
  proof cases
    case 1
    then show ?thesis by (intro exI [of _ 0]) simp
  next
    case (2 k)
    then show ?thesis by (intro exI [of _ "min k 4"]) (simp add: wire_ServerMessage_def min_def)
  next
    case (3 k)
    then show ?thesis by (intro exI [of _ "4 + k"]) (simp add: wire_ServerMessage_def)
  next
    case 4
    then show ?thesis by (intro exI [of _ "length (wire_ServerMessage m)"]) (simp add: wire_ServerMessage_def)
  qed
qed

lemma nc_asWriter_cases:
  assumes "nc_asWriter (ServerMessage_Encode m) c = (r, c')"
  obtains w where "c' = c\<lparr>c_out := w\<rparr>" "\<exists>k. wbytes w = wbytes (c_out c) @ take k (wire_ServerMessage m)"
    "r = Ok () \<Longrightarrow> wf_ServerMessage m \<and> \<not> c_closed c \<and> wbytes w = wbytes (c_out c) @ wire_ServerMessage m"
    "c_closed c \<Longrightarrow> w = c_out c" "\<And>p. r \<noteq> Panic p"
proof (cases "c_closed c")
  case True
  let ?w = "(c_out c)\<lparr>wplan := replicate 2 (WFail 0 net_ErrClosed)\<rparr>"
  have "fst (ServerMessage_Encode m ?w) \<noteq> Ok ()" "fst (ServerMessage_Encode m ?w) \<noteq> Panic p" for p
    by (auto simp: ServerMessage_Encode_def go_bind_def wrapf_def Write_def numeral_eq_Suc)
  with True assms show thesis
    by (intro that [of "c_out c"]) (auto simp: nc_asWriter_def intro: exI [of _ 0])
next
  case False
  then obtain w where w: "ServerMessage_Encode m (c_out c) = (r, w)" "c' = c\<lparr>c_out := w\<rparr>"
    using assms by (auto simp: nc_asWriter_def split: prod.splits)
  show thesis
    using ServerMessage_Encode_result [OF w(1)] w(2) False by (intro that [of w]) simp_all
qed

text \<open>What a peer sends is bounded in time by its deadline: it was set at the last renewal.\<close>

definition deadline_ok :: "int \<Rightarrow> ('s, 'l) Peer \<Rightarrow> bool" where
  "deadline_ok clock p \<longleftrightarrow> (\<forall>l. p_lastDeadline p = Some l \<longrightarrow>
     l \<le> clock \<and> c_wdeadline (p_conn p) = Some (l + p_writeTimeout p))"

text \<open>The parts of a peer that writing leaves as they are.\<close>

definition peer_frame :: "('s, 'l) Peer \<Rightarrow> _" where
  "peer_frame p = (p_id p, p_pubKeyHex p, p_subscriber p, p_writeCh p, p_writeCap p, p_closeCh p,
     p_closeOnce p, p_writeTimeout p, p_limiter p, c_closed (p_conn p), c_in (p_conn p))"

lemma nc_SetWriteDeadline_cases:
  obtains (set) pl where "nc_SetWriteDeadline t c = (Ok (), c\<lparr>c_wdeadline := t, c_dlplan := pl\<rparr>)"
    | (fails) e pl where "nc_SetWriteDeadline t c = (Err e, c\<lparr>c_dlplan := pl\<rparr>)"
proof (cases "c_closed c")
  case True
  then show thesis by (intro fails [of net_ErrClosed "c_dlplan c"]) (simp add: nc_SetWriteDeadline_def)
next
  case False
  note [simp] = False nc_SetWriteDeadline_def
  show thesis
  proof (cases "c_dlplan c")
    case Nil
    then show thesis by (intro set [of "[]"]) simp
  next
    case (Cons a pl)
    then show thesis by (cases a) (auto intro: set [of pl] fails [of _ pl])
  qed
qed

lemma renewDeadline_cases:
  fixes p :: "('s, 'l) Peer"
  obtains (kept) "renewDeadline now p = (Ok (), p)" "time_Sub now (p_lastDeadline p) \<le> p_writeTimeout p div 2"
    | (renewed) pl where "renewDeadline now p = (Ok (), p\<lparr>p_conn := (p_conn p)\<lparr>
        c_wdeadline := Some (now + p_writeTimeout p), c_dlplan := pl\<rparr>, p_lastDeadline := Some now\<rparr>)"
    | (failed) e pl where "renewDeadline now p = (Err e, p\<lparr>p_conn := (p_conn p)\<lparr>c_dlplan := pl\<rparr>\<rparr>)"
proof (cases "p_writeTimeout p div 2 < time_Sub now (p_lastDeadline p)")
  case True
  let ?t = "Some (now + p_writeTimeout p)"
  show thesis
  proof (cases rule: nc_SetWriteDeadline_cases [of ?t "p_conn p"])
    case (set pl)
    with True show thesis
      by (intro renewed [of pl]) (simp add: renewDeadline_def go_bind_def go_get_def go_modify_def
          wrapf_def peerConn_def go_lift_def)
  next
    case (fails e pl)
    with True show thesis
      by (intro failed [of "Wrapf ''set write deadline'' e" pl]) (simp add: renewDeadline_def
          go_bind_def go_get_def wrapf_def peerConn_def go_lift_def)
  qed
qed (auto simp: renewDeadline_def go_bind_def go_get_def intro: kept)

lemma renewDeadline_frame:
  assumes "renewDeadline now p = (r, p')"
  shows "peer_frame p' = peer_frame p \<and> c_out (p_conn p') = c_out (p_conn p) \<and> (\<forall>q. r \<noteq> Panic q)"
  by (cases rule: renewDeadline_cases [of now p]) (use assms in \<open>auto simp: peer_frame_def\<close>)

lemma renewDeadline_ok:
  assumes "renewDeadline now p = (r, p')" "deadline_ok clock p" "clock \<le> now"
  shows "deadline_ok now p'"
  by (cases rule: renewDeadline_cases [of now p]) (use assms in \<open>auto simp: deadline_ok_def\<close>)

text \<open>After the first half, at least half of the write timeout is left.\<close>

lemma renewDeadline_slack:
  assumes "renewDeadline now p = (Ok (), p')" "deadline_ok clock p" "clock \<le> now"
    and "0 \<le> p_writeTimeout p" "p_writeTimeout p \<le> maxDuration"
  shows "\<exists>d. c_wdeadline (p_conn p') = Some d \<and> now + (p_writeTimeout p - p_writeTimeout p div 2) \<le> d
    \<and> d \<le> now + p_writeTimeout p"
proof (cases rule: renewDeadline_cases [of now p])
  case kept
  have half: "p_writeTimeout p div 2 < maxDuration" using assms(4,5) by (simp add: maxDuration_def)
  with kept(2) obtain l where l: "p_lastDeadline p = Some l"
    by (cases "p_lastDeadline p") (auto simp: time_Sub_def)
  with assms(2,3) have "l \<le> now" "c_wdeadline (p_conn p) = Some (l + p_writeTimeout p)"
    by (auto simp: deadline_ok_def)
  moreover have "now - l \<le> p_writeTimeout p div 2"
    using kept(2) half l by (auto simp: time_Sub_def max_def min_def split: if_splits)
  ultimately show ?thesis using assms(1) kept(1) by simp
next
  case (renewed pl)
  have "p_writeTimeout p div 2 \<ge> 0" using assms(4) by simp
  with renewed assms(1,4) show ?thesis by auto
next
  case (failed e pl)
  with assms(1) show ?thesis by simp
qed

lemma writeMessage_result:
  assumes "writeMessage now data p = (r, p')"
  shows "peer_frame p' = peer_frame p"
    and "r = Ok () \<longrightarrow> wf_ServerMessage \<lparr>sm_Data = data\<rparr> \<and> \<not> c_closed (p_conn p)
           \<and> wbytes (c_out (p_conn p')) = wbytes (c_out (p_conn p)) @ wire_ServerMessage \<lparr>sm_Data = data\<rparr>"
    and "\<exists>k. wbytes (c_out (p_conn p')) = wbytes (c_out (p_conn p)) @ take k (wire_ServerMessage \<lparr>sm_Data = data\<rparr>)"
    and "c_closed (p_conn p) \<longrightarrow> c_out (p_conn p') = c_out (p_conn p)"
    and "\<forall>q. r \<noteq> Panic q"
    and "deadline_ok clock p \<Longrightarrow> clock \<le> now \<Longrightarrow> deadline_ok now p'"
proof -
  let ?m = "\<lparr>sm_Data = data\<rparr> :: ServerMessage"
  obtain r1 p1 where 1: "renewDeadline now p = (r1, p1)" by (cases "renewDeadline now p")
  note f = renewDeadline_frame [OF 1]
  obtain r2 c2 where 2: "nc_asWriter (ServerMessage_Encode ?m) (p_conn p1) = (r2, c2)"
    by (cases "nc_asWriter (ServerMessage_Encode ?m) (p_conn p1)")
  obtain w where w: "c2 = (p_conn p1)\<lparr>c_out := w\<rparr>"
    "\<exists>k. wbytes w = wbytes (c_out (p_conn p1)) @ take k (wire_ServerMessage ?m)"
    "r2 = Ok () \<Longrightarrow> wf_ServerMessage ?m \<and> \<not> c_closed (p_conn p1)
       \<and> wbytes w = wbytes (c_out (p_conn p1)) @ wire_ServerMessage ?m"
    "c_closed (p_conn p1) \<Longrightarrow> w = c_out (p_conn p1)" "\<And>p. r2 \<noteq> Panic p"
    using nc_asWriter_cases [OF 2] by blast
  have c: "c_closed (p_conn p1) = c_closed (p_conn p)" using f by (simp add: peer_frame_def)
  consider (early) e where "r1 = Err e" "r = Err e" "p' = p1"
    | (late) "p' = p1\<lparr>p_conn := c2\<rparr>" "r = Ok () \<longrightarrow> r2 = Ok ()" "\<forall>q. r \<noteq> Panic q"
    using assms 1 2 f w(5)
    by (cases r1; cases r2) (auto simp: writeMessage_def wrapf_def peerConn_def go_lift_def)
  note cs = this
  show "peer_frame p' = peer_frame p"
    using cs f w(1) by cases (auto simp: peer_frame_def)
  show "r = Ok () \<longrightarrow> wf_ServerMessage ?m \<and> \<not> c_closed (p_conn p)
      \<and> wbytes (c_out (p_conn p')) = wbytes (c_out (p_conn p)) @ wire_ServerMessage ?m"
    using cs f w(1,3) c by cases auto
  show "\<exists>k. wbytes (c_out (p_conn p')) = wbytes (c_out (p_conn p)) @ take k (wire_ServerMessage ?m)"
    using cs f w(1,2) by cases (auto intro: exI [of _ 0])
  show "c_closed (p_conn p) \<longrightarrow> c_out (p_conn p') = c_out (p_conn p)"
    using cs f w(1,4) c by cases auto
  show "\<forall>q. r \<noteq> Panic q" using cs by cases auto
  show "deadline_ok now p'" if "deadline_ok clock p" "clock \<le> now"
    using cs renewDeadline_ok [OF 1 that] w(1) by cases (auto simp: deadline_ok_def)
qed

section \<open>Closing\<close>

lemma nc_Close_closed: "c_closed (snd (nc_Close c))"
  by (simp add: nc_Close_def)

lemma nc_Close_frame:
  "c_out (snd (nc_Close c)) = c_out c" "c_in (snd (nc_Close c)) = c_in c"
  "c_wdeadline (snd (nc_Close c)) = c_wdeadline c"
  by (simp_all add: nc_Close_def)

text \<open>\<open>closeCh\<close> is closed exactly when the once has run, and then the connection is closed.\<close>

definition close_ok :: "('s, 'l) Peer \<Rightarrow> bool" where
  "close_ok p \<longleftrightarrow> p_closeCh p = p_closeOnce p \<and> c_closed (p_conn p) = p_closeOnce p"

lemma Peer_Close_peer:
  "pe_peer (Peer_Close api e) =
     (let p = pe_peer e in if p_closeOnce p then p
      else p\<lparr>p_closeOnce := True, p_closeCh := True, p_conn := snd (nc_Close (p_conn p))\<rparr>)"
  by (simp add: Peer_Close_def Let_def)

lemma Peer_Close_ok:
  "close_ok (pe_peer e) \<Longrightarrow> close_ok (pe_peer (Peer_Close api e)) \<and> p_closeOnce (pe_peer (Peer_Close api e))"
  by (auto simp: Peer_Close_peer close_ok_def nc_Close_closed Let_def)

lemma Peer_Close_frame:
  "p_writeCh (pe_peer (Peer_Close api e)) = p_writeCh (pe_peer e)"
  "p_writeCap (pe_peer (Peer_Close api e)) = p_writeCap (pe_peer e)"
  "c_out (p_conn (pe_peer (Peer_Close api e))) = c_out (p_conn (pe_peer e))"
  "p_id (pe_peer (Peer_Close api e)) = p_id (pe_peer e)"
  "p_writeTimeout (pe_peer (Peer_Close api e)) = p_writeTimeout (pe_peer e)"
  "deadline_ok clock (pe_peer (Peer_Close api e)) = deadline_ok clock (pe_peer e)"
  by (simp_all add: Peer_Close_peer Let_def nc_Close_frame deadline_ok_def)

lemma Peer_Close_once: "p_closeOnce (pe_peer (Peer_Close api e))"
  by (simp add: Peer_Close_peer Let_def)

lemma Peer_Close_idem: "Peer_Close api (Peer_Close api e) = Peer_Close api e"
  by (simp add: Peer_Close_def Let_def)

section \<open>The goroutines of a peer, interleaved\<close>

text \<open>
  The peer with the state of its write loop and two histories: the messages put in the queue and
  the messages completely written. \<open>ps_clock\<close> is the latest time read by the write loop.
\<close>

record ('n, 's, 'l) peer_sys =
  ps_env :: "('n, 's, 'l) peer_env"
  ps_running :: bool
  ps_clock :: int
  ps_queued :: "bytes list"
  ps_written :: "bytes list"

text \<open>
  \<open>deliver\<close>: the callback of the subscription; \<open>written\<close> and \<open>returned\<close>: a turn of the write loop;
  \<open>closed\<close>: \<open>Close\<close> by another goroutine; \<open>read\<close>: the handler reads a message or asks the limiter;
  \<open>others\<close>: the rest of the program uses the broker.
\<close>

inductive peer_step ::
    "('n, 's, 'h) nats_api \<Rightarrow> ('n, 's, 'l) peer_sys \<Rightarrow> ('n, 's, 'l) peer_sys \<Rightarrow> bool" for api where
  deliver: "e' = handleNATSMessage api pick data (ps_env s) \<Longrightarrow>
    peer_step api s (s\<lparr>ps_env := e',
      ps_queued := ps_queued s @ drop (length (p_writeCh (pe_peer (ps_env s)))) (p_writeCh (pe_peer e'))\<rparr>)"
| written: "ps_running s \<Longrightarrow> ps_clock s \<le> now \<Longrightarrow> writeLoop_turn api pick now (ps_env s) = (Again, e') \<Longrightarrow>
    peer_step api s (s\<lparr>ps_env := e', ps_clock := now,
      ps_written := ps_written s @ take 1 (p_writeCh (pe_peer (ps_env s)))\<rparr>)"
| returned: "ps_running s \<Longrightarrow> ps_clock s \<le> now \<Longrightarrow> writeLoop_turn api pick now (ps_env s) = (Return, e') \<Longrightarrow>
    peer_step api s (s\<lparr>ps_env := e', ps_clock := now, ps_running := False\<rparr>)"
| closed: "peer_step api s (s\<lparr>ps_env := Peer_Close api (ps_env s)\<rparr>)"
| read: "peer_step api s (s\<lparr>ps_env := (ps_env s)\<lparr>pe_nats := n, pe_peer := (pe_peer (ps_env s))
      \<lparr>p_conn := (p_conn (pe_peer (ps_env s)))\<lparr>c_in := r\<rparr>, p_limiter := l\<rparr>\<rparr>\<rparr>)"
| others: "peer_step api s (s\<lparr>ps_env := (ps_env s)\<lparr>pe_nats := n\<rparr>\<rparr>)"

inductive_cases peer_stepE: "peer_step api s t"

text \<open>The start: a peer just made by \<open>newPeer\<close> on an open connection that has sent \<open>base\<close>.\<close>

definition peer_init :: "('n, 's, 'h) nats_api \<Rightarrow> nat \<Rightarrow> int \<Rightarrow> bytes \<Rightarrow> ('n, 's, 'l) peer_sys \<Rightarrow> bool" where
  "peer_init api cap timeout base s \<longleftrightarrow> ps_running s \<and> ps_queued s = [] \<and> ps_written s = []
     \<and> (\<exists>mk h conn i burst n p n'.
          newPeer api mk h conn i cap timeout () burst n = (Ok p, n') \<and> \<not> c_closed conn
          \<and> wbytes (c_out conn) = base \<and> ps_env s = \<lparr>pe_peer = p, pe_nats = n'\<rparr>)"

text \<open>
  The invariant: the queue is bounded; what was queued is what was written, at most one message
  whose writing failed, and what still waits; what is on the wire are the frames of the written
  messages and a part of the failed one, which ends the loop.
\<close>

definition frames :: "bytes list \<Rightarrow> bytes" where
  "frames ds = concat (map (\<lambda>d. wire_ServerMessage \<lparr>sm_Data = d\<rparr>) ds)"

definition peer_inv :: "nat \<Rightarrow> int \<Rightarrow> bytes \<Rightarrow> ('n, 's, 'l) peer_sys \<Rightarrow> bool" where
  "peer_inv cap timeout base s \<longleftrightarrow> (let p = pe_peer (ps_env s) in
     close_ok p \<and> deadline_ok (ps_clock s) p \<and> length (p_writeCh p) \<le> cap
     \<and> p_writeCap p = cap \<and> p_writeTimeout p = timeout
     \<and> (\<not> ps_running s \<longrightarrow> p_closeOnce p)
     \<and> list_all (\<lambda>d. wf_ServerMessage \<lparr>sm_Data = d\<rparr>) (ps_written s)
     \<and> (\<exists>failed k. ps_queued s = ps_written s @ failed @ p_writeCh p \<and> length failed \<le> 1
          \<and> wbytes (c_out (p_conn p)) = base @ frames (ps_written s) @ take k (frames failed)
          \<and> (ps_running s \<longrightarrow> failed = [])))"

lemma frames_simps [simp]:
  "frames [] = []" "frames (ds @ ds') = frames ds @ frames ds'"
  "frames [d] = wire_ServerMessage \<lparr>sm_Data = d\<rparr>"
  by (simp_all add: frames_def)

lemma newPeer_fields:
  assumes "newPeer api mk h conn i cap timeout rate burst n = (Ok p, n')"
  shows "p_id p = i \<and> p_conn p = conn \<and> p_pubKeyHex p = hex_EncodeToString i \<and> p_writeCh p = []
    \<and> p_writeCap p = cap \<and> \<not> p_closeCh p \<and> \<not> p_closeOnce p \<and> p_writeTimeout p = timeout
    \<and> p_lastDeadline p = None \<and> p_limiter p = mk rate burst \<and> p_subscriber p \<noteq> None
    \<and> (\<exists>sub. nats_Subscribe api (subjectForClient (hex_EncodeToString i)) h n = (Ok sub, n')
          \<and> p_subscriber p = Some sub)"
  using assms by (auto simp: newPeer_def NewSubscriber_def Let_def go_eq_Ok go_return_def)

text \<open>The parts of the invariant that do not concern the histories.\<close>

lemma handleNATSMessage_cases:
  obtains (ignored) "handleNATSMessage api pick data e = e" "p_closeCh (pe_peer e)"
    | (queued) "handleNATSMessage api pick data e =
          e\<lparr>pe_peer := (pe_peer e)\<lparr>p_writeCh := p_writeCh (pe_peer e) @ [data]\<rparr>\<rparr>"
        "length (p_writeCh (pe_peer e)) < p_writeCap (pe_peer e)"
    | (slow) "handleNATSMessage api pick data e = Peer_Close api e" "\<not> p_closeCh (pe_peer e)"
        "p_writeCap (pe_peer e) \<le> length (p_writeCh (pe_peer e))"
proof -
  let ?p = "pe_peer e"
  consider "p_closeCh ?p \<and> (pick \<or> p_writeCap ?p \<le> length (p_writeCh ?p))"
    | "\<not> (p_closeCh ?p \<and> (pick \<or> p_writeCap ?p \<le> length (p_writeCh ?p)))" "length (p_writeCh ?p) < p_writeCap ?p"
    | "\<not> p_closeCh ?p" "p_writeCap ?p \<le> length (p_writeCh ?p)"
    by linarith
  then show thesis
    by cases (rule ignored queued slow; auto simp: handleNATSMessage_def Let_def)+
qed

lemma writeLoop_cases:
  obtains (idle) "writeLoop_turn api pick now e = (Return, e)" "p_closeCh (pe_peer e)"
    | (waits) "writeLoop_turn api pick now e = (Waits, e)"
    | (sent) data rest p where "p_writeCh (pe_peer e) = data # rest"
      "writeMessage now data ((pe_peer e)\<lparr>p_writeCh := rest\<rparr>) = (Ok (), p)"
      "writeLoop_turn api pick now e = (Again, e\<lparr>pe_peer := p\<rparr>)"
    | (broken) data rest r p where "p_writeCh (pe_peer e) = data # rest"
      "writeMessage now data ((pe_peer e)\<lparr>p_writeCh := rest\<rparr>) = (r, p)" "r \<noteq> Ok ()"
      "writeLoop_turn api pick now e = (Return, Peer_Close api (e\<lparr>pe_peer := p\<rparr>))"
proof (cases "p_closeCh (pe_peer e) \<and> (pick \<or> p_writeCh (pe_peer e) = [])")
  case True
  then show thesis by (intro idle) (auto simp: writeLoop_turn_def)
next
  case F: False
  show thesis
  proof (cases "p_writeCh (pe_peer e)")
    case Nil
    with F show thesis by (intro waits) (simp add: writeLoop_turn_def)
  next
    case (Cons data rest)
    obtain r p where w: "writeMessage now data ((pe_peer e)\<lparr>p_writeCh := rest\<rparr>) = (r, p)"
      by (metis surj_pair)
    show thesis
    proof (cases "r = Ok ()")
      case True
      with F Cons w show thesis by (intro sent [of data rest p]) (simp_all add: writeLoop_turn_def Let_def)
    next
      case False
      with F Cons w show thesis
        by (intro broken [of data rest r p]) (auto simp: writeLoop_turn_def Let_def split: res.split)
    qed
  qed
qed

lemma peer_inv_init: "peer_init api cap timeout base s \<Longrightarrow> peer_inv cap timeout base s"
  by (auto simp: peer_init_def peer_inv_def close_ok_def deadline_ok_def dest!: newPeer_fields)

lemma close_ok_frame: "peer_frame p' = peer_frame p \<Longrightarrow> close_ok p' = close_ok p"
  by (simp add: peer_frame_def close_ok_def)

lemma peer_inv_close:
  "peer_inv cap timeout base s \<Longrightarrow> peer_inv cap timeout base (s\<lparr>ps_env := Peer_Close api (ps_env s)\<rparr>)"
  using Peer_Close_ok [of "ps_env s" api] by (auto simp: peer_inv_def Let_def Peer_Close_frame)

lemma peer_inv_deliver:
  assumes "peer_inv cap timeout base s" "e' = handleNATSMessage api pick data (ps_env s)"
  shows "peer_inv cap timeout base (s\<lparr>ps_env := e',
      ps_queued := ps_queued s @ drop (length (p_writeCh (pe_peer (ps_env s)))) (p_writeCh (pe_peer e'))\<rparr>)"
proof (cases rule: handleNATSMessage_cases [of api pick data "ps_env s"])
  case ignored
  then show ?thesis using assms by simp
next
  case queued
  then show ?thesis using assms
    by (auto simp: peer_inv_def Let_def close_ok_def deadline_ok_def)
next
  case slow
  then show ?thesis using assms peer_inv_close [OF assms(1), of api] by (simp add: Peer_Close_frame)
qed

lemma peer_inv_written:
  assumes "peer_inv cap timeout base s" "ps_running s" "ps_clock s \<le> now"
    and "writeLoop_turn api pick now (ps_env s) = (Again, e')"
  shows "peer_inv cap timeout base (s\<lparr>ps_env := e', ps_clock := now,
      ps_written := ps_written s @ take 1 (p_writeCh (pe_peer (ps_env s)))\<rparr>)"
proof (cases rule: writeLoop_cases [of api pick now "ps_env s"])
  case (sent data rest p)
  let ?p = "pe_peer (ps_env s)"
  note w = writeMessage_result [OF sent(2)]
  have "deadline_ok (ps_clock s) (?p\<lparr>p_writeCh := rest\<rparr>)"
    using assms(1) by (simp add: peer_inv_def deadline_ok_def Let_def)
  from w(6) [OF this assms(3)] have d: "deadline_ok now p" .
  have e': "e' = (ps_env s)\<lparr>pe_peer := p\<rparr>" using sent(3) assms(4) by simp
  have f: "p_writeCh p = rest" "p_writeCap p = p_writeCap ?p" "p_writeTimeout p = p_writeTimeout ?p"
    "close_ok p = close_ok ?p"
    using w(1) by (auto simp: peer_frame_def close_ok_def)
  show ?thesis
    using assms(1,2) w(2) d e' f sent(1) by (auto simp: peer_inv_def Let_def)
qed (use assms(4) in auto)

lemma peer_inv_returned:
  assumes "peer_inv cap timeout base s" "ps_running s" "ps_clock s \<le> now"
    and "writeLoop_turn api pick now (ps_env s) = (Return, e')"
  shows "peer_inv cap timeout base (s\<lparr>ps_env := e', ps_clock := now, ps_running := False\<rparr>)"
proof (cases rule: writeLoop_cases [of api pick now "ps_env s"])
  case idle
  then show ?thesis using assms by (auto simp: peer_inv_def Let_def close_ok_def deadline_ok_def)
next
  case (broken data rest r p)
  let ?p = "pe_peer (ps_env s)"
  note w = writeMessage_result [OF broken(2)]
  have "deadline_ok (ps_clock s) (?p\<lparr>p_writeCh := rest\<rparr>)"
    using assms(1) by (simp add: peer_inv_def deadline_ok_def Let_def)
  from w(6) [OF this assms(3)] have d: "deadline_ok now p" .
  have e': "e' = Peer_Close api ((ps_env s)\<lparr>pe_peer := p\<rparr>)" using broken(4) assms(4) by simp
  have f: "p_writeCh p = rest" "p_writeCap p = p_writeCap ?p" "p_writeTimeout p = p_writeTimeout ?p"
    "close_ok p"
    using w(1) assms(1) by (auto simp: peer_frame_def close_ok_def peer_inv_def Let_def)
  obtain k where k: "wbytes (c_out (p_conn p)) = wbytes (c_out (p_conn ?p)) @ take k (frames [data])"
    using w(3) by auto
  have "ps_queued s = ps_written s @ [data] @ rest"
    "wbytes (c_out (p_conn p)) = base @ frames (ps_written s) @ take k (frames [data])"
    using assms(1,2) broken(1) k by (auto simp: peer_inv_def Let_def)
  moreover have "close_ok (pe_peer e')" "p_closeOnce (pe_peer e')"
    using Peer_Close_ok [of "(ps_env s)\<lparr>pe_peer := p\<rparr>" api] f(4) e' by simp_all
  ultimately show ?thesis
    using assms(1) d e' f(1-3) broken(1)
    by (auto simp: peer_inv_def Let_def Peer_Close_frame intro!: exI [of _ "[data]"] exI [of _ k])
qed (use assms(4) in auto)

lemma peer_inv_step:
  assumes "peer_inv cap timeout base s" "peer_step api s t"
  shows "peer_inv cap timeout base t"
  using assms(2)
proof (cases rule: peer_step.cases)
  case (deliver e' pick data)
  show ?thesis unfolding deliver(1) by (rule peer_inv_deliver [OF assms(1) deliver(2)])
next
  case (written now pick e')
  then show ?thesis using peer_inv_written [OF assms(1)] by simp
next
  case (returned now pick e')
  then show ?thesis using peer_inv_returned [OF assms(1)] by simp
next
  case closed
  then show ?thesis using peer_inv_close [OF assms(1)] by simp
next
  case (read n r l)
  then show ?thesis using assms(1) by (simp add: peer_inv_def close_ok_def deadline_ok_def Let_def)
next
  case (others n)
  then show ?thesis using assms(1) by (simp add: peer_inv_def Let_def)
qed

interpretation peer_invariant: inductive_invariant "peer_init api cap timeout base" "peer_step api"
    "peer_inv cap timeout base" for api :: "('n, 's, 'h) nats_api" and cap timeout base
  by unfold_locales (rule peer_inv_init, assumption, rule peer_inv_step)

text \<open>Once a peer is closed it stays closed, and its connection sends nothing more.\<close>

definition peer_grows :: "('n, 's, 'l) peer_sys \<Rightarrow> ('n, 's, 'l) peer_sys \<Rightarrow> bool" where
  "peer_grows s t \<longleftrightarrow> (let p = pe_peer (ps_env s); q = pe_peer (ps_env t) in
     (p_closeOnce p \<longrightarrow> p_closeOnce q \<and> c_out (p_conn q) = c_out (p_conn p))
     \<and> (\<exists>xs. wbytes (c_out (p_conn q)) = wbytes (c_out (p_conn p)) @ xs)
     \<and> (\<exists>ds. ps_written t = ps_written s @ ds) \<and> (\<exists>ds. ps_queued t = ps_queued s @ ds))"

lemma peer_grows_trans: "peer_grows s t \<Longrightarrow> peer_grows t u \<Longrightarrow> peer_grows s u"
  by (fastforce simp: peer_grows_def Let_def)

lemma writeMessage_grows:
  assumes "writeMessage now data (p\<lparr>p_writeCh := rest\<rparr>) = (r, p')" "close_ok p"
  shows "p_closeOnce p' = p_closeOnce p"
    "p_closeOnce p \<longrightarrow> c_out (p_conn p') = c_out (p_conn p)"
    "\<exists>xs. wbytes (c_out (p_conn p')) = wbytes (c_out (p_conn p)) @ xs"
  using writeMessage_result [OF assms(1)] assms(2) by (auto simp: peer_frame_def close_ok_def)

lemma peer_grows_turn:
  assumes "close_ok (pe_peer e)" "writeLoop_turn api pick now e = (r, e')"
  shows "(p_closeOnce (pe_peer e) \<longrightarrow> p_closeOnce (pe_peer e') \<and> c_out (p_conn (pe_peer e')) = c_out (p_conn (pe_peer e)))
    \<and> (\<exists>xs. wbytes (c_out (p_conn (pe_peer e'))) = wbytes (c_out (p_conn (pe_peer e))) @ xs)"
proof (cases rule: writeLoop_cases [of api pick now e])
  case (sent data rest p)
  then show ?thesis using assms(2) writeMessage_grows [OF sent(2) assms(1)] by simp
next
  case (broken data rest r p)
  then show ?thesis
    using assms(2) writeMessage_grows [OF broken(2) assms(1)] by (auto simp: Peer_Close_frame Peer_Close_once Let_def)
qed (use assms in auto)

lemma peer_grows_step:
  assumes "peer_inv cap timeout base s" "peer_step api s t"
  shows "peer_grows s t"
proof -
  have c: "close_ok (pe_peer (ps_env s))" using assms(1) by (simp add: peer_inv_def Let_def)
  from assms(2) show ?thesis
  proof (cases rule: peer_step.cases)
    case (deliver e' pick data)
    show ?thesis unfolding deliver(1)
      by (cases rule: handleNATSMessage_cases [of api pick data "ps_env s"])
         (simp_all add: deliver(2) peer_grows_def Peer_Close_frame Peer_Close_once Let_def)
  next
    case (written now pick e')
    then show ?thesis using peer_grows_turn [OF c written(4)] by (simp add: peer_grows_def Let_def)
  next
    case (returned now pick e')
    then show ?thesis using peer_grows_turn [OF c returned(4)] by (simp add: peer_grows_def Let_def)
  qed (simp_all add: peer_grows_def Peer_Close_frame Peer_Close_once Let_def)
qed

interpretation peer_growth: step_guarantee "peer_init api cap timeout base" "peer_step api"
    "peer_inv cap timeout base" peer_grows for api :: "('n, 's, 'h) nats_api" and cap timeout base
proof (unfold_locales, goal_cases)
  case (1 s)
  show ?case by (simp add: peer_grows_def Let_def)
next
  case (2 s t u)
  then show ?case by (rule peer_grows_trans)
next
  case (3 s t)
  then show ?case by (rule peer_grows_step)
qed

section \<open>Properties\<close>

definition ex_conn :: netconn where
  "ex_conn = \<lparr>c_in = \<lparr>rchunks = [], rend = io_EOF\<rparr>, c_out = empty_writer, c_closed = False,
     c_deadline = None, c_wdeadline = None, c_dlplan = [], c_closeErr = None, c_tls = None\<rparr>"

definition ex_peer :: "(unit, unit) Peer" where
  "ex_peer = \<lparr>p_id = replicate 32 1, p_conn = ex_conn, p_pubKeyHex = hex_EncodeToString (replicate 32 1),
     p_subscriber = Some (), p_writeCh = [], p_writeCap = 1, p_closeCh = False, p_closeOnce = False,
     p_writeTimeout = 10, p_lastDeadline = None, p_limiter = ()\<rparr>"

definition ex_sys :: "((string \<times> bytes) list, unit, unit) peer_sys" where
  "ex_sys = \<lparr>ps_env = \<lparr>pe_peer = ex_peer, pe_nats = []\<rparr>, ps_running = True, ps_clock = 0,
     ps_queued = [], ps_written = []\<rparr>"

lemma ex_sys_init: "peer_init ex_nats 1 10 [] ex_sys"
proof -
  have "newPeer ex_nats (\<lambda>_ _. ()) () ex_conn (replicate 32 1) 1 10 () 5 [] = (Ok ex_peer, [])"
    by (simp add: newPeer_def NewSubscriber_def Let_def ex_nats_def ex_peer_def go_return_def)
  moreover have "\<not> c_closed ex_conn" "wbytes (c_out ex_conn) = []"
    by (simp_all add: ex_conn_def empty_writer_def wbytes_def)
  ultimately show ?thesis unfolding peer_init_def
    by (intro conjI exI [of _ "\<lambda>_ _. ()"] exI [of _ "()"] exI [of _ ex_conn] exI [of _ "replicate 32 1"]
        exI [of _ 5] exI [of _ "[]"] exI [of _ ex_peer]) (simp_all add: ex_sys_def)
qed

definition ex_sys_full :: "((string \<times> bytes) list, unit, unit) peer_sys" where
  "ex_sys_full = ex_sys\<lparr>ps_env := \<lparr>pe_peer = ex_peer\<lparr>p_writeCh := [[7, 8]]\<rparr>, pe_nats = []\<rparr>,
     ps_queued := [[7, 8]]\<rparr>"

lemma ex_sys_deliver: "reachable (peer_init ex_nats 1 10 []) (peer_step ex_nats) ex_sys_full"
proof -
  have e: "handleNATSMessage ex_nats False [7, 8] (ps_env ex_sys)
      = \<lparr>pe_peer = ex_peer\<lparr>p_writeCh := [[7, 8]]\<rparr>, pe_nats = []\<rparr>"
    by (simp add: handleNATSMessage_def ex_sys_def ex_peer_def Let_def)
  have "ex_sys_full = ex_sys\<lparr>ps_env := \<lparr>pe_peer = ex_peer\<lparr>p_writeCh := [[7, 8]]\<rparr>, pe_nats = []\<rparr>,
      ps_queued := ps_queued ex_sys @ drop (length (p_writeCh (pe_peer (ps_env ex_sys))))
        (p_writeCh (pe_peer \<lparr>pe_peer = ex_peer\<lparr>p_writeCh := [[7, 8]]\<rparr>, pe_nats = [] :: (string \<times> bytes) list\<rparr>))\<rparr>"
    by (simp add: ex_sys_full_def ex_sys_def ex_peer_def)
  with peer_step.deliver [OF e [symmetric]] have "peer_step ex_nats ex_sys ex_sys_full" by simp
  then show ?thesis by (rule reachable_step [rotated]) (rule reachable_init, rule ex_sys_init)
qed

text \<open>C9: in every interleaving of deliveries, turns of the write loop, reads and closings, what a
  peer has sent on its connection is the frames of the messages it wrote, in the order in which
  they were queued, followed at most by a part of one frame, whose failure has closed the peer;
  messages are neither lost, repeated nor reordered before that, and the queue never exceeds its
  capacity.\<close>
theorem peer_delivers_in_order:
  assumes "reachable (peer_init api cap timeout base) (peer_step api) s"
  shows "let p = pe_peer (ps_env s) in
    \<exists>failed k. ps_queued s = ps_written s @ failed @ p_writeCh p \<and> length failed \<le> 1
      \<and> wbytes (c_out (p_conn p)) = base @ frames (ps_written s) @ take k (frames failed)
      \<and> (failed \<noteq> [] \<longrightarrow> \<not> ps_running s \<and> p_closeOnce p \<and> c_closed (p_conn p))
      \<and> length (p_writeCh p) \<le> cap"
proof -
  have "peer_inv cap timeout base s" using assms by (rule peer_invariant.inv_reachable)
  then show ?thesis by (fastforce simp: peer_inv_def close_ok_def Let_def)
qed

theorem peer_delivers_in_order_witness:
  "\<exists>failed. ps_queued ex_sys_full = ps_written ex_sys_full @ failed @ [[7, 8]] \<and> length failed \<le> 1"
  using peer_delivers_in_order [OF ex_sys_deliver]
  by (auto simp: Let_def ex_sys_full_def ex_sys_def ex_peer_def)

text \<open>C21: closing is final: from any reachable state in which the peer is closed, whatever the
  goroutines do next, it stays closed and not one more byte is sent on its connection.\<close>
theorem peer_close_final:
  assumes "reachable (peer_init api cap timeout base) (peer_step api) s"
    and "p_closeOnce (pe_peer (ps_env s))" "(peer_step api)\<^sup>*\<^sup>* s t"
  shows "p_closeOnce (pe_peer (ps_env t)) \<and> c_closed (p_conn (pe_peer (ps_env t)))
    \<and> c_out (p_conn (pe_peer (ps_env t))) = c_out (p_conn (pe_peer (ps_env s)))"
proof -
  have i: "peer_inv cap timeout base s" using assms(1) by (rule peer_invariant.inv_reachable)
  have "peer_inv cap timeout base t" using assms(3) i by (rule peer_invariant.inv_steps)
  moreover have "peer_grows s t" using assms(3) i by (rule peer_growth.rel_steps)
  ultimately show ?thesis using assms(2) by (auto simp: peer_grows_def peer_inv_def close_ok_def Let_def)
qed

theorem peer_close_final_witness:
  "let s = ex_sys_full\<lparr>ps_env := Peer_Close ex_nats (ps_env ex_sys_full)\<rparr>;
       t = s\<lparr>ps_env := (ps_env s)\<lparr>pe_nats := [(''goro.msg.x'', [1])]\<rparr>\<rparr>
   in c_closed (p_conn (pe_peer (ps_env t))) \<and> c_out (p_conn (pe_peer (ps_env t))) = empty_writer"
proof -
  let ?s = "ex_sys_full\<lparr>ps_env := Peer_Close ex_nats (ps_env ex_sys_full)\<rparr>"
  let ?t = "?s\<lparr>ps_env := (ps_env ?s)\<lparr>pe_nats := [(''goro.msg.x'', [1])]\<rparr>\<rparr>"
  have r: "reachable (peer_init ex_nats 1 10 []) (peer_step ex_nats) ?s"
    using ex_sys_deliver peer_step.closed by (rule reachable_step)
  have c: "p_closeOnce (pe_peer (ps_env ?s))" by (simp add: Peer_Close_once)
  have "(peer_step ex_nats)\<^sup>*\<^sup>* ?s ?t" by (intro r_into_rtranclp peer_step.others)
  from peer_close_final [OF r c this] show ?thesis
    by (simp add: Let_def Peer_Close_frame ex_sys_full_def ex_peer_def ex_conn_def)
qed

text \<open>C23: no message is dropped on the way into the queue of a peer that stays connected: after
  the callback either the message is the last one in the queue, or the peer is closed; and an open
  peer is closed by the callback exactly when its queue is full.\<close>
theorem handleNATSMessage_queues_or_closes:
  assumes "close_ok (pe_peer e)"
  shows "let p = pe_peer e; p' = pe_peer (handleNATSMessage api pick data e) in
    (p_writeCh p' = p_writeCh p @ [data] \<or> p_closeOnce p')
    \<and> (\<not> p_closeOnce p \<longrightarrow> (p_closeOnce p' \<longleftrightarrow> p_writeCap p \<le> length (p_writeCh p)))"
  by (cases rule: handleNATSMessage_cases [of api pick data e])
     (use assms in \<open>auto simp: close_ok_def Let_def Peer_Close_once\<close>)

theorem handleNATSMessage_queues_or_closes_witness:
  "let p = pe_peer (handleNATSMessage ex_nats False [9] (ps_env ex_sys_full))
   in p_writeCh p = [[7, 8], [9]] \<or> p_closeOnce p"
proof -
  have "close_ok (pe_peer (ps_env ex_sys_full))"
    by (simp add: close_ok_def ex_sys_full_def ex_peer_def ex_conn_def)
  from handleNATSMessage_queues_or_closes [OF this, of ex_nats False "[9]"] show ?thesis
    by (simp add: Let_def ex_sys_full_def ex_peer_def)
qed

text \<open>The write loop ends: once a peer is closed, the next turn of its write loop returns,
  whichever case of the \<open>select\<close> is taken; while it is open, a turn waits only on an empty queue.\<close>
theorem writeLoop_stops:
  assumes "close_ok (pe_peer e)"
  shows "(p_closeOnce (pe_peer e) \<longrightarrow> fst (writeLoop_turn api pick now e) = Return)
    \<and> (fst (writeLoop_turn api pick now e) = Waits \<longrightarrow> p_writeCh (pe_peer e) = [])"
proof (cases rule: writeLoop_cases [of api pick now e])
  case (sent data rest p)
  with writeMessage_result(2) [OF sent(2)] assms show ?thesis by (auto simp: close_ok_def)
next
  case waits
  then have "\<not> p_closeCh (pe_peer e) \<and> p_writeCh (pe_peer e) = []"
    by (auto simp: writeLoop_turn_def Let_def split: if_splits list.splits prod.splits res.splits)
  with waits assms show ?thesis by (simp add: close_ok_def)
qed simp_all

theorem writeLoop_stops_witness:
  "fst (writeLoop_turn ex_nats False 5 (Peer_Close ex_nats (ps_env ex_sys_full))) = Return"
proof -
  have "close_ok (pe_peer (ps_env ex_sys_full))"
    by (simp add: close_ok_def ex_sys_full_def ex_peer_def ex_conn_def)
  with writeLoop_stops [of "Peer_Close ex_nats (ps_env ex_sys_full)" ex_nats False 5] show ?thesis
    by (simp add: Peer_Close_ok)
qed

text \<open>C24: renewing the write deadline only every half timeout is enough: whenever \<open>writeMessage\<close>
  succeeds at time \<open>now\<close> on a reachable peer, the deadline under which the frame was written lies at
  least half of the write timeout, and at most the whole of it, after \<open>now\<close>.\<close>
theorem writeMessage_deadline:
  assumes "reachable (peer_init api cap timeout base) (peer_step api) s"
    and "writeMessage now data (pe_peer (ps_env s)) = (Ok (), p')" "ps_clock s \<le> now"
    and "0 \<le> timeout" "timeout \<le> maxDuration"
  shows "\<exists>d. c_wdeadline (p_conn p') = Some d \<and> now + timeout div 2 \<le> d \<and> d \<le> now + timeout"
proof -
  let ?p = "pe_peer (ps_env s)"
  have i: "peer_inv cap timeout base s" using assms(1) by (rule peer_invariant.inv_reachable)
  then have d: "deadline_ok (ps_clock s) ?p" "p_writeTimeout ?p = timeout"
    by (simp_all add: peer_inv_def Let_def)
  obtain p1 where 1: "renewDeadline now ?p = (Ok (), p1)" and
    2: "peerConn (nc_asWriter (ServerMessage_Encode \<lparr>sm_Data = data\<rparr>)) p1 = (Ok (), p')"
    using assms(2) by (auto simp: writeMessage_def go_eq_Ok)
  have "c_wdeadline (p_conn p') = c_wdeadline (p_conn p1)"
    using 2 by (auto simp: peerConn_def go_lift_def split: prod.splits elim!: nc_asWriter_cases)
  with renewDeadline_slack [OF 1 d(1) assms(3)] d(2) assms(4,5) show ?thesis by auto
qed

theorem writeMessage_deadline_witness:
  "\<exists>p' d. writeMessage 100 [7] ex_peer = (Ok (), p') \<and> c_wdeadline (p_conn p') = Some d \<and> 105 \<le> d \<and> d \<le> 110"
proof -
  have r: "reachable (peer_init ex_nats 1 10 []) (peer_step ex_nats) ex_sys"
    using ex_sys_init by (rule reachable_init)
  have e: "pe_peer (ps_env ex_sys) = ex_peer" "ps_clock ex_sys \<le> 100" by (simp_all add: ex_sys_def)
  have "\<exists>p'. writeMessage 100 [7] ex_peer = (Ok (), p')"
    by (simp add: writeMessage_def renewDeadline_def go_bind_def go_get_def go_modify_def wrapf_def
        peerConn_def go_lift_def ex_peer_def ex_conn_def time_Sub_def maxDuration_def
        nc_SetWriteDeadline_def nc_asWriter_def ServerMessage_Encode_def Write_def empty_writer_def sizes)
  then obtain p' where p': "writeMessage 100 [7] ex_peer = (Ok (), p')" ..
  from writeMessage_deadline [OF r p' [folded e(1)] e(2)] p' show ?thesis
    by (simp add: maxDuration_def)
qed

end
