(* ===== verification/Go_FS.thy ===== *)
theory Go_FS
  imports Go_IO
begin

text \<open>
  What the program uses of \<open>path/filepath\<close> (on Unix) and of the file functions of \<open>os\<close>. A file
  system has regular files with content and mode, directories, and faults: for an operation and a
  path, the error the operating system reports (permission denied, disk full). Modes are those
  requested, before the process's umask.
\<close>

section \<open>Paths\<close>

fun split_path :: "string \<Rightarrow> string list" where
  "split_path [] = [[]]"
| "split_path (c # cs) =
     (if c = CHR ''/'' then [] # split_path cs
      else case split_path cs of [] \<Rightarrow> [[c]] | t # ts \<Rightarrow> (c # t) # ts)"

fun clean_parts :: "bool \<Rightarrow> string list \<Rightarrow> string list \<Rightarrow> string list" where
  "clean_parts rooted acc [] = rev acc"
| "clean_parts rooted acc (c # cs) =
     (if c = [] \<or> c = ''.'' then clean_parts rooted acc cs
      else if c = ''..'' then
        (case acc of
           [] \<Rightarrow> clean_parts rooted (if rooted then [] else [''..'']) cs
         | x # xs \<Rightarrow> clean_parts rooted (if x = ''..'' then ''..'' # acc else xs) cs)
      else clean_parts rooted (c # acc) cs)"

definition filepath_Clean :: "string \<Rightarrow> string" where
  "filepath_Clean p =
     (let rooted = (p \<noteq> [] \<and> hd p = CHR ''/'');
          s = strings_Join (clean_parts rooted [] (split_path p)) ''/''
      in if rooted then CHR ''/'' # s else if s = [] then ''.'' else s)"

fun filepath_Join :: "string list \<Rightarrow> string" where
  "filepath_Join [] = []"
| "filepath_Join (e # es) =
     (if e = [] then filepath_Join es else filepath_Clean (strings_Join (e # es) ''/''))"

definition filepath_Dir :: "string \<Rightarrow> string" where
  "filepath_Dir p = filepath_Clean (rev (dropWhile (\<lambda>c. c \<noteq> CHR ''/'') (rev p)))"

text \<open>A clean absolute path, from its components, and every directory on the way to it.\<close>

definition abs_path :: "string list \<Rightarrow> string" where
  "abs_path cs = concat (map (\<lambda>c. CHR ''/'' # c) cs)"

definition good_part :: "string \<Rightarrow> bool" where
  "good_part c \<longleftrightarrow> c \<noteq> [] \<and> c \<noteq> ''.'' \<and> c \<noteq> ''..'' \<and> CHR ''/'' \<notin> set c"

definition path_ancestors :: "string \<Rightarrow> string list" where
  "path_ancestors p =
     (let rooted = (p \<noteq> [] \<and> hd p = CHR ''/''); cs = clean_parts rooted [] (split_path p)
      in map (\<lambda>k. let s = strings_Join (take (Suc k) cs) ''/'' in if rooted then CHR ''/'' # s else s)
           [0..<length cs])"

section \<open>Files\<close>

record fs =
  fs_files :: "string \<rightharpoonup> bytes \<times> nat"
  fs_dirs :: "string \<rightharpoonup> nat"
  fs_fault :: "string \<Rightarrow> string \<Rightarrow> go_error option"

definition os_Stat :: "string \<Rightarrow> (fs, unit) go" where
  "os_Stat p s = (case fs_fault s ''stat'' p of
     Some e \<Rightarrow> (Err e, s)
   | None \<Rightarrow> (if fs_files s p \<noteq> None \<or> fs_dirs s p \<noteq> None then Ok () else Err (Wrapf (''stat '' @ p) os_ErrNotExist), s))"

definition os_ReadFile :: "string \<Rightarrow> (fs, bytes) go" where
  "os_ReadFile p s = (case fs_fault s ''open'' p of
     Some e \<Rightarrow> (Err e, s)
   | None \<Rightarrow> (case fs_files s p of
       Some (d, m) \<Rightarrow> Ok d
     | None \<Rightarrow> if fs_dirs s p \<noteq> None then Err (ErrNew ''is a directory'')
               else Err (Wrapf (''open '' @ p) os_ErrNotExist), s))"

text \<open>Creating or truncating a file; an existing file keeps its mode.\<close>

definition os_Create :: "string \<Rightarrow> nat \<Rightarrow> (fs, unit) go" where
  "os_Create p perm s = (case fs_fault s ''create'' p of
     Some e \<Rightarrow> (Err e, s)
   | None \<Rightarrow>
       if fs_dirs s p \<noteq> None then (Err (ErrNew ''is a directory''), s)
       else if filepath_Dir p \<notin> {''/'', ''.''} \<and> fs_dirs s (filepath_Dir p) = None
       then (Err (Wrapf (''open '' @ p) os_ErrNotExist), s)
       else (Ok (), s\<lparr>fs_files := (fs_files s)(p \<mapsto>
               ([], case fs_files s p of Some (d, m) \<Rightarrow> m | None \<Rightarrow> perm))\<rparr>))"

text \<open>Writing to an open file; a fault leaves what was there.\<close>

definition os_Append :: "string \<Rightarrow> bytes \<Rightarrow> (fs, unit) go" where
  "os_Append p d s = (case fs_fault s ''write'' p of
     Some e \<Rightarrow> (Err e, s)
   | None \<Rightarrow> (case fs_files s p of
       Some (d0, m) \<Rightarrow> (Ok (), s\<lparr>fs_files := (fs_files s)(p \<mapsto> (d0 @ d, m))\<rparr>)
     | None \<Rightarrow> (Err (ErrNew ''file already closed''), s)))"

definition os_WriteFile :: "string \<Rightarrow> bytes \<Rightarrow> nat \<Rightarrow> (fs, unit) go" where
  "os_WriteFile p d perm = go_bind (os_Create p perm) (\<lambda>_. os_Append p d)"

definition add_dir :: "nat \<Rightarrow> string \<Rightarrow> (string \<rightharpoonup> nat) \<Rightarrow> (string \<rightharpoonup> nat)" where
  "add_dir perm d m = (case m d of None \<Rightarrow> m(d \<mapsto> perm) | Some _ \<Rightarrow> m)"

definition os_MkdirAll :: "string \<Rightarrow> nat \<Rightarrow> (fs, unit) go" where
  "os_MkdirAll p perm s = (case fs_fault s ''mkdir'' p of
     Some e \<Rightarrow> (Err e, s)
   | None \<Rightarrow>
       if list_all (\<lambda>d. fs_files s d = None) (path_ancestors p)
       then (Ok (), s\<lparr>fs_dirs := fold (add_dir perm) (path_ancestors p) (fs_dirs s)\<rparr>)
       else (Err (ErrNew ''not a directory''), s))"

text \<open>
  \<open>os.MkdirTemp\<close> with the default directory: the random endings are tried in turn until the name
  is new. The directory has mode \<open>0700\<close>.
\<close>

definition temp_name :: "string \<Rightarrow> string \<Rightarrow> string" where
  "temp_name dir name = (if dir \<noteq> [] \<and> last dir = CHR ''/'' then dir @ name else dir @ ''/'' @ name)"

fun os_MkdirTemp :: "string \<Rightarrow> string \<Rightarrow> string list \<Rightarrow> (fs, string) go" where
  "os_MkdirTemp dir pre [] s = (Err (Wrapf ''mkdirtemp'' os_ErrExist), s)"
| "os_MkdirTemp dir pre (r # rs) s =
     (let p = temp_name dir (pre @ r) in
      case fs_fault s ''mkdir'' p of
        Some e \<Rightarrow> (Err e, s)
      | None \<Rightarrow>
          if fs_files s p \<noteq> None \<or> fs_dirs s p \<noteq> None then os_MkdirTemp dir pre rs s
          else if fs_dirs s dir = None then (Err (Wrapf (''stat '' @ dir) os_ErrNotExist), s)
          else (Ok p, s\<lparr>fs_dirs := (fs_dirs s)(p \<mapsto> 448)\<rparr>))"

text \<open>\<open>os.RemoveAll\<close>: a path and everything below it; that there is nothing is no error.\<close>

definition below :: "string \<Rightarrow> string \<Rightarrow> bool" where
  "below p q \<longleftrightarrow> q = p \<or> prefix (p @ ''/'') q"

definition os_RemoveAll :: "string \<Rightarrow> (fs, unit) go" where
  "os_RemoveAll p s =
     (if p = [] then (Ok (), s)
      else case fs_fault s ''removeall'' p of
        Some e \<Rightarrow> (Err e, s)
      | None \<Rightarrow> (Ok (), s\<lparr>fs_files := (\<lambda>q. if below p q then None else fs_files s q),
                          fs_dirs := (\<lambda>q. if below p q then None else fs_dirs s q)\<rparr>))"

section \<open>Joining clean paths\<close>

lemma split_path_plain: "CHR ''/'' \<notin> set s \<Longrightarrow> split_path s = [s]"
  by (induction s) auto

lemma split_path_slash: "CHR ''/'' \<notin> set c \<Longrightarrow> split_path (c @ CHR ''/'' # s) = c # split_path s"
  by (induction c) auto

lemma split_abs_path:
  "list_all good_part cs \<Longrightarrow> split_path (abs_path cs) = (if cs = [] then [[]] else [] # cs)"
proof (induction cs)
  case (Cons c cs)
  then show ?case
    by (cases cs) (auto simp: abs_path_def good_part_def split_path_plain split_path_slash)
qed (simp add: abs_path_def)

lemma clean_parts_good: "list_all good_part cs \<Longrightarrow> clean_parts r acc cs = rev acc @ cs"
  by (induction cs arbitrary: acc) (auto simp: good_part_def)

lemma Join_abs_path: "cs \<noteq> [] \<Longrightarrow> CHR ''/'' # strings_Join cs ''/'' = abs_path cs"
proof (induction cs)
  case (Cons c cs)
  then show ?case by (cases cs) (simp_all add: abs_path_def)
qed simp

lemma Clean_abs_path: "list_all good_part cs \<Longrightarrow> cs \<noteq> [] \<Longrightarrow> filepath_Clean (abs_path cs) = abs_path cs"
proof -
  assume cs: "list_all good_part cs" "cs \<noteq> []"
  then have "abs_path cs \<noteq> []" "hd (abs_path cs) = CHR ''/''"
    by (cases cs; simp add: abs_path_def)+
  with cs show ?thesis
    by (simp add: filepath_Clean_def split_abs_path clean_parts_good Join_abs_path Let_def)
qed

lemma filepath_Join_abs:
  assumes "list_all good_part (cs @ [c])" "cs \<noteq> []"
  shows "filepath_Join [abs_path cs, c] = abs_path (cs @ [c])"
proof -
  have "abs_path cs \<noteq> []" using assms(2) by (cases cs) (simp_all add: abs_path_def)
  moreover have "strings_Join [abs_path cs, c] ''/'' = abs_path (cs @ [c])"
    by (simp add: abs_path_def)
  ultimately show ?thesis using assms Clean_abs_path [of "cs @ [c]"] by simp
qed

lemma abs_path_inject:
  "list_all good_part cs \<Longrightarrow> list_all good_part ds \<Longrightarrow> abs_path cs = abs_path ds \<longleftrightarrow> cs = ds"
  by (metis list.inject list.distinct(1) split_abs_path)

section \<open>Changes that are confined to a directory\<close>

text \<open>A file system without orphans: below a path that does not exist there is nothing.\<close>

definition no_orphans :: "fs \<Rightarrow> bool" where
  "no_orphans s \<longleftrightarrow> (\<forall>p q. p \<noteq> [] \<longrightarrow> fs_files s p = None \<longrightarrow> fs_dirs s p = None \<longrightarrow> below p q \<longrightarrow>
     fs_files s q = None \<and> fs_dirs s q = None)"

definition same_outside :: "string \<Rightarrow> fs \<Rightarrow> fs \<Rightarrow> bool" where
  "same_outside p s t \<longleftrightarrow> fs_fault t = fs_fault s
     \<and> (\<forall>q. \<not> below p q \<longrightarrow> fs_files t q = fs_files s q \<and> fs_dirs t q = fs_dirs s q)"

lemma below_refl [simp]: "below p p"
  by (simp add: below_def)

lemma same_outside_refl [simp]: "same_outside p s s"
  by (simp add: same_outside_def)

lemma below_abs_path: "below (abs_path cs) (abs_path (cs @ ds))"
  by (cases ds) (auto simp: below_def abs_path_def)

lemma WriteFile_outside [stable_intros]:
  assumes "below p f"
  shows "stable (same_outside p s) (os_WriteFile f d m)"
proof -
  have "stable (same_outside p s) (os_Create f m)" "stable (same_outside p s) (os_Append f d)"
    using assms by (auto simp: stable_def os_Create_def os_Append_def same_outside_def split: option.splits if_splits)
  then show ?thesis unfolding os_WriteFile_def by (intro stable_intros)
qed

lemma RemoveAll_restores:
  assumes "same_outside p s t" "no_orphans s" "fs_files s p = None" "fs_dirs s p = None"
    "p \<noteq> []" "fs_fault s ''removeall'' p = None"
  shows "os_RemoveAll p t = (Ok (), s)"
proof -
  have "fs_files s q = None \<and> fs_dirs s q = None" if "below p q" for q
    using assms(2-5) that unfolding no_orphans_def by blast
  then have "(\<lambda>q. if below p q then None else fs_files t q) = fs_files s"
    "(\<lambda>q. if below p q then None else fs_dirs t q) = fs_dirs s"
    using assms(1) by (auto simp: same_outside_def)
  moreover have "fs_fault t = fs_fault s" using assms(1) by (simp add: same_outside_def)
  ultimately show ?thesis using assms(5,6) by (simp add: os_RemoveAll_def)
qed

lemma MkdirTemp_Ok:
  assumes "os_MkdirTemp dir pre rs s = (Ok p, t)"
  obtains r where "r \<in> set rs" "p = temp_name dir (pre @ r)" "fs_files s p = None" "fs_dirs s p = None"
    "t = s\<lparr>fs_dirs := (fs_dirs s)(p \<mapsto> 448)\<rparr>"
proof -
  have "\<exists>r \<in> set rs. p = temp_name dir (pre @ r) \<and> fs_files s p = None \<and> fs_dirs s p = None
      \<and> t = s\<lparr>fs_dirs := (fs_dirs s)(p \<mapsto> 448)\<rparr>"
    using assms
    by (induction dir pre rs s rule: os_MkdirTemp.induct) (auto simp: Let_def simp del: not_None_eq split: option.splits if_splits)
  with that show thesis by blast
qed

lemma MkdirTemp_Err: "os_MkdirTemp dir pre rs s = (Err e, t) \<Longrightarrow> t = s"
  by (induction dir pre rs s rule: os_MkdirTemp.induct) (auto simp: Let_def split: option.splits if_splits)

lemma MkdirTemp_no_Panic: "os_MkdirTemp dir pre rs s \<noteq> (Panic e, t)"
  by (induction dir pre rs s rule: os_MkdirTemp.induct) (auto simp: Let_def split: option.splits if_splits)

lemma temp_name_abs: "cs \<noteq> [] \<Longrightarrow> list_all good_part cs \<Longrightarrow> temp_name (abs_path cs) c = abs_path (cs @ [c])"
proof -
  assume cs: "cs \<noteq> []" "list_all good_part cs"
  then have "last cs \<noteq> []" "CHR ''/'' \<notin> set (last cs)" by (auto simp: list_all_iff good_part_def)
  then have "last (last cs) \<noteq> CHR ''/''" by (metis last_in_set)
  with \<open>last cs \<noteq> []\<close> have "last (abs_path cs) \<noteq> CHR ''/''"
    using cs(1) by (cases cs rule: rev_cases) (auto simp: abs_path_def)
  then show ?thesis by (simp add: temp_name_def abs_path_def)
qed

end
