(* ===== verification/Identity.thy ===== *)
theory Identity
  imports Go_FS
begin

text \<open>
  Client identities, \<open>src/pkg/identity/keypair.go\<close>: key pairs and their files. Key generation
  (\<open>ed25519.GenerateKey\<close>) and signing are arguments; \<open>PrivateKey.Public\<close> returns the second half
  of the 64-byte private key, as the package \<open>crypto/ed25519\<close> defines it.
\<close>

section \<open>Operations\<close>

record KeyPair =
  kp_PublicKey :: bytes
  kp_PrivateKey :: bytes

definition ed25519_PrivateKeySize :: nat where
  "ed25519_PrivateKeySize = 64"

definition priv_Public :: "bytes \<Rightarrow> bytes" where
  "priv_Public priv = drop 32 priv"

definition Generate :: "(bytes \<times> bytes) res \<Rightarrow> (fs, KeyPair) go" where
  "Generate gen s = (case gen of
     Ok (pub, priv) \<Rightarrow> (Ok \<lparr>kp_PublicKey = pub, kp_PrivateKey = priv\<rparr>, s)
   | Err e \<Rightarrow> (Err (Wrapf ''generate ed25519 key'' e), s)
   | Panic p \<Rightarrow> (Panic p, s))"

definition LoadFromFile :: "string \<Rightarrow> (fs, KeyPair) go" where
  "LoadFromFile path =
     go_bind (wrapf ''read key file'' (os_ReadFile path)) (\<lambda>data.
     go_bind (go_guard (length data = ed25519_PrivateKeySize)
                (Errorf ''invalid key file size: expected %d, got %d''
                  [int ed25519_PrivateKeySize, int (length data)])) (\<lambda>_.
     go_return \<lparr>kp_PublicKey = priv_Public data, kp_PrivateKey = data\<rparr>))"

text \<open>The modes are \<open>0700\<close> and \<open>0600\<close>.\<close>

definition SaveToFile :: "KeyPair \<Rightarrow> string \<Rightarrow> (fs, unit) go" where
  "SaveToFile k path =
     go_bind (wrapf ''create key directory'' (os_MkdirAll (filepath_Dir path) 448)) (\<lambda>_.
     wrapf ''write key file'' (os_WriteFile path (kp_PrivateKey k) 384))"

definition LoadOrGenerate :: "(bytes \<times> bytes) res \<Rightarrow> string \<Rightarrow> (fs, KeyPair) go" where
  "LoadOrGenerate gen path s =
     (case LoadFromFile path s of
        (Ok kp, s) \<Rightarrow> (Ok kp, s)
      | (Err e, s) \<Rightarrow>
          if \<not> errors_is e os_ErrNotExist then (Err e, s)
          else go_bind (Generate gen) (\<lambda>kp. go_bind (SaveToFile kp path) (\<lambda>_. go_return kp)) s
      | (Panic p, s) \<Rightarrow> (Panic p, s))"

definition PublicKeyHex :: "KeyPair \<Rightarrow> string" where
  "PublicKeyHex k = hex_EncodeToString (kp_PublicKey k)"

definition Sign :: "(bytes \<Rightarrow> bytes \<Rightarrow> bytes) \<Rightarrow> KeyPair \<Rightarrow> bytes \<Rightarrow> bytes" where
  "Sign ed_sign k data = ed_sign (kp_PrivateKey k) data"

section \<open>Lemmas\<close>

text \<open>The documented form of generated keys: the private key ends in the public key.\<close>

definition gen_ok :: "(bytes \<times> bytes) res \<Rightarrow> bool" where
  "gen_ok gen \<longleftrightarrow> (\<forall>pub priv. gen = Ok (pub, priv) \<longrightarrow>
     length pub = 32 \<and> length priv = ed25519_PrivateKeySize \<and> priv_Public priv = pub)"

definition keypair_ok :: "KeyPair \<Rightarrow> bool" where
  "keypair_ok k \<longleftrightarrow> length (kp_PrivateKey k) = ed25519_PrivateKeySize
     \<and> kp_PublicKey k = priv_Public (kp_PrivateKey k)"

lemma os_ReadFile_state: "os_ReadFile p s = (r, t) \<Longrightarrow> t = s"
  by (auto simp: os_ReadFile_def split: option.splits)

lemma LoadFromFile_keeps: "keeps (\<lambda>s. s) (LoadFromFile path)"
  unfolding LoadFromFile_def
  by (intro keeps_intros keepsI) (auto dest: os_ReadFile_state)

lemma LoadFromFile_keypair: "LoadFromFile path s = (Ok k, t) \<Longrightarrow> keypair_ok k"
  by (auto simp: LoadFromFile_def go_eq_Ok go_return_def keypair_ok_def split: if_splits)

lemma os_WriteFile_Ok:
  assumes "os_WriteFile p d perm s = (Ok (), t)"
  shows "t = s\<lparr>fs_files := (fs_files s)(p \<mapsto> (d, case fs_files s p of Some (d0, m) \<Rightarrow> m | None \<Rightarrow> perm))\<rparr>"
    "fs_dirs s p = None"
proof -
  obtain s1 where 1: "os_Create p perm s = (Ok (), s1)" and 2: "os_Append p d s1 = (Ok (), t)"
    using assms by (auto simp: os_WriteFile_def go_eq_Ok)
  have s1: "s1 = s\<lparr>fs_files := (fs_files s)(p \<mapsto> ([], case fs_files s p of Some (d, m) \<Rightarrow> m | None \<Rightarrow> perm))\<rparr>"
    and d: "fs_dirs s p = None"
    using 1 by (auto simp: os_Create_def split: option.splits if_splits)
  show "fs_dirs s p = None" by (rule d)
  show "t = s\<lparr>fs_files := (fs_files s)(p \<mapsto> (d, case fs_files s p of Some (d0, m) \<Rightarrow> m | None \<Rightarrow> perm))\<rparr>"
    using 2 by (auto simp: os_Append_def s1 split: option.splits if_splits)
qed

lemma os_MkdirAll_files: "os_MkdirAll p perm s = (r, t) \<Longrightarrow> fs_files t = fs_files s \<and> fs_fault t = fs_fault s"
  by (auto simp: os_MkdirAll_def split: option.splits if_splits)

lemma SaveToFile_Ok:
  assumes "SaveToFile k path s = (Ok (), t)"
  shows "fs_files t path = Some (kp_PrivateKey k, case fs_files s path of Some (d, m) \<Rightarrow> m | None \<Rightarrow> 384)"
    "fs_fault t = fs_fault s" "\<And>q. q \<noteq> path \<Longrightarrow> fs_files t q = fs_files s q"
proof -
  obtain s1 where 1: "os_MkdirAll (filepath_Dir path) 448 s = (Ok (), s1)"
    and 2: "os_WriteFile path (kp_PrivateKey k) 384 s1 = (Ok (), t)"
    using assms by (auto simp: SaveToFile_def go_eq_Ok)
  note f = os_MkdirAll_files [OF 1] os_WriteFile_Ok(1) [OF 2]
  then show "fs_files t path = Some (kp_PrivateKey k, case fs_files s path of Some (d, m) \<Rightarrow> m | None \<Rightarrow> 384)"
    "fs_fault t = fs_fault s" "\<And>q. q \<noteq> path \<Longrightarrow> fs_files t q = fs_files s q"
    by simp_all
qed

lemma LoadFromFile_file:
  assumes "fs_files s path = Some (d, m)" "fs_fault s ''open'' path = None"
    "length d = ed25519_PrivateKeySize"
  shows "LoadFromFile path s = (Ok \<lparr>kp_PublicKey = priv_Public d, kp_PrivateKey = d\<rparr>, s)"
  using assms by (simp add: LoadFromFile_def os_ReadFile_def go_return_def wrapf_def go_bind_def)

lemma LoadFromFile_NotExist:
  assumes "LoadFromFile path s = (Err e, t)" "errors_is e os_ErrNotExist"
  shows "fs_files s path = None \<or> fs_fault s ''open'' path \<noteq> None"
  using assms by (auto simp: LoadFromFile_def os_ReadFile_def wrapf_def go_bind_def go_return_def
      os_ErrNotExist_def split: option.splits if_splits prod.splits)

lemma LoadOrGenerate_cases:
  assumes "LoadOrGenerate gen path s = (Ok k, t)"
  obtains (loaded) "LoadFromFile path s = (Ok k, s)" "t = s"
    | (made) e where "LoadFromFile path s = (Err e, s)" "errors_is e os_ErrNotExist"
      "gen = Ok (kp_PublicKey k, kp_PrivateKey k)" "SaveToFile k path s = (Ok (), t)"
proof -
  obtain r s1 where l: "LoadFromFile path s = (r, s1)" by (metis surj_pair)
  have s1: "s1 = s" using keepsD [OF LoadFromFile_keeps l] .
  show thesis
  proof (cases r)
    case (Ok k')
    with l s1 assms show thesis by (intro loaded) (auto simp: LoadOrGenerate_def)
  next
    case (Err e)
    with l s1 assms show thesis
      by (intro made [of e]) (auto simp: LoadOrGenerate_def Generate_def go_eq_Ok go_return_def
          split: if_splits res.splits)
  next
    case (Panic p)
    with l assms show thesis by (simp add: LoadOrGenerate_def)
  qed
qed

section \<open>Properties\<close>

definition ex_fs :: fs where
  "ex_fs = \<lparr>fs_files = Map.empty, fs_dirs = Map.empty, fs_fault = (\<lambda>_ _. None)\<rparr>"

definition ex_gen :: "(bytes \<times> bytes) res" where
  "ex_gen = Ok (replicate 32 2, replicate 32 1 @ replicate 32 2)"

lemma ex_generated:
  "\<exists>t. LoadOrGenerate ex_gen ''/k'' ex_fs = (Ok \<lparr>kp_PublicKey = replicate 32 2,
     kp_PrivateKey = replicate 32 1 @ replicate 32 2\<rparr>, t)"
  by (simp add: LoadOrGenerate_def LoadFromFile_def os_ReadFile_def ex_fs_def wrapf_def go_bind_def
      os_ErrNotExist_def Generate_def ex_gen_def SaveToFile_def os_MkdirAll_def filepath_Dir_def
      filepath_Clean_def path_ancestors_def os_WriteFile_def os_Create_def os_Append_def go_return_def Let_def)

text \<open>C36: an identity is stable: once \<open>LoadOrGenerate\<close> has returned a key pair, its public key is
  the one of its private key, and every later call on the same path returns the same pair and
  leaves the file system as it is, whatever key the generator would make then.\<close>
theorem LoadOrGenerate_persistent:
  assumes "gen_ok gen" "fs_fault s ''open'' path = None" "LoadOrGenerate gen path s = (Ok k, t)"
  shows "keypair_ok k \<and> LoadOrGenerate gen' path t = (Ok k, t)"
  using assms(3)
proof (cases rule: LoadOrGenerate_cases)
  case loaded
  then show ?thesis using LoadFromFile_keypair [OF loaded(1)] by (simp add: LoadOrGenerate_def)
next
  case (made e)
  from assms(1) made(3) have k: "keypair_ok k" by (auto simp: gen_ok_def keypair_ok_def)
  note w = SaveToFile_Ok [OF made(4)]
  from w(1,2) assms(2) have "LoadFromFile path t
      = (Ok \<lparr>kp_PublicKey = priv_Public (kp_PrivateKey k), kp_PrivateKey = kp_PrivateKey k\<rparr>, t)"
    using k by (intro LoadFromFile_file) (auto simp: keypair_ok_def)
  moreover have "\<lparr>kp_PublicKey = priv_Public (kp_PrivateKey k), kp_PrivateKey = kp_PrivateKey k\<rparr> = k"
    using k by (cases k) (simp add: keypair_ok_def)
  ultimately show ?thesis using k by (simp add: LoadOrGenerate_def)
qed

theorem LoadOrGenerate_persistent_witness:
  "\<exists>t. LoadOrGenerate (Err (ErrNew ''no entropy'')) ''/k'' t
        = (Ok \<lparr>kp_PublicKey = replicate 32 2, kp_PrivateKey = replicate 32 1 @ replicate 32 2\<rparr>, t)"
proof -
  obtain t where t: "LoadOrGenerate ex_gen ''/k'' ex_fs = (Ok \<lparr>kp_PublicKey = replicate 32 2,
     kp_PrivateKey = replicate 32 1 @ replicate 32 2\<rparr>, t)"
    using ex_generated by blast
  have "gen_ok ex_gen" by (simp add: gen_ok_def ex_gen_def ed25519_PrivateKeySize_def priv_Public_def)
  moreover have "fs_fault ex_fs ''open'' ''/k'' = None" by (simp add: ex_fs_def)
  ultimately show ?thesis using LoadOrGenerate_persistent [OF _ _ t] by blast
qed

text \<open>Keys are not lost: \<open>LoadOrGenerate\<close> never changes a key file that can be opened, not even
  one with a wrong size, never changes another file, and a new key file is readable by its owner
  only.\<close>
theorem LoadOrGenerate_keeps_files:
  assumes "fs_fault s ''open'' path = None" "LoadOrGenerate gen path s = (r, t)"
  shows "(fs_files s path \<noteq> None \<longrightarrow> t = s)
    \<and> (\<forall>q. q \<noteq> path \<longrightarrow> fs_files t q = fs_files s q)
    \<and> (\<forall>k. r = Ok k \<and> fs_files s path = None \<longrightarrow> fs_files t path = Some (kp_PrivateKey k, 384))"
proof -
  obtain r1 s1 where l: "LoadFromFile path s = (r1, s1)" by (metis surj_pair)
  have s1: "s1 = s" using keepsD [OF LoadFromFile_keeps l] .
  have kept: "t = s" if "fs_files s path \<noteq> None"
  proof (cases r1)
    case (Err e)
    have "\<not> errors_is e os_ErrNotExist"
      using LoadFromFile_NotExist [of path s e s1] l Err assms(1) that by auto
    with l s1 Err assms(2) show ?thesis by (simp add: LoadOrGenerate_def)
  qed (use l s1 assms(2) in \<open>simp_all add: LoadOrGenerate_def\<close>)
  have "fs_files t q = fs_files s q" if "q \<noteq> path" for q
  proof (cases "t = s")
    case False
    then obtain kp r2 where "SaveToFile kp path s = (r2, t)"
      using l s1 assms(2)
      by (cases r1) (auto simp: LoadOrGenerate_def Generate_def go_bind_def go_return_def
          split: if_splits res.splits prod.splits)
    then show ?thesis using that
      by (auto simp: SaveToFile_def go_bind_def wrapf_def os_WriteFile_def os_Create_def os_Append_def
          dest!: os_MkdirAll_files split: prod.splits res.splits option.splits if_splits)
  qed simp
  moreover have "fs_files t path = Some (kp_PrivateKey k, 384)" if "r = Ok k" "fs_files s path = None" for k
    using assms(2) unfolding that(1)
  proof (cases rule: LoadOrGenerate_cases)
    case loaded
    then show ?thesis using that(2) assms(1)
      by (auto simp: LoadFromFile_def go_eq_Ok os_ReadFile_def split: if_splits)
  next
    case (made e)
    then show ?thesis using SaveToFile_Ok(1) [OF made(4)] that(2) by simp
  qed
  ultimately show ?thesis using kept by blast
qed

theorem LoadOrGenerate_keeps_files_witness:
  "snd (LoadOrGenerate ex_gen ''/k'' (ex_fs\<lparr>fs_files := [''/k'' \<mapsto> ([1, 2], 420)]\<rparr>))
     = ex_fs\<lparr>fs_files := [''/k'' \<mapsto> ([1, 2], 420)]\<rparr>"
proof -
  let ?s = "ex_fs\<lparr>fs_files := [''/k'' \<mapsto> ([1, 2], 420)]\<rparr>"
  obtain r t where t: "LoadOrGenerate ex_gen ''/k'' ?s = (r, t)" by (metis surj_pair)
  have "fs_fault ?s ''open'' ''/k'' = None" "fs_files ?s ''/k'' \<noteq> None" by (simp_all add: ex_fs_def)
  with LoadOrGenerate_keeps_files [OF _ t] t show ?thesis by simp
qed

end
