(* ===== verification/Appdir.thy ===== *)
theory Appdir
  imports Go_FS
begin

text \<open>
  The application directory, package \<open>src/internal/appdir\<close>: its paths (\<open>appdir.go\<close>), the default
  configuration (\<open>defaults.go\<close>) and the self-signed certificate (\<open>certs.go\<close>). The XDG
  configuration directory, the embedded configuration text and the cryptographic functions of the
  standard library are arguments.
\<close>

section \<open>Paths\<close>

definition appName :: string where
  "appName = ''sprut''"

definition Dir :: "string \<Rightarrow> string" where
  "Dir home = filepath_Join [home, appName]"

definition ConfigPath :: "string \<Rightarrow> string" where
  "ConfigPath home = filepath_Join [Dir home, ''config.yaml'']"

definition CertsDir :: "string \<Rightarrow> string" where
  "CertsDir home = filepath_Join [Dir home, ''certs'']"

definition LogsDir :: "string \<Rightarrow> string" where
  "LogsDir home = filepath_Join [Dir home, ''logs'']"

definition CertPath :: "string \<Rightarrow> string" where
  "CertPath home = filepath_Join [CertsDir home, ''server.crt'']"

definition KeyPath :: "string \<Rightarrow> string" where
  "KeyPath home = filepath_Join [CertsDir home, ''server.key'']"

definition LogFilePath :: "string \<Rightarrow> string" where
  "LogFilePath home = filepath_Join [LogsDir home, ''sprut.log'']"

section \<open>The self-signed certificate\<close>

datatype key_usage = KeyUsageKeyEncipherment | KeyUsageDigitalSignature
datatype ext_key_usage = ExtKeyUsageServerAuth

record cert_template =
  ct_SerialNumber :: int
  ct_Organization :: "string list"
  ct_CommonName :: string
  ct_NotBefore :: int
  ct_NotAfter :: int
  ct_KeyUsage :: "key_usage set"
  ct_ExtKeyUsage :: "ext_key_usage list"
  ct_BasicConstraintsValid :: bool
  ct_DNSNames :: "string list"
  ct_IPAddresses :: "string list"

text \<open>
  The environment: key generation, the random serial number below the given bound, the time and the
  same time one year later, signing the template with its own key, and the encodings.
\<close>

record 'k cert_env =
  ce_GenerateKey :: "'k res"
  ce_rand_Int :: "int \<Rightarrow> int res"
  ce_now :: int
  ce_inOneYear :: int
  ce_CreateCertificate :: "cert_template \<Rightarrow> 'k \<Rightarrow> bytes res"
  ce_MarshalECPrivateKey :: "'k \<Rightarrow> bytes res"
  ce_pem :: "string \<Rightarrow> bytes \<Rightarrow> bytes"

definition ret :: "'a res \<Rightarrow> (fs, 'a) go" where
  "ret r s = (r, s)"

definition cert_template_for :: "int \<Rightarrow> int \<Rightarrow> int \<Rightarrow> cert_template" where
  "cert_template_for serialNumber now later = \<lparr>ct_SerialNumber = serialNumber,
     ct_Organization = [''Sprut Self-Signed''], ct_CommonName = ''localhost'', ct_NotBefore = now,
     ct_NotAfter = later, ct_KeyUsage = {KeyUsageKeyEncipherment, KeyUsageDigitalSignature},
     ct_ExtKeyUsage = [ExtKeyUsageServerAuth], ct_BasicConstraintsValid = True,
     ct_DNSNames = [''localhost''], ct_IPAddresses = [''127.0.0.1'', ''::1'']\<rparr>"

text \<open>The modes are \<open>0644\<close> for the certificate and \<open>0600\<close> for the key.\<close>

definition generateSelfSignedCert :: "'k cert_env \<Rightarrow> string \<Rightarrow> string \<Rightarrow> (fs, unit) go" where
  "generateSelfSignedCert E certPath keyPath =
     go_bind (wrapf ''generate private key'' (ret (ce_GenerateKey E))) (\<lambda>privateKey.
     go_bind (wrapf ''generate serial number'' (ret (ce_rand_Int E (2 ^ 128)))) (\<lambda>serialNumber.
     go_bind (wrapf ''create certificate''
        (ret (ce_CreateCertificate E (cert_template_for serialNumber (ce_now E) (ce_inOneYear E)) privateKey))) (\<lambda>certDER.
     go_bind (wrapf ''create cert file'' (os_Create certPath 420)) (\<lambda>_.
     go_bind (wrapf ''encode certificate'' (os_Append certPath (ce_pem E ''CERTIFICATE'' certDER))) (\<lambda>_.
     go_bind (wrapf ''create key file'' (os_Create keyPath 384)) (\<lambda>_.
     go_bind (wrapf ''marshal private key'' (ret (ce_MarshalECPrivateKey E privateKey))) (\<lambda>keyDER.
     wrapf ''encode private key'' (os_Append keyPath (ce_pem E ''EC PRIVATE KEY'' keyDER)))))))))"

section \<open>Initialisation\<close>

definition writeDefaultConfig :: "bytes \<Rightarrow> string \<Rightarrow> (fs, unit) go" where
  "writeDefaultConfig defaultConfigYAML path =
     wrapf ''write default config'' (os_WriteFile path defaultConfigYAML 420)"

definition DefaultConfigYAML :: "bytes \<Rightarrow> bytes" where
  "DefaultConfigYAML defaultConfigYAML = defaultConfigYAML"

definition ensureDefaultConfig :: "bytes \<Rightarrow> string \<Rightarrow> (fs, unit) go" where
  "ensureDefaultConfig yaml home s =
     (let configPath = ConfigPath home in
      case os_Stat configPath s of
        (Ok _, s) \<Rightarrow> (Ok (), s)
      | (_, s) \<Rightarrow> writeDefaultConfig yaml configPath s)"

definition ensureCerts :: "'k cert_env \<Rightarrow> string \<Rightarrow> (fs, unit) go" where
  "ensureCerts E home s =
     (let certPath = CertPath home; keyPath = KeyPath home;
          (certErr, s) = os_Stat certPath s; (keyErr, s) = os_Stat keyPath s
      in if certErr = Ok () \<and> keyErr = Ok () then (Ok (), s)
         else generateSelfSignedCert E certPath keyPath s)"

fun makeDirs :: "string list \<Rightarrow> (fs, unit) go" where
  "makeDirs [] = go_return ()"
| "makeDirs (dir # dirs) =
     go_bind (wrapf (''create directory '' @ dir) (os_MkdirAll dir 448)) (\<lambda>_. makeDirs dirs)"

definition Init :: "bytes \<Rightarrow> 'k cert_env \<Rightarrow> string \<Rightarrow> (fs, unit) go" where
  "Init yaml E home =
     go_bind (makeDirs [Dir home, CertsDir home, LogsDir home]) (\<lambda>_.
     go_bind (wrapf ''ensure default config'' (ensureDefaultConfig yaml home)) (\<lambda>_.
     wrapf ''ensure certificates'' (ensureCerts E home)))"

section \<open>Lemmas\<close>

definition home_ok :: "string list \<Rightarrow> bool" where
  "home_ok cs \<longleftrightarrow> cs \<noteq> [] \<and> list_all good_part cs"

lemma app_paths:
  assumes "home_ok cs"
  shows "Dir (abs_path cs) = abs_path (cs @ [''sprut''])"
    "ConfigPath (abs_path cs) = abs_path (cs @ [''sprut'', ''config.yaml''])"
    "CertsDir (abs_path cs) = abs_path (cs @ [''sprut'', ''certs''])"
    "LogsDir (abs_path cs) = abs_path (cs @ [''sprut'', ''logs''])"
    "CertPath (abs_path cs) = abs_path (cs @ [''sprut'', ''certs'', ''server.crt''])"
    "KeyPath (abs_path cs) = abs_path (cs @ [''sprut'', ''certs'', ''server.key''])"
    "LogFilePath (abs_path cs) = abs_path (cs @ [''sprut'', ''logs'', ''sprut.log''])"
proof -
  note j = filepath_Join_abs [of "cs @ _"]
  have 1: "Dir (abs_path cs) = abs_path (cs @ [''sprut''])"
    using assms filepath_Join_abs [of cs] by (simp add: Dir_def home_ok_def appName_def good_part_def del: filepath_Join.simps)
  have 2: "filepath_Join [abs_path (cs @ xs), c] = abs_path (cs @ xs @ [c])"
    if "list_all good_part (xs @ [c])" for xs c
    using j [of xs c] assms that by (simp add: home_ok_def del: filepath_Join.simps)
  show "Dir (abs_path cs) = abs_path (cs @ [''sprut''])" by (rule 1)
  show "ConfigPath (abs_path cs) = abs_path (cs @ [''sprut'', ''config.yaml''])"
    using 2 [of "[''sprut'']"] by (simp add: ConfigPath_def CertsDir_def LogsDir_def 1 good_part_def del: filepath_Join.simps)
  show c: "CertsDir (abs_path cs) = abs_path (cs @ [''sprut'', ''certs''])"
    using 2 [of "[''sprut'']"] by (simp add: ConfigPath_def CertsDir_def LogsDir_def 1 good_part_def del: filepath_Join.simps)
  show l: "LogsDir (abs_path cs) = abs_path (cs @ [''sprut'', ''logs''])"
    using 2 [of "[''sprut'']"] by (simp add: ConfigPath_def CertsDir_def LogsDir_def 1 good_part_def del: filepath_Join.simps)
  show "CertPath (abs_path cs) = abs_path (cs @ [''sprut'', ''certs'', ''server.crt''])"
    "KeyPath (abs_path cs) = abs_path (cs @ [''sprut'', ''certs'', ''server.key''])"
    using 2 [of "[''sprut'', ''certs'']"] by (simp_all add: CertPath_def KeyPath_def c good_part_def del: filepath_Join.simps)
  show "LogFilePath (abs_path cs) = abs_path (cs @ [''sprut'', ''logs'', ''sprut.log''])"
    using 2 [of "[''sprut'', ''logs'']"] by (simp add: LogFilePath_def l good_part_def del: filepath_Join.simps)
qed

lemma path_ancestors_abs:
  assumes "list_all good_part cs" "cs \<noteq> []"
  shows "path_ancestors (abs_path cs) = map (\<lambda>k. abs_path (take (Suc k) cs)) [0..<length cs]"
proof -
  have "abs_path cs \<noteq> []" "hd (abs_path cs) = CHR ''/''"
    using assms(2) by (cases cs; simp add: abs_path_def)+
  then show ?thesis
    using assms by (auto simp: path_ancestors_def split_abs_path clean_parts_good Let_def Join_abs_path)
qed

definition exists_file :: "fs \<Rightarrow> string \<Rightarrow> bool" where
  "exists_file s p \<longleftrightarrow> fs_files s p \<noteq> None"

lemma Create_Ok:
  assumes "os_Create p perm s = (Ok (), t)"
  shows "\<exists>m. t = s\<lparr>fs_files := (fs_files s)(p \<mapsto> ([], m))\<rparr> \<and> (fs_files s p = None \<longrightarrow> m = perm)"
  using assms by (auto simp: os_Create_def split: option.splits if_splits)

lemma Append_Ok:
  assumes "os_Append p d s = (Ok (), t)"
  shows "\<exists>d' m. fs_files s p = Some (d', m) \<and> t = s\<lparr>fs_files := (fs_files s)(p \<mapsto> (d' @ d, m))\<rparr>"
  using assms by (auto simp: os_Append_def split: option.splits if_splits)

lemma generate_Ok:
  assumes "generateSelfSignedCert E cp kp s = (Ok (), t)" "cp \<noteq> kp"
  shows "\<exists>c k. t = s\<lparr>fs_files := (fs_files s)(cp \<mapsto> c, kp \<mapsto> k)\<rparr> \<and> (fs_files s kp = None \<longrightarrow> snd k = 384)"
proof -
  obtain s1 s2 s3 cd kd where "os_Create cp 420 s = (Ok (), s1)" "os_Append cp cd s1 = (Ok (), s2)"
    "os_Create kp 384 s2 = (Ok (), s3)" "os_Append kp kd s3 = (Ok (), t)"
    using assms(1) by (auto simp: generateSelfSignedCert_def go_eq_Ok ret_def)
  from Create_Ok [OF this(1)] Append_Ok [OF this(2)] Create_Ok [OF this(3)] Append_Ok [OF this(4)]
  obtain m m' where t: "t = s\<lparr>fs_files := (fs_files s)(cp \<mapsto> (cd, m), kp \<mapsto> (kd, m'))\<rparr>"
    and m': "fs_files s kp = None \<longrightarrow> m' = 384"
    using assms(2) by auto
  show ?thesis by (intro exI [of _ "(cd, m)"] exI [of _ "(kd, m')"] conjI) (use t m' in simp_all)
qed

lemma os_Stat_state: "os_Stat p s = (r, t) \<Longrightarrow> t = s"
  by (auto simp: os_Stat_def split: option.splits)

lemma ensureCerts_Ok:
  assumes "ensureCerts E home s = (Ok (), t)" "CertPath home \<noteq> KeyPath home"
  shows "t = s \<and> fst (os_Stat (CertPath home) s) = Ok () \<and> fst (os_Stat (KeyPath home) s) = Ok ()
    \<or> (\<exists>c k. t = s\<lparr>fs_files := (fs_files s)(CertPath home \<mapsto> c, KeyPath home \<mapsto> k)\<rparr>)"
proof -
  obtain c k where st: "os_Stat (CertPath home) s = (c, s)" "os_Stat (KeyPath home) s = (k, s)"
    by (metis os_Stat_state surj_pair)
  show ?thesis
  proof (cases "c = Ok () \<and> k = Ok ()")
    case True
    with st assms(1) show ?thesis by (simp add: ensureCerts_def)
  next
    case False
    with st have "ensureCerts E home s = generateSelfSignedCert E (CertPath home) (KeyPath home) s"
      by (auto simp: ensureCerts_def)
    with generate_Ok [of E "CertPath home" "KeyPath home" s t] assms show ?thesis by auto
  qed
qed

lemma ensureDefaultConfig_Ok:
  assumes "ensureDefaultConfig yaml home s = (Ok (), t)"
  shows "t = s \<and> fst (os_Stat (ConfigPath home) s) = Ok ()
    \<or> (\<exists>m. t = s\<lparr>fs_files := (fs_files s)(ConfigPath home \<mapsto> (yaml, m))\<rparr>)"
proof (cases "fst (os_Stat (ConfigPath home) s) = Ok ()")
  case True
  with assms show ?thesis
    by (auto simp: ensureDefaultConfig_def os_Stat_def Let_def split: option.splits if_splits)
next
  case False
  have "ensureDefaultConfig yaml home s = writeDefaultConfig yaml (ConfigPath home) s"
    using False by (auto simp: ensureDefaultConfig_def os_Stat_def Let_def split: option.splits)
  with assms have "writeDefaultConfig yaml (ConfigPath home) s = (Ok (), t)" by simp
  then obtain s1 where "os_Create (ConfigPath home) 420 s = (Ok (), s1)"
    "os_Append (ConfigPath home) yaml s1 = (Ok (), t)"
    by (auto simp: writeDefaultConfig_def os_WriteFile_def go_eq_Ok)
  from Create_Ok [OF this(1)] Append_Ok [OF this(2)] show ?thesis by auto
qed

lemma add_dirs_mono: "m d \<noteq> None \<Longrightarrow> fold (add_dir perm) ps m d = m d"
  by (induction ps arbitrary: m) (auto simp: add_dir_def split: option.splits)

lemma add_dirs_all: "d \<in> set ps \<Longrightarrow> fold (add_dir perm) ps m d \<noteq> None"
proof (induction ps arbitrary: m)
  case (Cons p ps)
  have "add_dir perm p m p \<noteq> None" by (simp add: add_dir_def split: option.split)
  with Cons add_dirs_mono [of "add_dir perm p m" p perm ps] show ?case by (auto simp del: not_None_eq)
qed simp

lemma add_dirs_none: "\<forall>d \<in> set ps. m d \<noteq> None \<Longrightarrow> fold (add_dir perm) ps m = m"
  by (induction ps) (auto simp: add_dir_def)

lemma mkdir_Ok:
  assumes "os_MkdirAll p perm s = (Ok (), t)"
  shows "t = s\<lparr>fs_dirs := fs_dirs t\<rparr>"
    "\<forall>d \<in> set (path_ancestors p). fs_dirs t d \<noteq> None \<and> fs_files s d = None"
    "\<forall>d. fs_dirs s d \<noteq> None \<longrightarrow> fs_dirs t d = fs_dirs s d"
proof -
  have t: "t = s\<lparr>fs_dirs := fold (add_dir perm) (path_ancestors p) (fs_dirs s)\<rparr>"
    and f: "list_all (\<lambda>d. fs_files s d = None) (path_ancestors p)"
    using assms by (auto simp: os_MkdirAll_def split: option.splits if_splits)
  show "t = s\<lparr>fs_dirs := fs_dirs t\<rparr>" by (simp add: t)
  show "\<forall>d \<in> set (path_ancestors p). fs_dirs t d \<noteq> None \<and> fs_files s d = None"
    using f add_dirs_all by (simp add: t list_all_iff del: not_None_eq)
  show "\<forall>d. fs_dirs s d \<noteq> None \<longrightarrow> fs_dirs t d = fs_dirs s d"
    using add_dirs_mono by (simp add: t del: not_None_eq)
qed

lemma mkdir_again:
  assumes "fs_fault s ''mkdir'' p = None" "\<forall>d \<in> set (path_ancestors p). fs_dirs s d \<noteq> None \<and> fs_files s d = None"
  shows "os_MkdirAll p perm s = (Ok (), s)"
proof -
  have "list_all (\<lambda>d. fs_files s d = None) (path_ancestors p)" using assms(2) by (simp add: list_all_iff)
  moreover have "fold (add_dir perm) (path_ancestors p) (fs_dirs s) = fs_dirs s"
    using assms(2) by (intro add_dirs_none) blast
  ultimately show ?thesis using assms(1) by (simp add: os_MkdirAll_def)
qed

lemma makeDirs_Ok:
  assumes "makeDirs ps s = (Ok (), t)"
  shows "t = s\<lparr>fs_dirs := fs_dirs t\<rparr> \<and> (\<forall>p \<in> set ps. \<forall>d \<in> set (path_ancestors p). fs_dirs t d \<noteq> None \<and> fs_files s d = None)
    \<and> (\<forall>d. fs_dirs s d \<noteq> None \<longrightarrow> fs_dirs t d = fs_dirs s d)"
  using assms
proof (induction ps arbitrary: s)
  case (Cons p ps)
  then obtain s1 where 1: "os_MkdirAll p 448 s = (Ok (), s1)" and 2: "makeDirs ps s1 = (Ok (), t)"
    by (auto simp: go_eq_Ok)
  note m = mkdir_Ok [OF 1] and ih = Cons.IH [OF 2]
  have f: "fs_files s1 = fs_files s" by (subst m(1)) simp
  have t: "t = s\<lparr>fs_dirs := fs_dirs t\<rparr>"
  proof -
    have "t = s1\<lparr>fs_dirs := fs_dirs t\<rparr>" using ih by blast
    also have "\<dots> = s\<lparr>fs_dirs := fs_dirs s1, fs_dirs := fs_dirs t\<rparr>" using m(1) by metis
    finally show ?thesis by simp
  qed
  have a: "\<forall>d \<in> set (path_ancestors p). fs_dirs t d \<noteq> None \<and> fs_files s d = None"
    using m(2) ih by metis
  have b: "\<forall>q \<in> set ps. \<forall>d \<in> set (path_ancestors q). fs_dirs t d \<noteq> None \<and> fs_files s d = None"
    using ih f by metis
  have c: "\<forall>d. fs_dirs s d \<noteq> None \<longrightarrow> fs_dirs t d = fs_dirs s d"
    using m(3) ih by metis
  from t a b c show ?case by (simp only: list.set ball_simps)
qed (simp add: go_return_def)

lemma makeDirs_again:
  assumes "\<forall>p. fs_fault s ''mkdir'' p = None"
    "\<forall>p \<in> set ps. \<forall>d \<in> set (path_ancestors p). fs_dirs s d \<noteq> None \<and> fs_files s d = None"
  shows "makeDirs ps s = (Ok (), s)"
  using assms(2)
proof (induction ps)
  case (Cons p ps)
  then have "os_MkdirAll p 448 s = (Ok (), s)" using assms(1) by (intro mkdir_again) auto
  with Cons show ?case by simp
qed (simp add: go_return_def)

text \<open>None of the files is an ancestor of the directories.\<close>

lemma dir_ancestor:
  assumes "list_all good_part ds" "ds \<noteq> []" "d \<in> set (path_ancestors (abs_path ds))"
    and "list_all good_part fs" "length ds \<le> length fs" "take (length fs) ds \<noteq> fs"
  shows "d \<noteq> abs_path fs"
proof -
  obtain k where k: "d = abs_path (take (Suc k) ds)" "k < length ds"
    using assms(3) by (auto simp: path_ancestors_abs [OF assms(1,2)])
  have "list_all good_part (take (Suc k) ds)"
    using assms(1) by (auto simp: list_all_iff dest: in_set_takeD)
  then have "d = abs_path fs \<longleftrightarrow> take (Suc k) ds = fs"
    using k(1) assms(4) by (simp add: abs_path_inject)
  moreover have "take (Suc k) ds \<noteq> fs"
  proof
    assume *: "take (Suc k) ds = fs"
    then have "length fs = min (length ds) (Suc k)" by (metis length_take)
    with assms(5) k(2) have "length fs = Suc k" by linarith
    with * have "take (length fs) ds = fs" by simp
    with assms(6) show False by contradiction
  qed
  ultimately show ?thesis by simp
qed

section \<open>Properties\<close>

lemma stat_Ok:
  "fs_fault s ''stat'' p = None \<Longrightarrow>
     os_Stat p s = (if fs_files s p \<noteq> None \<or> fs_dirs s p \<noteq> None then Ok ()
                    else Err (Wrapf (''stat '' @ p) os_ErrNotExist), s)"
  by (simp add: os_Stat_def)

lemma not_dir_paths:
  assumes "home_ok cs" "p \<in> set [Dir (abs_path cs), CertsDir (abs_path cs), LogsDir (abs_path cs)]"
    and "d \<in> set (path_ancestors p)"
  shows "d \<notin> {ConfigPath (abs_path cs), CertPath (abs_path cs), KeyPath (abs_path cs)}"
proof -
  have g: "list_all good_part cs" "cs \<noteq> []" using assms(1) by (auto simp: home_ok_def)
  obtain ds where ds: "p = abs_path ds" "ds \<in> {cs @ [''sprut''], cs @ [''sprut'', ''certs''], cs @ [''sprut'', ''logs'']}"
    using assms(2) by (auto simp: app_paths [OF assms(1)])
  have gd: "list_all good_part ds" "ds \<noteq> []" using ds(2) g by (auto simp: good_part_def)
  have "d \<noteq> abs_path fs" if "fs \<in> {cs @ [''sprut'', ''config.yaml''], cs @ [''sprut'', ''certs'', ''server.crt''],
      cs @ [''sprut'', ''certs'', ''server.key'']}" for fs
    using that ds(2) g assms(3) by (intro dir_ancestor [OF gd]) (auto simp: ds(1) good_part_def)
  then show ?thesis by (auto simp: app_paths [OF assms(1)])
qed

lemma cert_key_paths: "home_ok cs \<Longrightarrow> CertPath (abs_path cs) \<noteq> KeyPath (abs_path cs)"
  using abs_path_inject [of "cs @ [''sprut'', ''certs'', ''server.crt'']" "cs @ [''sprut'', ''certs'', ''server.key'']"]
  by (simp add: app_paths home_ok_def good_part_def)

text \<open>What a successful initialisation leaves behind.\<close>

definition initialised :: "string \<Rightarrow> fs \<Rightarrow> bool" where
  "initialised home s \<longleftrightarrow>
     (\<forall>p \<in> set [Dir home, CertsDir home, LogsDir home]. \<forall>d \<in> set (path_ancestors p).
        fs_dirs s d \<noteq> None \<and> fs_files s d = None)
     \<and> (\<forall>p \<in> {ConfigPath home, CertPath home, KeyPath home}. fs_files s p \<noteq> None \<or> fs_dirs s p \<noteq> None)"

lemma Init_initialised:
  assumes "home_ok cs" "Init yaml E (abs_path cs) s = (Ok (), t)"
    "\<And>p. fs_fault s ''stat'' p = None"
  shows "initialised (abs_path cs) t \<and> fs_fault t = fs_fault s"
proof -
  let ?h = "abs_path cs"
  let ?ps = "[Dir ?h, CertsDir ?h, LogsDir ?h]"
  obtain s1 s2 where 1: "makeDirs ?ps s = (Ok (), s1)" and 2: "ensureDefaultConfig yaml ?h s1 = (Ok (), s2)"
    and 3: "ensureCerts E ?h s2 = (Ok (), t)"
    using assms(2) by (auto simp: Init_def go_eq_Ok simp del: makeDirs.simps)
  note m = makeDirs_Ok [OF 1] and c = ensureDefaultConfig_Ok [OF 2]
    and e = ensureCerts_Ok [OF 3 cert_key_paths [OF assms(1)]]
  from m have s1: "fs_files s1 = fs_files s" "fs_fault s1 = fs_fault s"
    by (metis fs.select_convs(1) fs.surjective fs.update_convs(2), metis fs.select_convs(3) fs.surjective fs.update_convs(2))
  have s2: "fs_dirs s2 = fs_dirs s1" "fs_fault s2 = fs_fault s1"
    "\<And>q. q \<noteq> ConfigPath ?h \<Longrightarrow> fs_files s2 q = fs_files s1 q" "\<And>q. fs_files s1 q \<noteq> None \<Longrightarrow> fs_files s2 q \<noteq> None"
    using c by auto
  have t: "fs_dirs t = fs_dirs s2" "fs_fault t = fs_fault s2"
    "\<And>q. q \<noteq> CertPath ?h \<Longrightarrow> q \<noteq> KeyPath ?h \<Longrightarrow> fs_files t q = fs_files s2 q"
    "\<And>q. fs_files s2 q \<noteq> None \<Longrightarrow> fs_files t q \<noteq> None"
    using e by auto
  have "fs_dirs t d \<noteq> None \<and> fs_files t d = None" if p: "p \<in> set ?ps" "d \<in> set (path_ancestors p)" for p d
  proof -
    have "d \<notin> {ConfigPath ?h, CertPath ?h, KeyPath ?h}" using not_dir_paths [OF assms(1) p] .
    then have "fs_files t d = fs_files s d" using s1 s2 t by simp
    then show ?thesis using m p s2(1) t(1) by metis
  qed
  moreover have "fs_files s2 (ConfigPath ?h) \<noteq> None \<or> fs_dirs s2 (ConfigPath ?h) \<noteq> None"
    using c assms(3) s1(2) by (auto simp: stat_Ok split: if_splits)
  moreover have "fs_files t p \<noteq> None \<or> fs_dirs t p \<noteq> None" if "p \<in> {CertPath ?h, KeyPath ?h}" for p
    using e that assms(3) s1(2) s2(2) by (auto simp: stat_Ok split: if_splits)
  ultimately show ?thesis
    using t s1 s2 unfolding initialised_def by (metis insertE singletonD)
qed

lemma Init_again:
  assumes "initialised home t" "\<And>p. fs_fault t ''stat'' p = None" "\<And>p. fs_fault t ''mkdir'' p = None"
  shows "Init yaml E home t = (Ok (), t)"
proof -
  have "makeDirs [Dir home, CertsDir home, LogsDir home] t = (Ok (), t)"
    using assms(1,3) by (intro makeDirs_again) (auto simp: initialised_def)
  moreover have "ensureDefaultConfig yaml home t = (Ok (), t)" "ensureCerts E home t = (Ok (), t)"
    using assms(1,2) by (auto simp: ensureDefaultConfig_def ensureCerts_def stat_Ok initialised_def Let_def)
  ultimately show ?thesis by (simp add: Init_def)
qed

text \<open>C40: initialising is idempotent: after \<open>Init\<close> has succeeded once, running it again, with
  whatever default configuration and whatever keys it would generate, succeeds and changes nothing:
  neither the user's configuration nor the certificate is replaced.\<close>
theorem Init_idempotent:
  assumes "home_ok cs" "Init yaml E (abs_path cs) s = (Ok (), t)"
    "\<And>p. fs_fault s ''stat'' p = None" "\<And>p. fs_fault s ''mkdir'' p = None"
  shows "Init yaml' E' (abs_path cs) t = (Ok (), t)"
proof -
  have "initialised (abs_path cs) t" "fs_fault t = fs_fault s"
    using Init_initialised [OF assms(1,2,3)] by simp_all
  with assms(3,4) show ?thesis by (intro Init_again) simp_all
qed

definition ex_cert_env :: "unit cert_env" where
  "ex_cert_env = \<lparr>ce_GenerateKey = Ok (), ce_rand_Int = (\<lambda>n. Ok 5), ce_now = 0, ce_inOneYear = 31536000,
     ce_CreateCertificate = (\<lambda>t k. Ok [1]), ce_MarshalECPrivateKey = (\<lambda>k. Ok [2]), ce_pem = (\<lambda>ty d. d)\<rparr>"

definition ex_home_fs :: fs where
  "ex_home_fs = \<lparr>fs_files = Map.empty, fs_dirs = [''/h'' \<mapsto> 493], fs_fault = (\<lambda>_ _. None)\<rparr>"

lemma ex_init: "\<exists>t. Init [7] ex_cert_env ''/h'' ex_home_fs = (Ok (), t)"
proof -
  have "fst (Init [7] ex_cert_env ''/h'' ex_home_fs) = Ok ()" by code_simp
  then show ?thesis by (metis prod.collapse)
qed

theorem Init_idempotent_witness:
  "\<exists>t. Init [8] (ex_cert_env\<lparr>ce_rand_Int := (\<lambda>n. Ok 6)\<rparr>) ''/h'' t = (Ok (), t)"
proof -
  obtain t where t: "Init [7] ex_cert_env ''/h'' ex_home_fs = (Ok (), t)" using ex_init by blast
  have h: "abs_path [''h''] = ''/h''" "home_ok [''h'']" by (simp_all add: abs_path_def home_ok_def good_part_def)
  have f: "fs_fault ex_home_fs op p = None" for op p by (simp add: ex_home_fs_def)
  from Init_idempotent [OF h(2), of "[7]" ex_cert_env ex_home_fs t] t f h(1) show ?thesis by metis
qed

end
