(* ===== verification/Config.thy ===== *)
theory Config
  imports Appdir
begin

text \<open>
  The server's configuration, package \<open>src/pkg/config\<close>: its structure, defaults and validation
  (\<open>config.go\<close>) and its loading (\<open>load.go\<close>). The YAML decoder is an argument: it fills a
  configuration from the bytes of a file or fails. Durations are nanoseconds; a \<open>float64\<close> is a
  mantissa with a binary exponent or one of the special values.
\<close>

section \<open>Structure\<close>

datatype float64 = Float int int | PosInf | NegInf | NaN

record ServerConfig =
  sc_Host :: string
  sc_Port :: int
  sc_ServerID :: string

record TLSConfig =
  tc_CertFile :: string
  tc_KeyFile :: string
  tc_MinVersion :: string

record NATSConfig =
  nc_URLs :: "string list"
  nc_ReconnectWait :: int
  nc_MaxReconnects :: int

record LimitsConfig =
  lc_MaxConnections :: int
  lc_MaxMessageSize :: int
  lc_RateLimitPerSec :: float64
  lc_RateLimitBurst :: int
  lc_AuthTimeout :: int
  lc_ChallengeTTL :: int

record LogConfig =
  lg_Level :: string
  lg_Format :: string
  lg_File :: string

text \<open>The field \<open>Ready\<close>, a channel for tests, is whether there is one to close.\<close>

record Config =
  cf_Server :: ServerConfig
  cf_TLS :: TLSConfig
  cf_NATS :: NATSConfig
  cf_Limits :: LimitsConfig
  cf_Log :: LogConfig
  cf_Ready :: bool

fun dec_nat :: "nat \<Rightarrow> string" where
  "dec_nat n = (if n < 10 then [char_of (48 + n)] else dec_nat (n div 10) @ [char_of (48 + n mod 10)])"

declare dec_nat.simps [simp del]

definition dec_int :: "int \<Rightarrow> string" where
  "dec_int n = (if n < 0 then CHR ''-'' # dec_nat (nat (- n)) else dec_nat (nat n))"

definition ServerConfig_Addr :: "ServerConfig \<Rightarrow> string" where
  "ServerConfig_Addr c = sc_Host c @ '':'' @ dec_int (sc_Port c)"

section \<open>Validation\<close>

text \<open>The errors found in each group, in the order of the checks.\<close>

definition stat_errs :: "string \<Rightarrow> string \<Rightarrow> fs \<Rightarrow> go_error list" where
  "stat_errs field path s =
     (if path = [] then [Errorf (field @ '' is required'') []]
      else case fst (os_Stat path s) of
        Err e \<Rightarrow> [Wrapf field e] | _ \<Rightarrow> [])"

definition Validate_errs :: "Config \<Rightarrow> fs \<Rightarrow> go_error list" where
  "Validate_errs c s =
     (if sc_Port (cf_Server c) < 1 \<or> sc_Port (cf_Server c) > 65535
      then [Errorf ''invalid server port: %d'' [sc_Port (cf_Server c)]] else [])
   @ (if sc_ServerID (cf_Server c) = [] then [Errorf ''server_id is required'' []] else [])
   @ stat_errs ''tls.cert_file'' (tc_CertFile (cf_TLS c)) s
   @ stat_errs ''tls.key_file'' (tc_KeyFile (cf_TLS c)) s
   @ (if length (nc_URLs (cf_NATS c)) = 0 then [Errorf ''nats.urls is required'' []] else [])
   @ (if lc_MaxConnections (cf_Limits c) < 1 then [Errorf ''limits.max_connections must be positive'' []] else [])
   @ (if lc_MaxMessageSize (cf_Limits c) < 1 then [Errorf ''limits.max_message_size must be positive'' []] else [])
   @ (if lc_AuthTimeout (cf_Limits c) \<le> 0 then [Errorf ''limits.auth_timeout must be positive'' []] else [])
   @ (if lc_ChallengeTTL (cf_Limits c) \<le> 0 then [Errorf ''limits.challenge_ttl must be positive'' []] else [])"

definition errors_Join :: "go_error list \<Rightarrow> unit res" where
  "errors_Join es = (if es = [] then Ok () else Err (JoinErr es))"

definition Validate :: "Config \<Rightarrow> (fs, unit) go" where
  "Validate c s = (errors_Join (Validate_errs c s), s)"

section \<open>Defaults and loading\<close>

definition Default :: Config where
  "Default = \<lparr>
     cf_Server = \<lparr>sc_Host = ''0.0.0.0'', sc_Port = 8443, sc_ServerID = ''goro-1''\<rparr>,
     cf_TLS = \<lparr>tc_CertFile = '''', tc_KeyFile = '''', tc_MinVersion = ''1.3''\<rparr>,
     cf_NATS = \<lparr>nc_URLs = [''nats://localhost:4222''], nc_ReconnectWait = 2 * 1000000000, nc_MaxReconnects = -1\<rparr>,
     cf_Limits = \<lparr>lc_MaxConnections = 10000, lc_MaxMessageSize = 65536, lc_RateLimitPerSec = Float 100 0,
       lc_RateLimitBurst = 10, lc_AuthTimeout = 10 * 1000000000, lc_ChallengeTTL = 60 * 1000000000\<rparr>,
     cf_Log = \<lparr>lg_Level = ''debug'', lg_Format = ''json'', lg_File = ''''\<rparr>,
     cf_Ready = False\<rparr>"

definition resolvePaths :: "string \<Rightarrow> Config \<Rightarrow> Config" where
  "resolvePaths home cfg =
     (let tls = cf_TLS cfg;
          tls = (if tc_CertFile tls = '''' then tls\<lparr>tc_CertFile := CertPath home\<rparr> else tls);
          tls = (if tc_KeyFile tls = '''' then tls\<lparr>tc_KeyFile := KeyPath home\<rparr> else tls);
          log = cf_Log cfg;
          log = (if lg_File log = '''' then log\<lparr>lg_File := LogFilePath home\<rparr> else log)
      in cfg\<lparr>cf_TLS := tls, cf_Log := log\<rparr>)"

definition Load :: "(bytes \<Rightarrow> Config \<Rightarrow> Config res) \<Rightarrow> string \<Rightarrow> string \<Rightarrow> (fs, Config) go" where
  "Load unmarshal home path =
     go_bind (wrapf ''read config file'' (os_ReadFile path)) (\<lambda>data.
     go_bind (wrapf ''parse config'' (ret (unmarshal data Default))) (\<lambda>cfg.
     let cfg = resolvePaths home cfg in
     go_bind (wrapf ''validate config'' (Validate cfg)) (\<lambda>_.
     go_return cfg)))"

definition LoadFromAppDir :: "(bytes \<Rightarrow> Config \<Rightarrow> Config res) \<Rightarrow> string \<Rightarrow> (fs, Config) go" where
  "LoadFromAppDir unmarshal home = Load unmarshal home (ConfigPath home)"

section \<open>What validation guarantees\<close>

definition present :: "fs \<Rightarrow> string \<Rightarrow> bool" where
  "present s p \<longleftrightarrow> p \<noteq> [] \<and> fst (os_Stat p s) = Ok ()"

definition limits_ok :: "LimitsConfig \<Rightarrow> bool" where
  "limits_ok l \<longleftrightarrow> 1 \<le> lc_MaxConnections l \<and> 1 \<le> lc_MaxMessageSize l \<and> 0 < lc_AuthTimeout l \<and> 0 < lc_ChallengeTTL l"

definition valid_config :: "fs \<Rightarrow> Config \<Rightarrow> bool" where
  "valid_config s c \<longleftrightarrow> 1 \<le> sc_Port (cf_Server c) \<and> sc_Port (cf_Server c) \<le> 65535
     \<and> sc_ServerID (cf_Server c) \<noteq> [] \<and> nc_URLs (cf_NATS c) \<noteq> [] \<and> limits_ok (cf_Limits c)
     \<and> present s (tc_CertFile (cf_TLS c)) \<and> present s (tc_KeyFile (cf_TLS c))"

lemma stat_errs_Nil: "stat_errs f p s = [] \<longleftrightarrow> present s p"
  by (auto simp: stat_errs_def present_def os_Stat_def split: option.splits)

lemma Validate_Ok_iff: "Validate c s = (Ok (), s) \<longleftrightarrow> valid_config s c"
  by (auto simp: Validate_def errors_Join_def Validate_errs_def valid_config_def limits_ok_def stat_errs_Nil
      split: if_splits)

lemma Load_state: "keeps (\<lambda>s. s) (Load unmarshal home path)"
proof -
  have "keeps (\<lambda>s. s) (os_ReadFile path)"
    by (rule keepsI) (auto simp: os_ReadFile_def split: option.splits)
  moreover have "keeps (\<lambda>s. s) (ret r)" for r :: "Config res" by (rule keepsI) (simp add: ret_def)
  moreover have "keeps (\<lambda>s. s) (Validate c)" for c by (rule keepsI) (simp add: Validate_def)
  ultimately show ?thesis unfolding Load_def Let_def by (intro keeps_intros)
qed

lemma Load_eq_Ok:
  "Load unmarshal home path s = (Ok cfg, t) \<longleftrightarrow> t = s \<and>
     (\<exists>data c. os_ReadFile path s = (Ok data, s) \<and> unmarshal data Default = Ok c
        \<and> cfg = resolvePaths home c \<and> valid_config s cfg)"
proof -
  have r: "os_ReadFile path s = (r', s') \<longleftrightarrow> s' = s \<and> fst (os_ReadFile path s) = r'" for r' s'
    by (auto simp: os_ReadFile_def split: option.splits)
  have v: "Validate c s0 = (Ok u, s') \<longleftrightarrow> s' = s0 \<and> valid_config s0 c" for c u s0 s'
    using Validate_Ok_iff [of c s0] by (auto simp: Validate_def)
  show ?thesis
    by (auto simp: Load_def go_eq_Ok Let_def ret_def go_return_def v r)
qed

section \<open>Properties\<close>

text \<open>\<open>Load\<close> returns a configuration exactly when the file can be read and decoded over the
  defaults and the result, with the paths of the application directory filled in, has a port, a
  server identifier, broker addresses, positive limits and both TLS files in place; it never
  changes the file system.\<close>
theorem Load_iff_valid:
  "(Load unmarshal home path s = (Ok cfg, t)) \<longleftrightarrow>
     t = s \<and> (\<exists>data c. os_ReadFile path s = (Ok data, s) \<and> unmarshal data Default = Ok c
        \<and> cfg = resolvePaths home c
        \<and> 1 \<le> sc_Port (cf_Server cfg) \<and> sc_Port (cf_Server cfg) \<le> 65535
        \<and> sc_ServerID (cf_Server cfg) \<noteq> [] \<and> nc_URLs (cf_NATS cfg) \<noteq> []
        \<and> 1 \<le> lc_MaxConnections (cf_Limits cfg) \<and> 1 \<le> lc_MaxMessageSize (cf_Limits cfg)
        \<and> 0 < lc_AuthTimeout (cf_Limits cfg) \<and> 0 < lc_ChallengeTTL (cf_Limits cfg)
        \<and> present s (tc_CertFile (cf_TLS cfg)) \<and> present s (tc_KeyFile (cf_TLS cfg)))"
  unfolding Load_eq_Ok by (auto simp: valid_config_def limits_ok_def)

text \<open>a rejected configuration is reported completely: the error of \<open>Validate\<close> joins one error
  for each of the nine requirements that is not met, and there is no error when all are met.\<close>
theorem Validate_reports_all:
  "(Validate c s = (Ok (), s) \<longleftrightarrow> valid_config s c)
   \<and> length (Validate_errs c s) = sum_list (map (\<lambda>b. if b then 0 else 1)
       [1 \<le> sc_Port (cf_Server c) \<and> sc_Port (cf_Server c) \<le> 65535, sc_ServerID (cf_Server c) \<noteq> [],
        present s (tc_CertFile (cf_TLS c)), present s (tc_KeyFile (cf_TLS c)), nc_URLs (cf_NATS c) \<noteq> [],
        1 \<le> lc_MaxConnections (cf_Limits c), 1 \<le> lc_MaxMessageSize (cf_Limits c),
        0 < lc_AuthTimeout (cf_Limits c), 0 < lc_ChallengeTTL (cf_Limits c)])
   \<and> (\<not> valid_config s c \<longrightarrow> Validate c s = (Err (JoinErr (Validate_errs c s)), s))"
proof -
  have st: "length (stat_errs f p s) = (if present s p then 0 else 1)" for f p
    by (auto simp: stat_errs_def present_def os_Stat_def split: option.splits)
  show ?thesis
    using Validate_Ok_iff [of c s]
    by (auto simp: Validate_errs_def st Validate_def errors_Join_def not_le not_less)
qed

theorem Validate_reports_all_witness:
  "length (Validate_errs (Default\<lparr>cf_Server := \<lparr>sc_Host = '''', sc_Port = 0, sc_ServerID = ''''\<rparr>\<rparr>) ex_home_fs) = 4"
  using Validate_reports_all [of "Default\<lparr>cf_Server := \<lparr>sc_Host = '''', sc_Port = 0, sc_ServerID = ''''\<rparr>\<rparr>" ex_home_fs]
  by (simp add: Default_def present_def)

text \<open>C39: a fresh installation starts: once \<open>Init\<close> has succeeded, \<open>LoadFromAppDir\<close> succeeds for
  every configuration file that leaves the TLS paths empty and whose other settings are valid,
  because the paths it fills in are those of the certificate that \<open>Init\<close> has put in place.\<close>
theorem Init_then_LoadFromAppDir:
  assumes "home_ok cs" "Init yaml E (abs_path cs) s = (Ok (), t)" "\<And>op p. fs_fault s op p = None"
    and "fs_files t (ConfigPath (abs_path cs)) = Some (d, mode)" "unmarshal d Default = Ok c"
    and "tc_CertFile (cf_TLS c) = ''''" "tc_KeyFile (cf_TLS c) = ''''"
    and "1 \<le> sc_Port (cf_Server c)" "sc_Port (cf_Server c) \<le> 65535" "sc_ServerID (cf_Server c) \<noteq> []"
    and "nc_URLs (cf_NATS c) \<noteq> []" "limits_ok (cf_Limits c)"
  shows "LoadFromAppDir unmarshal (abs_path cs) t = (Ok (resolvePaths (abs_path cs) c), t)"
proof -
  let ?h = "abs_path cs"
  have i: "initialised ?h t" "fs_fault t = fs_fault s"
    using Init_initialised [OF assms(1,2)] assms(3) by simp_all
  have r: "os_ReadFile (ConfigPath ?h) t = (Ok d, t)"
    using assms(3,4) i(2) by (simp add: os_ReadFile_def)
  have ne: "CertPath ?h \<noteq> []" "KeyPath ?h \<noteq> []"
    unfolding app_paths [OF assms(1)] by (simp_all add: abs_path_def)
  have "present t (CertPath ?h)" "present t (KeyPath ?h)"
    using i assms(3) ne by (auto simp: present_def initialised_def os_Stat_def)
  with assms have "valid_config t (resolvePaths ?h c)"
    by (simp add: valid_config_def resolvePaths_def Let_def)
  with r assms(5) show ?thesis unfolding LoadFromAppDir_def Load_eq_Ok by blast
qed

definition ex_unmarshal :: "bytes \<Rightarrow> Config \<Rightarrow> Config res" where
  "ex_unmarshal d c = Ok (c\<lparr>cf_Ready := True\<rparr>)"

theorem Init_then_LoadFromAppDir_witness:
  "\<exists>t cfg. LoadFromAppDir ex_unmarshal ''/h'' t = (Ok cfg, t)
     \<and> tc_CertFile (cf_TLS cfg) = ''/h/sprut/certs/server.crt''"
proof -
  let ?c = "Default\<lparr>cf_Ready := True\<rparr>"
  obtain t where t: "Init [7] ex_cert_env ''/h'' ex_home_fs = (Ok (), t)" using ex_init by blast
  have h: "abs_path [''h''] = ''/h''" "home_ok [''h'']" by (simp_all add: abs_path_def home_ok_def good_part_def)
  have "fs_files (snd (Init [7] ex_cert_env ''/h'' ex_home_fs)) (ConfigPath ''/h'') = Some ([7], 420)" by code_simp
  then have d: "fs_files t (ConfigPath ''/h'') = Some ([7], 420)" using t by simp
  have "LoadFromAppDir ex_unmarshal ''/h'' t = (Ok (resolvePaths ''/h'' ?c), t)"
    using Init_then_LoadFromAppDir [OF h(2) t [folded h(1)] _ d [folded h(1)], of ex_unmarshal ?c, unfolded h(1)]
    by (simp add: ex_home_fs_def ex_unmarshal_def Default_def limits_ok_def)
  moreover have "tc_CertFile (cf_TLS (resolvePaths ''/h'' ?c)) = ''/h/sprut/certs/server.crt''" by code_simp
  ultimately show ?thesis by blast
qed

end
