(* ===== verification/Router.thy ===== *)
theory Router
  imports Router_Auth Router_Message Peer Config
begin

text \<open>
  The server, \<open>src/pkg/router/router.go\<close> and \<open>tls.go\<close>: its TLS configuration, its set-up, the
  accept loop and the handlers of connections. Every connection has a handler goroutine, a write
  loop and the callback of its subscription, and they share the table of peers, the semaphore of
  authentication buffers and the broker. A handler is a program counter with its connection, its
  buffer and its peer; each atomic action of a goroutine is a function on the state of the router,
  and the step relation lets any enabled action happen next. References to a peer in the table are
  the numbers of connections.
\<close>

section \<open>TLS configuration (tls.go)\<close>

datatype cipher_suite =
    ECDHE_ECDSA_AES_256_GCM_SHA384 | ECDHE_RSA_AES_256_GCM_SHA384
  | ECDHE_ECDSA_CHACHA20_POLY1305_SHA256 | ECDHE_RSA_CHACHA20_POLY1305_SHA256
  | ECDHE_ECDSA_AES_128_GCM_SHA256 | ECDHE_RSA_AES_128_GCM_SHA256

record 'c tls_config =
  tl_Certificates :: "'c list"
  tl_MinVersion :: tls_version
  tl_CipherSuites :: "cipher_suite list"
  tl_SessionTicketsDisabled :: bool

text \<open>\<open>loadPair\<close> is \<open>tls.LoadX509KeyPair\<close>.\<close>

definition buildTLSConfig :: "(string \<Rightarrow> string \<Rightarrow> 'c res) \<Rightarrow> TLSConfig \<Rightarrow> 'c tls_config res" where
  "buildTLSConfig loadPair cfg =
     (case loadPair (tc_CertFile cfg) (tc_KeyFile cfg) of
        Err e \<Rightarrow> Err (Wrapf ''load certificates'' e)
      | Panic p \<Rightarrow> Panic p
      | Ok cert \<Rightarrow> Ok \<lparr>tl_Certificates = [cert],
          tl_MinVersion = (if tc_MinVersion cfg = ''1.3'' then VersionTLS13 else VersionTLS12),
          tl_CipherSuites = [ECDHE_ECDSA_AES_256_GCM_SHA384, ECDHE_RSA_AES_256_GCM_SHA384,
            ECDHE_ECDSA_CHACHA20_POLY1305_SHA256, ECDHE_RSA_CHACHA20_POLY1305_SHA256,
            ECDHE_ECDSA_AES_128_GCM_SHA256, ECDHE_RSA_AES_128_GCM_SHA256],
          tl_SessionTicketsDisabled = True\<rparr>)"

section \<open>State\<close>

definition WriteBufferSize :: nat where
  "WriteBufferSize = 1000"

definition WriteTimeout :: int where
  "WriteTimeout = 30 * 1000000000"

text \<open>
  Where a handler is in \<open>handleConn\<close>: about to authenticate, to create the peer, to look up an older
  connection of the client, to close it, to store the peer, in the read loop, about to delete the
  entry of the table, to close the peer and the connection; it has returned; or the connection was
  refused because of the limit.
\<close>

datatype hpc = Authenticating | Subscribing | LookingUp | ClosingOld nat | Storing | Reading
  | Deleting | Closing | Done | Refused

record ('s, 'l) handler =
  h_pc :: hpc
  h_conn :: netconn
  h_buf :: bytes
  h_peer :: "('s, 'l) Peer option"
  h_writer :: bool

text \<open>\<open>h_conn\<close> is the connection until there is a peer, which then holds it.\<close>

record ('n, 's, 'l) router =
  rt_authSem :: "bytes list"
  rt_peers :: "PeerID \<rightharpoonup> nat"
  rt_conns :: "nat \<rightharpoonup> ('s, 'l) handler"
  rt_next :: nat
  rt_msgPool :: "bytes list"
  rt_messagePool :: "Message list"
  rt_nats :: 'n
  rt_crashed :: bool

text \<open>What the server is built on: the NATS library, the limiter, the serialiser, the settings.\<close>

record ('n, 's, 'h, 'l) server =
  sv_api :: "('n, 's, 'h) nats_api"
  sv_newLimiter :: "float64 \<Rightarrow> int \<Rightarrow> 'l"
  sv_handler :: "nat \<Rightarrow> 'h"
  sv_marshal :: "Message \<Rightarrow> bytes res"
  sv_cfg :: Config

section \<open>Set-up (Serve)\<close>

definition authBuffer :: "bytes \<Rightarrow> bytes" where
  "authBuffer serverID = copy_at (replicate AuthBufSize 0) offServerID serverID"

text \<open>
  The part of \<open>Serve\<close> before the accept loop: it builds the TLS configuration, connects to the
  broker, checks the identifier and fills the semaphore. When the identifier is too long, the
  deferred call closes the broker.
\<close>

definition Serve_setup ::
    "('n, 's, 'h, 'l) server \<Rightarrow> (string \<Rightarrow> string \<Rightarrow> 'c res) \<Rightarrow> ('n, 's, 'l) router res" where
  "Serve_setup sv loadPair =
     (let cfg = sv_cfg sv in
      case buildTLSConfig loadPair (cf_TLS cfg) of
        Err e \<Rightarrow> Err (Wrapf ''build TLS config'' e)
      | Panic p \<Rightarrow> Panic p
      | Ok tls \<Rightarrow>
        (case Broker_New (sv_api sv) \<lparr>bk_URLs = nc_URLs (cf_NATS cfg),
                bk_ReconnectWait = nc_ReconnectWait (cf_NATS cfg),
                bk_MaxReconnects = nc_MaxReconnects (cf_NATS cfg)\<rparr> of
           Err e \<Rightarrow> Err (Wrapf ''create broker'' e)
         | Panic p \<Rightarrow> Panic p
         | Ok brk \<Rightarrow>
           (let serverIDBytes = bytes_of_string (sc_ServerID (cf_Server cfg)) in
            if ServerIDSize < length serverIDBytes
            then Err (Errorf ''server_id too long: max %d bytes, got %d''
                        [int ServerIDSize, int (length serverIDBytes)])
            else let serverID = copy_at (replicate ServerIDSize 0) 0 serverIDBytes
                 in Ok \<lparr>rt_authSem = replicate (nat (lc_MaxConnections (cf_Limits cfg))) (authBuffer serverID),
                        rt_peers = Map.empty, rt_conns = Map.empty, rt_next = 0, rt_msgPool = [],
                        rt_messagePool = [], rt_nats = brk, rt_crashed = False\<rparr>)))"

section \<open>The accept loop\<close>

definition new_handler :: "hpc \<Rightarrow> netconn \<Rightarrow> bytes \<Rightarrow> ('s, 'l) handler" where
  "new_handler pc conn buf = \<lparr>h_pc = pc, h_conn = conn, h_buf = buf, h_peer = None, h_writer = False\<rparr>"

definition acceptConn :: "netconn \<Rightarrow> ('n, 's, 'l) router \<Rightarrow> ('n, 's, 'l) router" where
  "acceptConn conn rt =
     (case rt_authSem rt of
        authBuf # rest \<Rightarrow> rt\<lparr>rt_authSem := rest, rt_next := Suc (rt_next rt),
          rt_conns := (rt_conns rt)(rt_next rt \<mapsto> new_handler Authenticating conn authBuf)\<rparr>
      | [] \<Rightarrow> rt\<lparr>rt_next := Suc (rt_next rt),
          rt_conns := (rt_conns rt)(rt_next rt \<mapsto> new_handler Refused (snd (nc_Close conn)) [])\<rparr>)"

text \<open>
  One turn of the loop. \<open>ctxDone\<close> says whether the context has been cancelled: an error of
  \<open>Accept\<close> then ends \<open>Serve\<close>, as does a closed listener; other errors are skipped.
\<close>

datatype accept_turn = NextAccept | ServeReturns

definition acceptTurn ::
    "bool \<Rightarrow> netconn res \<Rightarrow> ('n, 's, 'l) router \<Rightarrow> accept_turn \<times> ('n, 's, 'l) router" where
  "acceptTurn ctxDone res rt =
     (case res of
        Ok conn \<Rightarrow> (NextAccept, acceptConn conn rt)
      | Err e \<Rightarrow> (if ctxDone \<or> errors_is e net_ErrClosed then ServeReturns else NextAccept, rt)
      | Panic p \<Rightarrow> (ServeReturns, rt\<lparr>rt_crashed := True\<rparr>))"

section \<open>Actions of a handler (handleConn)\<close>

definition setHandler :: "nat \<Rightarrow> ('s, 'l) handler \<Rightarrow> ('n, 's, 'l) router \<Rightarrow> ('n, 's, 'l) router" where
  "setHandler k h rt = rt\<lparr>rt_conns := (rt_conns rt)(k \<mapsto> h)\<rparr>"

text \<open>A return before there is a peer: the connection is closed, then the buffer is given back.\<close>

definition returnEarly :: "nat \<Rightarrow> ('s, 'l) handler \<Rightarrow> ('n, 's, 'l) router \<Rightarrow> ('n, 's, 'l) router" where
  "returnEarly k h rt =
     (setHandler k (h\<lparr>h_pc := Done, h_conn := snd (nc_Close (h_conn h))\<rparr>) rt)
       \<lparr>rt_authSem := rt_authSem rt @ [h_buf h]\<rparr>"

text \<open>A panic in a goroutine ends the process.\<close>

definition crash :: "('n, 's, 'l) router \<Rightarrow> ('n, 's, 'l) router" where
  "crash rt = rt\<lparr>rt_crashed := True\<rparr>"

definition doAuthenticate ::
    "('n, 's, 'h, 'l) server \<Rightarrow> auth_env \<Rightarrow> nat \<Rightarrow> ('s, 'l) handler \<Rightarrow> ('n, 's, 'l) router \<Rightarrow> ('n, 's, 'l) router" where
  "doAuthenticate sv E k h rt =
     (let lim = cf_Limits (sv_cfg sv) in
      case authenticate E (lc_AuthTimeout lim) (lc_ChallengeTTL lim) \<lparr>as_conn = h_conn h, as_buf = h_buf h\<rparr> of
        (r, s) \<Rightarrow> let h = h\<lparr>h_conn := as_conn s, h_buf := as_buf s\<rparr> in
          (case r of
             Ok _ \<Rightarrow> setHandler k (h\<lparr>h_pc := Subscribing\<rparr>) rt
           | Err e \<Rightarrow> returnEarly k h rt
           | Panic p \<Rightarrow> crash rt))"

definition doSubscribe ::
    "('n, 's, 'h, 'l) server \<Rightarrow> nat \<Rightarrow> ('s, 'l) handler \<Rightarrow> ('n, 's, 'l) router \<Rightarrow> ('n, 's, 'l) router" where
  "doSubscribe sv k h rt =
     (let i = slice (h_buf h) offPubKey (offPubKey + PublicKeySize); lim = cf_Limits (sv_cfg sv) in
      case newPeer (sv_api sv) (sv_newLimiter sv) (sv_handler sv k) (h_conn h) i WriteBufferSize
             WriteTimeout (lc_RateLimitPerSec lim) (lc_RateLimitBurst lim) (rt_nats rt) of
        (r, n) \<Rightarrow> let rt = rt\<lparr>rt_nats := n\<rparr> in
          (case r of
             Ok peer \<Rightarrow> setHandler k (h\<lparr>h_pc := LookingUp, h_peer := Some peer\<rparr>) rt
           | Err e \<Rightarrow> returnEarly k h rt
           | Panic p \<Rightarrow> crash rt))"

definition doLookUp :: "nat \<Rightarrow> ('s, 'l) handler \<Rightarrow> ('s, 'l) Peer \<Rightarrow> ('n, 's, 'l) router \<Rightarrow> ('n, 's, 'l) router" where
  "doLookUp k h peer rt =
     (case rt_peers rt (p_id peer) of
        Some j \<Rightarrow> (setHandler k (h\<lparr>h_pc := ClosingOld j\<rparr>) rt)\<lparr>rt_peers := (rt_peers rt)(p_id peer := None)\<rparr>
      | None \<Rightarrow> setHandler k (h\<lparr>h_pc := Storing\<rparr>) rt)"

text \<open>\<open>Close\<close> on the peer of connection \<open>j\<close>.\<close>

definition closePeer :: "('n, 's, 'h) nats_api \<Rightarrow> nat \<Rightarrow> ('n, 's, 'l) router \<Rightarrow> ('n, 's, 'l) router" where
  "closePeer api j rt =
     (case rt_conns rt j of
        Some h \<Rightarrow> (case h_peer h of
            Some p \<Rightarrow> let e = Peer_Close api \<lparr>pe_peer = p, pe_nats = rt_nats rt\<rparr>
                      in (setHandler j (h\<lparr>h_peer := Some (pe_peer e)\<rparr>) rt)\<lparr>rt_nats := pe_nats e\<rparr>
          | None \<Rightarrow> rt)
      | None \<Rightarrow> rt)"

definition setPc :: "nat \<Rightarrow> hpc \<Rightarrow> ('n, 's, 'l) router \<Rightarrow> ('n, 's, 'l) router" where
  "setPc k pc rt = (case rt_conns rt k of Some h \<Rightarrow> setHandler k (h\<lparr>h_pc := pc\<rparr>) rt | None \<Rightarrow> rt)"

definition doCloseOld :: "('n, 's, 'h) nats_api \<Rightarrow> nat \<Rightarrow> nat \<Rightarrow> ('n, 's, 'l) router \<Rightarrow> ('n, 's, 'l) router" where
  "doCloseOld api k j rt = setPc k Storing (closePeer api j rt)"

text \<open>The peer is stored, the clean-up deferred and the write loop started.\<close>

definition doStore :: "nat \<Rightarrow> ('s, 'l) handler \<Rightarrow> ('s, 'l) Peer \<Rightarrow> ('n, 's, 'l) router \<Rightarrow> ('n, 's, 'l) router" where
  "doStore k h peer rt =
     (setHandler k (h\<lparr>h_pc := Reading, h_writer := True\<rparr>) rt)\<lparr>rt_peers := (rt_peers rt)(p_id peer \<mapsto> k)\<rparr>"

text \<open>One turn of the read loop.\<close>

definition doRead ::
    "('n, 's, 'h, 'l) server \<Rightarrow> ('l \<Rightarrow> bool \<times> 'l) \<Rightarrow> int \<Rightarrow> nat \<Rightarrow> ('s, 'l) handler \<Rightarrow> ('s, 'l) Peer
     \<Rightarrow> ('n, 's, 'l) router \<Rightarrow> ('n, 's, 'l) router" where
  "doRead sv allow now k h peer rt =
     (if p_closeCh peer then setHandler k (h\<lparr>h_pc := Deleting\<rparr>) rt
      else case AllowMessage allow peer of
        (False, peer) \<Rightarrow> setHandler k (h\<lparr>h_pc := Deleting, h_peer := Some peer\<rparr>) rt
      | (True, peer) \<Rightarrow>
          (case handleMessage (sv_api sv) (sv_marshal sv) now (nat (lc_MaxMessageSize (cf_Limits (sv_cfg sv))))
                  (lc_MaxMessageSize (cf_Limits (sv_cfg sv))) (p_pubKeyHex peer)
                  \<lparr>ms_conn = p_conn peer, ms_pool = rt_msgPool rt, ms_buf = [],
                   ms_messagePool = rt_messagePool rt, ms_nats = rt_nats rt\<rparr> of
             (r, s) \<Rightarrow>
               let peer = peer\<lparr>p_conn := ms_conn s\<rparr>;
                   rt = rt\<lparr>rt_msgPool := ms_pool s, rt_messagePool := ms_messagePool s, rt_nats := ms_nats s\<rparr>
               in (case r of
                     Ok _ \<Rightarrow> setHandler k (h\<lparr>h_peer := Some peer\<rparr>) rt
                   | Err e \<Rightarrow> setHandler k (h\<lparr>h_pc := Deleting, h_peer := Some peer\<rparr>) rt
                   | Panic p \<Rightarrow> crash rt)))"

text \<open>The deferred clean-up: the entry is deleted, then the peer closed, the connection, the buffer given back.\<close>

definition doDelete :: "nat \<Rightarrow> ('s, 'l) handler \<Rightarrow> ('s, 'l) Peer \<Rightarrow> ('n, 's, 'l) router \<Rightarrow> ('n, 's, 'l) router" where
  "doDelete k h peer rt =
     setHandler k (h\<lparr>h_pc := Closing\<rparr>) (rt\<lparr>rt_peers := (rt_peers rt)(p_id peer := None)\<rparr>)"

definition doClose ::
    "('n, 's, 'h) nats_api \<Rightarrow> nat \<Rightarrow> ('s, 'l) handler \<Rightarrow> ('s, 'l) Peer \<Rightarrow> ('n, 's, 'l) router \<Rightarrow> ('n, 's, 'l) router" where
  "doClose api k h peer rt =
     (let e = Peer_Close api \<lparr>pe_peer = peer, pe_nats = rt_nats rt\<rparr>;
          peer = (pe_peer e)\<lparr>p_conn := snd (nc_Close (p_conn (pe_peer e)))\<rparr>
      in (setHandler k (h\<lparr>h_pc := Done, h_peer := Some peer\<rparr>) rt)
           \<lparr>rt_authSem := rt_authSem rt @ [h_buf h], rt_nats := pe_nats e\<rparr>)"

section \<open>Actions of the write loop and of the subscription\<close>

definition doWrite ::
    "('n, 's, 'h) nats_api \<Rightarrow> bool \<Rightarrow> int \<Rightarrow> nat \<Rightarrow> ('s, 'l) handler \<Rightarrow> ('s, 'l) Peer \<Rightarrow> ('n, 's, 'l) router
     \<Rightarrow> ('n, 's, 'l) router" where
  "doWrite api pick now k h peer rt =
     (case writeLoop_turn api pick now \<lparr>pe_peer = peer, pe_nats = rt_nats rt\<rparr> of
        (t, e) \<Rightarrow> (setHandler k (h\<lparr>h_peer := Some (pe_peer e), h_writer := (t \<noteq> Return)\<rparr>) rt)\<lparr>rt_nats := pe_nats e\<rparr>)"

definition doDeliver ::
    "('n, 's, 'h) nats_api \<Rightarrow> bool \<Rightarrow> bytes \<Rightarrow> nat \<Rightarrow> ('s, 'l) handler \<Rightarrow> ('s, 'l) Peer \<Rightarrow> ('n, 's, 'l) router
     \<Rightarrow> ('n, 's, 'l) router" where
  "doDeliver api pick data k h peer rt =
     (let e = handleNATSMessage api pick data \<lparr>pe_peer = peer, pe_nats = rt_nats rt\<rparr>
      in (setHandler k (h\<lparr>h_peer := Some (pe_peer e)\<rparr>) rt)\<lparr>rt_nats := pe_nats e\<rparr>)"

section \<open>The router as a transition system\<close>

text \<open>
  Environment assumptions of the steps: an accepted connection is open, and neither the random
  number generator nor the TLS exporter of the standard library panics.
\<close>

inductive router_step ::
    "('n, 's, 'h, 'l) server \<Rightarrow> ('n, 's, 'l) router \<Rightarrow> ('n, 's, 'l) router \<Rightarrow> bool" for sv where
  accept: "\<not> c_closed conn \<Longrightarrow> exporter_total (c_tls conn) \<Longrightarrow> router_step sv rt (acceptConn conn rt)"
| auth: "rt_conns rt k = Some h \<Longrightarrow> h_pc h = Authenticating \<Longrightarrow> (\<And>n p. ae_rand E n \<noteq> Panic p) \<Longrightarrow>
    router_step sv rt (doAuthenticate sv E k h rt)"
| subscribe: "rt_conns rt k = Some h \<Longrightarrow> h_pc h = Subscribing \<Longrightarrow> router_step sv rt (doSubscribe sv k h rt)"
| look_up: "rt_conns rt k = Some h \<Longrightarrow> h_pc h = LookingUp \<Longrightarrow> h_peer h = Some p \<Longrightarrow>
    router_step sv rt (doLookUp k h p rt)"
| close_old: "rt_conns rt k = Some h \<Longrightarrow> h_pc h = ClosingOld j \<Longrightarrow>
    router_step sv rt (doCloseOld (sv_api sv) k j rt)"
| store: "rt_conns rt k = Some h \<Longrightarrow> h_pc h = Storing \<Longrightarrow> h_peer h = Some p \<Longrightarrow>
    router_step sv rt (doStore k h p rt)"
| read: "rt_conns rt k = Some h \<Longrightarrow> h_pc h = Reading \<Longrightarrow> h_peer h = Some p \<Longrightarrow>
    router_step sv rt (doRead sv allow now k h p rt)"
| delete: "rt_conns rt k = Some h \<Longrightarrow> h_pc h = Deleting \<Longrightarrow> h_peer h = Some p \<Longrightarrow>
    router_step sv rt (doDelete k h p rt)"
| close: "rt_conns rt k = Some h \<Longrightarrow> h_pc h = Closing \<Longrightarrow> h_peer h = Some p \<Longrightarrow>
    router_step sv rt (doClose (sv_api sv) k h p rt)"
| write_turn: "rt_conns rt k = Some h \<Longrightarrow> h_writer h \<Longrightarrow> h_peer h = Some p \<Longrightarrow>
    router_step sv rt (doWrite (sv_api sv) pick now k h p rt)"
| deliver: "rt_conns rt k = Some h \<Longrightarrow> h_peer h = Some p \<Longrightarrow>
    router_step sv rt (doDeliver (sv_api sv) pick data k h p rt)"

inductive_cases router_stepE: "router_step sv rt rt'"

definition router_init :: "('n, 's, 'h, 'l) server \<Rightarrow> (string \<Rightarrow> string \<Rightarrow> 'c res) \<Rightarrow> ('n, 's, 'l) router \<Rightarrow> bool" where
  "router_init sv loadPair rt \<longleftrightarrow> Serve_setup sv loadPair = Ok rt"

section \<open>The invariant\<close>

definition active :: "('s, 'l) handler \<Rightarrow> bool" where
  "active h \<longleftrightarrow> h_pc h \<noteq> Done \<and> h_pc h \<noteq> Refused"

definition active_conns :: "('n, 's, 'l) router \<Rightarrow> nat set" where
  "active_conns rt = {k. \<exists>h. rt_conns rt k = Some h \<and> active h}"

definition server_id :: "('n, 's, 'h, 'l) server \<Rightarrow> bytes" where
  "server_id sv = copy_at (replicate ServerIDSize 0) 0 (bytes_of_string (sc_ServerID (cf_Server (sv_cfg sv))))"

text \<open>A key for which a handshake with this server succeeded.\<close>

definition authentic :: "('n, 's, 'h, 'l) server \<Rightarrow> PeerID \<Rightarrow> bool" where
  "authentic sv i \<longleftrightarrow> length i = PublicKeySize \<and>
     (\<exists>E s t. server_buf (server_id sv) (as_buf s)
        \<and> authenticate E (lc_AuthTimeout (cf_Limits (sv_cfg sv))) (lc_ChallengeTTL (cf_Limits (sv_cfg sv))) s = (Ok (), t)
        \<and> slice (as_buf t) offPubKey (offPubKey + PublicKeySize) = i)"

definition peer_ok :: "('n, 's, 'h, 'l) server \<Rightarrow> ('s, 'l) Peer \<Rightarrow> bool" where
  "peer_ok sv p \<longleftrightarrow> close_ok p \<and> length (p_writeCh p) \<le> WriteBufferSize \<and> p_writeCap p = WriteBufferSize
     \<and> p_pubKeyHex p = hex_EncodeToString (p_id p) \<and> authentic sv (p_id p)"

definition before_peer :: "hpc \<Rightarrow> bool" where
  "before_peer pc \<longleftrightarrow> pc = Authenticating \<or> pc = Subscribing"

definition handler_ok :: "('n, 's, 'h, 'l) server \<Rightarrow> ('s, 'l) handler \<Rightarrow> bool" where
  "handler_ok sv h \<longleftrightarrow>
     (before_peer (h_pc h) \<longrightarrow> h_peer h = None \<and> \<not> c_closed (h_conn h) \<and> exporter_total (c_tls (h_conn h)))
     \<and> (\<not> before_peer (h_pc h) \<and> active h \<longrightarrow> h_peer h \<noteq> None)
     \<and> (h_pc h = Subscribing \<longrightarrow> authentic sv (slice (h_buf h) offPubKey (offPubKey + PublicKeySize)))
     \<and> (active h \<longrightarrow> server_buf (server_id sv) (h_buf h))
     \<and> (\<forall>p. h_peer h = Some p \<longrightarrow> peer_ok sv p)"

definition registered :: "hpc \<Rightarrow> bool" where
  "registered pc \<longleftrightarrow> pc = Reading \<or> pc = Deleting"

definition table_ok :: "('n, 's, 'l) router \<Rightarrow> bool" where
  "table_ok rt \<longleftrightarrow> (\<forall>i k. rt_peers rt i = Some k \<longrightarrow>
     (\<exists>h p. rt_conns rt k = Some h \<and> h_peer h = Some p \<and> p_id p = i \<and> registered (h_pc h)))"

definition router_inv :: "('n, 's, 'h, 'l) server \<Rightarrow> ('n, 's, 'l) router \<Rightarrow> bool" where
  "router_inv sv rt \<longleftrightarrow>
     (\<forall>k h. rt_conns rt k = Some h \<longrightarrow> k < rt_next rt \<and> handler_ok sv h)
     \<and> length (rt_authSem rt) + card (active_conns rt) = nat (lc_MaxConnections (cf_Limits (sv_cfg sv)))
     \<and> (\<forall>b \<in> set (rt_authSem rt). server_buf (server_id sv) b)
     \<and> (\<forall>b \<in> set (rt_msgPool rt). length b = nat (lc_MaxMessageSize (cf_Limits (sv_cfg sv))))
     \<and> table_ok rt \<and> \<not> rt_crashed rt"

lemma setHandler_sel [simp]:
  "rt_conns (setHandler k h rt) = (rt_conns rt)(k \<mapsto> h)"
  "rt_authSem (setHandler k h rt) = rt_authSem rt" "rt_peers (setHandler k h rt) = rt_peers rt"
  "rt_next (setHandler k h rt) = rt_next rt" "rt_msgPool (setHandler k h rt) = rt_msgPool rt"
  "rt_messagePool (setHandler k h rt) = rt_messagePool rt" "rt_nats (setHandler k h rt) = rt_nats rt"
  "rt_crashed (setHandler k h rt) = rt_crashed rt"
  by (simp_all add: setHandler_def)

lemma finite_active: "router_inv sv rt \<Longrightarrow> finite (active_conns rt)"
  by (rule finite_subset [of _ "{..<rt_next rt}"]) (auto simp: router_inv_def active_conns_def)

lemma active_set [simp]:
  "active_conns (setHandler k h rt) = (if active h then insert k (active_conns rt) else active_conns rt - {k})"
  by (auto simp: active_conns_def)

lemma active_update [simp]:
  "active_conns (rt\<lparr>rt_nats := n\<rparr>) = active_conns rt"
  "active_conns (rt\<lparr>rt_authSem := a\<rparr>) = active_conns rt"
  "active_conns (rt\<lparr>rt_peers := q\<rparr>) = active_conns rt"
  "active_conns (rt\<lparr>rt_msgPool := mp\<rparr>) = active_conns rt"
  "active_conns (rt\<lparr>rt_messagePool := mm\<rparr>) = active_conns rt"
  by (simp_all add: active_conns_def)

lemma inv_nats [simp]: "router_inv sv (rt\<lparr>rt_nats := n\<rparr>) = router_inv sv rt"
  by (simp add: router_inv_def table_ok_def)

lemma inv_pools:
  "router_inv sv rt \<Longrightarrow> \<forall>b \<in> set mp. length b = nat (lc_MaxMessageSize (cf_Limits (sv_cfg sv))) \<Longrightarrow>
     router_inv sv (rt\<lparr>rt_msgPool := mp, rt_messagePool := mm, rt_nats := n\<rparr>)"
  by (simp add: router_inv_def table_ok_def)

lemma inv_unregister: "router_inv sv rt \<Longrightarrow> router_inv sv (rt\<lparr>rt_peers := (rt_peers rt)(i := None)\<rparr>)"
  by (simp add: router_inv_def table_ok_def)

lemma inv_handler: "router_inv sv rt \<Longrightarrow> rt_conns rt k = Some h \<Longrightarrow> handler_ok sv h"
  by (simp add: router_inv_def)

text \<open>A handler moves on and stays active.\<close>

lemma table_ok_set:
  assumes "table_ok rt" "\<And>i. rt_peers rt i = Some k \<Longrightarrow> \<exists>p. h_peer h' = Some p \<and> p_id p = i \<and> registered (h_pc h')"
  shows "table_ok (setHandler k h' rt)"
  using assms unfolding table_ok_def by (auto split: if_splits)

lemma inv_set:
  assumes "router_inv sv rt" "rt_conns rt k = Some h" "handler_ok sv h'" "active h = active h'"
    and "\<And>i. rt_peers rt i = Some k \<Longrightarrow> \<exists>p. h_peer h' = Some p \<and> p_id p = i \<and> registered (h_pc h')"
  shows "router_inv sv (setHandler k h' rt)"
proof -
  have "k \<in> active_conns rt \<longleftrightarrow> active h'" using assms(2,4) by (simp add: active_conns_def)
  then have "card (active_conns (setHandler k h' rt)) = card (active_conns rt)" by (simp add: insert_absorb)
  moreover have "table_ok (setHandler k h' rt)"
    using assms(1,5) by (intro table_ok_set) (auto simp: router_inv_def)
  ultimately show ?thesis using assms(1,2,3) by (auto simp: router_inv_def)
qed

text \<open>A handler returns and gives its buffer back.\<close>

lemma inv_release:
  assumes "router_inv sv rt" "rt_conns rt k = Some h" "active h" "handler_ok sv h'" "\<not> active h'"
    and "\<And>i. rt_peers rt i \<noteq> Some k" "server_buf (server_id sv) b"
  shows "router_inv sv ((setHandler k h' rt)\<lparr>rt_authSem := rt_authSem rt @ [b]\<rparr>)"
proof -
  have "k \<in> active_conns rt" using assms(2,3) by (auto simp: active_conns_def)
  then have "Suc (card (active_conns rt - {k})) = card (active_conns rt)"
    using finite_active [OF assms(1)] by (metis card.remove)
  moreover have "table_ok ((setHandler k h' rt)\<lparr>rt_authSem := rt_authSem rt @ [b]\<rparr>)"
    using assms(1,6) by (auto simp: router_inv_def table_ok_def)
  ultimately show ?thesis using assms(1,2,4,5,7) by (auto simp: router_inv_def)
qed

text \<open>Only the peer of a handler in the read loop or about to leave it is in the table.\<close>

lemma not_registered:
  "router_inv sv rt \<Longrightarrow> rt_conns rt k = Some h \<Longrightarrow> \<not> registered (h_pc h) \<Longrightarrow> rt_peers rt i \<noteq> Some k"
  by (fastforce simp: router_inv_def table_ok_def)

lemma registered_id:
  "router_inv sv rt \<Longrightarrow> rt_conns rt k = Some h \<Longrightarrow> h_peer h = Some p \<Longrightarrow> rt_peers rt i = Some k \<Longrightarrow> i = p_id p"
  by (fastforce simp: router_inv_def table_ok_def)

section \<open>What the parts leave as it is\<close>

text \<open>The handshake does not close the connection.\<close>

definition auth_closed :: "auth_st \<Rightarrow> bool" where
  "auth_closed s = c_closed (as_conn s)"

lemma onConn_keeps: "keeps c_closed m \<Longrightarrow> keeps auth_closed (onConn m)"
  by (auto simp: keeps_def onConn_def go_lift_def auth_closed_def split: prod.splits)

lemma auth_closed_keeps [keeps_intros]:
  "keeps auth_closed (readInto off n)" "keeps auth_closed (bufSlice lo hi)" "keeps auth_closed (bufCopy lo hi src)"
  "keeps auth_closed (ofRes r)" "keeps auth_closed (onConn (nc_Write b))" "keeps auth_closed (onConn (nc_SetDeadline d))"
  "keeps auth_closed auth_binding"
proof -
  have nc: "nc_ReadFull n c = (r, c') \<Longrightarrow> c_closed c' = c_closed c" for n c r c'
    by (auto simp: nc_ReadFull_def split: if_splits prod.splits)
  show "keeps auth_closed (readInto off n)"
    by (auto simp: keeps_def readInto_def auth_closed_def dest: nc split: prod.splits if_splits)
  show "keeps auth_closed (bufSlice lo hi)" "keeps auth_closed (bufCopy lo hi src)"
    by (auto simp: keeps_def bufSlice_def bufCopy_def auth_closed_def)
  show "keeps auth_closed (ofRes r)" by (auto simp: keeps_def ofRes_def)
  show "keeps auth_closed auth_binding"
    by (auto simp: keeps_def auth_binding_def wrapf_def ofRes_def split: option.splits res.splits)
  show "keeps auth_closed (onConn (nc_Write b))" "keeps auth_closed (onConn (nc_SetDeadline d))"
    by (rule onConn_keeps; auto simp: keeps_def nc_Write_def nc_SetDeadline_def
        split: prod.splits if_splits list.splits option.splits)+
qed

lemma authenticate_keeps: "keeps auth_closed (authenticate E timeout ttl)"
  unfolding authenticate_def auth_body_def auth_hello_def auth_response_def recv_typed_def
    auth_challenge_def auth_signature_def auth_finish_def Let_def
  by (intro keeps_intros)

text \<open>Nor does reading a message.\<close>

definition msg_closed :: "'n msg_st \<Rightarrow> bool" where
  "msg_closed s = c_closed (ms_conn s)"

lemma readBuf_open [keeps_intros]: "keeps msg_closed (readBuf n)"
  by (auto simp: keeps_def readBuf_def msg_closed_def nc_ReadFull_def split: prod.splits if_splits)

lemma publishMessage_open [keeps_intros]: "keeps msg_closed (publishMessage api marshal now peerHex to i b)"
  by (auto simp: keeps_def msg_closed_def publishMessage_def go_lift_def wrapf_def Let_def
      split: prod.splits res.splits)

lemma handleBuf_open: "keeps msg_closed (handleBuf api marshal now lim peerHex)"
  unfolding handleBuf_def recvFrame_def parseFrame_def Let_def
  by (intro keeps_intros) (auto intro!: keeps_intros split: prod.split)

lemma handleMessage_open:
  assumes "handleMessage api marshal now N lim peerHex s = (r, t)"
  shows "c_closed (ms_conn t) = c_closed (ms_conn s)"
proof -
  obtain b pool where bp: "pool_Get (replicate N 0) (ms_pool s) = (b, pool)" by (metis surj_pair)
  obtain r' t' where h: "handleBuf api marshal now lim peerHex (s\<lparr>ms_pool := pool, ms_buf := b\<rparr>) = (r', t')"
    by (metis surj_pair)
  from keepsD [OF handleBuf_open h] have "c_closed (ms_conn t') = c_closed (ms_conn s)"
    by (simp add: msg_closed_def)
  with assms bp h show ?thesis by (auto simp: handleMessage_def)
qed

section \<open>Operations of a peer keep its part of the invariant\<close>

lemma peer_ok_Close: "peer_ok sv (pe_peer e) \<Longrightarrow> peer_ok sv (pe_peer (Peer_Close api e))"
  using Peer_Close_ok [of e api] by (simp add: peer_ok_def Peer_Close_frame) (simp add: Peer_Close_peer Let_def)

lemma peer_ok_frame:
  "peer_ok sv p \<Longrightarrow> peer_frame p' = peer_frame (p\<lparr>p_writeCh := q\<rparr>) \<Longrightarrow> length q \<le> length (p_writeCh p) \<Longrightarrow> peer_ok sv p'"
  by (auto simp: peer_ok_def peer_frame_def close_ok_def)

lemma peer_ok_turn:
  assumes "peer_ok sv (pe_peer e)" "writeLoop_turn api pick now e = (t, e')"
  shows "peer_ok sv (pe_peer e') \<and> p_id (pe_peer e') = p_id (pe_peer e)"
proof (cases rule: writeLoop_cases [of api pick now e])
  case (sent data rest p)
  with assms(2) peer_ok_frame [OF assms(1) writeMessage_result(1) [OF sent(2)]] writeMessage_result(1) [OF sent(2)]
  show ?thesis by (auto simp: peer_frame_def)
next
  case (broken data rest r p)
  have "peer_ok sv p" "p_id p = p_id (pe_peer e)"
    using peer_ok_frame [OF assms(1) writeMessage_result(1) [OF broken(2)]] writeMessage_result(1) [OF broken(2)] broken(1)
    by (auto simp: peer_frame_def)
  with broken(4) assms(2) peer_ok_Close [of sv "e\<lparr>pe_peer := p\<rparr>" api] show ?thesis
    by (auto simp: Peer_Close_frame)
qed (use assms in auto)

lemma peer_ok_deliver:
  assumes "peer_ok sv (pe_peer e)"
  shows "peer_ok sv (pe_peer (handleNATSMessage api pick data e))
    \<and> p_id (pe_peer (handleNATSMessage api pick data e)) = p_id (pe_peer e)"
proof (cases rule: handleNATSMessage_cases [of api pick data e])
  case queued
  then show ?thesis using assms by (auto simp: peer_ok_def close_ok_def)
next
  case slow
  then show ?thesis using peer_ok_Close [OF assms] by (simp add: Peer_Close_frame)
qed (use assms in auto)

lemma peer_ok_AllowMessage:
  "AllowMessage allow p = (b, p') \<Longrightarrow> peer_ok sv p' = peer_ok sv p \<and> p_id p' = p_id p \<and> p_conn p' = p_conn p
     \<and> p_pubKeyHex p' = p_pubKeyHex p"
  by (auto simp: AllowMessage_def peer_ok_def close_ok_def split: prod.splits)

lemma peer_ok_conn:
  "peer_ok sv p \<Longrightarrow> c_closed c = c_closed (p_conn p) \<Longrightarrow> peer_ok sv (p\<lparr>p_conn := c\<rparr>)"
  by (simp add: peer_ok_def close_ok_def)

section \<open>Every step keeps the invariant\<close>

lemma inv_accept:
  assumes "router_inv sv rt" "\<not> c_closed conn" "exporter_total (c_tls conn)"
  shows "router_inv sv (acceptConn conn rt)"
proof -
  let ?n = "rt_next rt"
  have fresh: "?n \<notin> active_conns rt" "rt_conns rt ?n = None"
    using assms(1) by (auto simp: router_inv_def active_conns_def) (metis less_irrefl not_None_eq)
  note fin = finite_active [OF assms(1)]
  show ?thesis
  proof (cases "rt_authSem rt")
    case Nil
    have "handler_ok sv (new_handler Refused (snd (nc_Close conn)) [])"
      by (simp add: handler_ok_def new_handler_def before_peer_def active_def)
    moreover have "active_conns (acceptConn conn rt) = active_conns rt"
      using fresh by (auto simp: acceptConn_def Nil active_conns_def new_handler_def active_def)
    moreover have "table_ok (acceptConn conn rt)"
      using assms(1) fresh by (fastforce simp: acceptConn_def Nil router_inv_def table_ok_def)
    ultimately show ?thesis using assms(1) by (auto simp: router_inv_def acceptConn_def Nil less_SucI)
  next
    case (Cons b rest)
    have b: "server_buf (server_id sv) b" using assms(1) Cons by (simp add: router_inv_def)
    then have "handler_ok sv (new_handler Authenticating conn b)"
      using assms(2,3) by (simp add: handler_ok_def new_handler_def before_peer_def)
    moreover have "active_conns (acceptConn conn rt) = insert ?n (active_conns rt)"
      using fresh by (auto simp: acceptConn_def Cons active_conns_def new_handler_def active_def)
    moreover have "table_ok (acceptConn conn rt)"
      using assms(1) fresh by (fastforce simp: acceptConn_def Cons router_inv_def table_ok_def)
    ultimately show ?thesis
      using assms(1) fresh(1) fin by (auto simp: router_inv_def acceptConn_def Cons less_SucI)
  qed
qed

lemma inv_returnEarly:
  assumes "router_inv sv rt" "rt_conns rt k = Some h0" "before_peer (h_pc h0)"
    and "h_peer h = None" "server_buf (server_id sv) (h_buf h)"
  shows "router_inv sv (returnEarly k h rt)"
proof -
  have "active h0" "\<not> registered (h_pc h0)"
    using assms(3) by (auto simp: before_peer_def active_def registered_def)
  moreover have "handler_ok sv (h\<lparr>h_pc := Done, h_conn := snd (nc_Close (h_conn h))\<rparr>)"
    using assms(4) by (simp add: handler_ok_def before_peer_def active_def)
  ultimately show ?thesis
    unfolding returnEarly_def using assms(1,2,5) not_registered [OF assms(1,2)]
    by (intro inv_release) (auto simp: active_def)
qed

lemma inv_auth:
  assumes "router_inv sv rt" "rt_conns rt k = Some h" "h_pc h = Authenticating" "\<And>n p. ae_rand E n \<noteq> Panic p"
  shows "router_inv sv (doAuthenticate sv E k h rt)"
proof -
  let ?lim = "cf_Limits (sv_cfg sv)"
  let ?s = "\<lparr>as_conn = h_conn h, as_buf = h_buf h\<rparr>"
  have h: "h_peer h = None" "\<not> c_closed (h_conn h)" "exporter_total (c_tls (h_conn h))"
    "server_buf (server_id sv) (h_buf h)" "active h"
    using inv_handler [OF assms(1,2)] assms(3) by (auto simp: handler_ok_def before_peer_def active_def)
  obtain r s where a: "authenticate E (lc_AuthTimeout ?lim) (lc_ChallengeTTL ?lim) ?s = (r, s)"
    by (metis surj_pair)
  have i: "server_buf (server_id sv) (as_buf s)" "c_tls (as_conn s) = c_tls (h_conn h)" "\<And>p. r \<noteq> Panic p"
    using safeD [OF authenticate_safe [OF assms(4) h(3)], of "server_id sv" ?s] h(4) a by auto
  have c: "\<not> c_closed (as_conn s)"
    using keepsD [OF authenticate_keeps a] h(2) by (simp add: auth_closed_def)
  have len: "length (slice (as_buf s) offPubKey (offPubKey + PublicKeySize)) = PublicKeySize"
    using i(1) by (simp add: server_buf_def slice_def offPubKey_def sizes)
  show ?thesis
  proof (cases r)
    case (Ok u)
    have "authentic sv (slice (as_buf s) offPubKey (offPubKey + PublicKeySize))"
      unfolding authentic_def using len h(4) a Ok
      by (intro conjI exI [of _ E] exI [of _ ?s] exI [of _ s]) simp_all
    then have "handler_ok sv (h\<lparr>h_conn := as_conn s, h_buf := as_buf s, h_pc := Subscribing\<rparr>)"
      using h i c by (simp add: handler_ok_def before_peer_def)
    with Ok a show ?thesis
      using not_registered [OF assms(1,2)] assms(3) h(5)
      by (auto simp: doAuthenticate_def Let_def registered_def active_def intro!: inv_set [OF assms(1,2)])
  next
    case (Err e)
    with a show ?thesis
      using h(1) i(1) assms(3)
      by (auto simp: doAuthenticate_def Let_def before_peer_def intro!: inv_returnEarly [OF assms(1,2)])
  next
    case (Panic p)
    with i(3) show ?thesis by blast
  qed
qed

text \<open>What the server relies on: a subscription, a publication and the serialiser do not panic.\<close>

definition server_total :: "('n, 's, 'h, 'l) server \<Rightarrow> bool" where
  "server_total sv \<longleftrightarrow> (\<forall>subj h. no_panic (nats_Subscribe (sv_api sv) subj h))
     \<and> (\<forall>subj d. no_panic (nats_Publish (sv_api sv) subj d)) \<and> (\<forall>m p. sv_marshal sv m \<noteq> Panic p)"

lemma newPeer_no_panic:
  assumes "\<And>subj h. no_panic (nats_Subscribe api subj h)"
  shows "newPeer api mk h conn i cap timeout rate burst n \<noteq> (Panic p, n')"
proof (cases "nats_Subscribe api (subjectForClient (hex_EncodeToString i)) h n")
  case (Pair r n1)
  with assms have "r \<noteq> Panic p" by (metis no_panic_def fst_conv)
  with Pair show ?thesis
    by (cases r) (auto simp: newPeer_def NewSubscriber_def Let_def wrapf_def go_bind_def go_return_def)
qed

lemma inv_subscribe:
  assumes "router_inv sv rt" "rt_conns rt k = Some h" "h_pc h = Subscribing" "server_total sv"
  shows "router_inv sv (doSubscribe sv k h rt)"
proof -
  let ?i = "slice (h_buf h) offPubKey (offPubKey + PublicKeySize)"
  let ?lim = "cf_Limits (sv_cfg sv)"
  have h: "h_peer h = None" "\<not> c_closed (h_conn h)" "server_buf (server_id sv) (h_buf h)" "active h" "authentic sv ?i"
    using inv_handler [OF assms(1,2)] assms(3) by (auto simp: handler_ok_def before_peer_def active_def)
  obtain r n where p: "newPeer (sv_api sv) (sv_newLimiter sv) (sv_handler sv k) (h_conn h) ?i WriteBufferSize
      WriteTimeout (lc_RateLimitPerSec ?lim) (lc_RateLimitBurst ?lim) (rt_nats rt) = (r, n)"
    by (metis surj_pair)
  have inv: "router_inv sv (rt\<lparr>rt_nats := n\<rparr>)" "rt_conns (rt\<lparr>rt_nats := n\<rparr>) k = Some h" using assms(1,2) by simp_all
  show ?thesis
  proof (cases r)
    case (Ok peer)
    have "peer_ok sv peer"
      using newPeer_fields [OF p [unfolded Ok]] h(2,5) by (simp add: peer_ok_def close_ok_def)
    then have "handler_ok sv (h\<lparr>h_pc := LookingUp, h_peer := Some peer\<rparr>)"
      using h by (simp add: handler_ok_def before_peer_def active_def)
    with Ok p show ?thesis
      using not_registered [OF inv] assms(3) h(4)
      by (auto simp: doSubscribe_def Let_def registered_def active_def intro!: inv_set [OF inv])
  next
    case (Err e)
    with p show ?thesis
      using h(1,3) assms(3) by (auto simp: doSubscribe_def Let_def before_peer_def intro!: inv_returnEarly [OF inv])
  next
    case (Panic q)
    have "\<And>subj h. no_panic (nats_Subscribe (sv_api sv) subj h)" using assms(4) by (simp add: server_total_def)
    with p Panic show ?thesis by (simp add: newPeer_no_panic)
  qed
qed

lemma inv_look_up:
  assumes "router_inv sv rt" "rt_conns rt k = Some h" "h_pc h = LookingUp" "h_peer h = Some p"
  shows "router_inv sv (doLookUp k h p rt)"
proof -
  have ok: "handler_ok sv h" using inv_handler [OF assms(1,2)] .
  have nr: "rt_peers rt i \<noteq> Some k" for i
    using not_registered [OF assms(1,2)] assms(3) by (simp add: registered_def)
  have s: "router_inv sv (setHandler k (h\<lparr>h_pc := pc\<rparr>) rt)" if "pc = Storing \<or> (\<exists>j. pc = ClosingOld j)" for pc
    using that ok assms(3) nr
    by (intro inv_set [OF assms(1,2)]) (auto simp: handler_ok_def before_peer_def active_def)
  show ?thesis
  proof (cases "rt_peers rt (p_id p)")
    case None
    then show ?thesis using s by (simp add: doLookUp_def)
  next
    case (Some j)
    then show ?thesis using inv_unregister [OF s [of "ClosingOld j"], of "p_id p"] by (simp add: doLookUp_def)
  qed
qed

text \<open>Closing any peer, in the table or not, by whichever goroutine.\<close>

lemma handler_ok_peer:
  "handler_ok sv h \<Longrightarrow> h_peer h = Some p \<Longrightarrow> peer_ok sv p' \<Longrightarrow> handler_ok sv (h\<lparr>h_peer := Some p', h_writer := w\<rparr>)"
  "handler_ok sv h \<Longrightarrow> h_peer h = Some p \<Longrightarrow> peer_ok sv p' \<Longrightarrow> handler_ok sv (h\<lparr>h_peer := Some p'\<rparr>)"
  by (auto simp: handler_ok_def active_def)

lemma inv_peer_update:
  assumes "router_inv sv rt" "rt_conns rt k = Some h" "h_peer h = Some p" "peer_ok sv p'" "p_id p' = p_id p"
  shows "router_inv sv (setHandler k (h\<lparr>h_peer := Some p', h_writer := w\<rparr>) rt)"
    "router_inv sv (setHandler k (h\<lparr>h_peer := Some p'\<rparr>) rt)"
proof -
  have r: "registered (h_pc h) \<and> i = p_id p" if "rt_peers rt i = Some k" for i
    using not_registered [OF assms(1,2)] registered_id [OF assms(1-3)] that by blast
  have ok: "handler_ok sv h" using inv_handler [OF assms(1,2)] .
  show "router_inv sv (setHandler k (h\<lparr>h_peer := Some p', h_writer := w\<rparr>) rt)"
    "router_inv sv (setHandler k (h\<lparr>h_peer := Some p'\<rparr>) rt)"
    using r handler_ok_peer [OF ok assms(3,4)] assms(5)
    by (auto simp: active_def intro!: inv_set [OF assms(1,2)])
qed

lemma handler_peer_ok: "router_inv sv rt \<Longrightarrow> rt_conns rt k = Some h \<Longrightarrow> h_peer h = Some p \<Longrightarrow> peer_ok sv p"
  using inv_handler [of sv rt k h] by (simp add: handler_ok_def)

lemma inv_closePeer:
  assumes "router_inv sv rt"
  shows "router_inv sv (closePeer api j rt)"
proof (cases "rt_conns rt j")
  case (Some h)
  note h = this
  show ?thesis
  proof (cases "h_peer h")
    case (Some p)
    let ?e = "\<lparr>pe_peer = p, pe_nats = rt_nats rt\<rparr>"
    have "peer_ok sv (pe_peer (Peer_Close api ?e))" "p_id (pe_peer (Peer_Close api ?e)) = p_id p"
      using peer_ok_Close [of sv ?e api] handler_peer_ok [OF assms h Some] by (simp_all add: Peer_Close_frame)
    from inv_peer_update(2) [OF assms h Some this] show ?thesis
      by (simp add: closePeer_def h Some Let_def)
  qed (simp add: closePeer_def h assms)
qed (simp add: closePeer_def assms)

lemma closePeer_conns:
  "rt_conns (closePeer api j rt) k =
     (if k = j then map_option (\<lambda>h. h\<lparr>h_peer := map_option
        (\<lambda>p. pe_peer (Peer_Close api \<lparr>pe_peer = p, pe_nats = rt_nats rt\<rparr>)) (h_peer h)\<rparr>) (rt_conns rt k)
      else rt_conns rt k)"
proof (cases "rt_conns rt j")
  case (Some h)
  then show ?thesis by (cases "h_peer h") (auto simp: closePeer_def Let_def)
qed (simp add: closePeer_def)

lemma inv_close_old:
  assumes "router_inv sv rt" "rt_conns rt k = Some h" "h_pc h = ClosingOld j"
  shows "router_inv sv (doCloseOld api k j rt)"
proof -
  let ?rt = "closePeer api j rt"
  note i = inv_closePeer [OF assms(1), of api j]
  obtain h' where h': "rt_conns ?rt k = Some h'" "h_pc h' = ClosingOld j"
    using assms(2,3) by (cases "k = j") (simp_all add: closePeer_conns)
  have "handler_ok sv (h'\<lparr>h_pc := Storing\<rparr>)"
    using inv_handler [OF i h'(1)] h'(2) by (auto simp: handler_ok_def before_peer_def active_def)
  then have "router_inv sv (setHandler k (h'\<lparr>h_pc := Storing\<rparr>) ?rt)"
    using not_registered [OF i h'(1)] h'(2)
    by (intro inv_set [OF i h'(1)]) (auto simp: active_def registered_def)
  then show ?thesis by (simp add: doCloseOld_def setPc_def h'(1))
qed

lemma inv_store:
  assumes "router_inv sv rt" "rt_conns rt k = Some h" "h_pc h = Storing" "h_peer h = Some p"
  shows "router_inv sv (doStore k h p rt)"
proof -
  let ?h = "h\<lparr>h_pc := Reading, h_writer := True\<rparr>"
  have "handler_ok sv ?h"
    using inv_handler [OF assms(1,2)] assms(3) by (auto simp: handler_ok_def before_peer_def active_def)
  then have i: "router_inv sv (setHandler k ?h rt)"
    using not_registered [OF assms(1,2)] assms(3)
    by (intro inv_set [OF assms(1,2)]) (auto simp: active_def registered_def)
  then have "table_ok (doStore k h p rt)"
    using assms(4) by (auto simp: router_inv_def doStore_def table_ok_def registered_def)
  with i show ?thesis by (simp add: router_inv_def doStore_def)
qed

lemma inv_pc:
  assumes "router_inv sv rt" "rt_conns rt k = Some h" "h_pc h = Reading" "h_peer h = Some p" "peer_ok sv p'" "p_id p' = p_id p"
  shows "router_inv sv (setHandler k (h\<lparr>h_pc := Deleting, h_peer := Some p'\<rparr>) rt)"
proof -
  have "handler_ok sv (h\<lparr>h_pc := Deleting, h_peer := Some p'\<rparr>)"
    using inv_handler [OF assms(1,2)] assms(3,5) by (auto simp: handler_ok_def before_peer_def active_def)
  then show ?thesis
    using registered_id [OF assms(1,2,4)] assms(3,6)
    by (intro inv_set [OF assms(1,2)]) (auto simp: active_def registered_def)
qed

lemma inv_read:
  assumes "router_inv sv rt" "rt_conns rt k = Some h" "h_pc h = Reading" "h_peer h = Some p" "server_total sv"
    and "4 \<le> lc_MaxMessageSize (cf_Limits (sv_cfg sv))"
  shows "router_inv sv (doRead sv allow now k h p rt)"
proof -
  let ?M = "lc_MaxMessageSize (cf_Limits (sv_cfg sv))"
  have ok: "peer_ok sv p" using handler_peer_ok [OF assms(1,2,4)] .
  show ?thesis
  proof (cases "p_closeCh p")
    case True
    have "h\<lparr>h_pc := Deleting, h_peer := Some p\<rparr> = h\<lparr>h_pc := Deleting\<rparr>" using assms(4) by simp
    then show ?thesis using inv_pc [OF assms(1-4) ok refl] True by (simp add: doRead_def)
  next
    case False
    obtain b p1 where a: "AllowMessage allow p = (b, p1)" by (metis surj_pair)
    note f = peer_ok_AllowMessage [OF a, of sv]
    show ?thesis
    proof (cases b)
      case b: False
      then show ?thesis using inv_pc [OF assms(1-4), of p1] f ok False a by (simp add: doRead_def)
    next
      case True
      let ?s = "\<lparr>ms_conn = p_conn p1, ms_pool = rt_msgPool rt, ms_buf = [],
          ms_messagePool = rt_messagePool rt, ms_nats = rt_nats rt\<rparr>"
      obtain r s where m: "handleMessage (sv_api sv) (sv_marshal sv) now (nat ?M) ?M (p_pubKeyHex p1) ?s = (r, s)"
        by (metis surj_pair)
      have i: "int (nat ?M) = ?M" "pool_ok (nat ?M) ?s" "4 \<le> nat ?M"
        using assms(1,6) by (auto simp: router_inv_def pool_ok_def)
      have t: "\<And>m p. sv_marshal sv m \<noteq> Panic p" "\<And>subj d. no_panic (nats_Publish (sv_api sv) subj d)"
        using assms(5) by (simp_all add: server_total_def)
      have pl: "r \<noteq> Panic q \<and> pool_ok (nat ?M) s" for q
        by (rule handleMessage_no_panic [where now = now and peerHex = "p_pubKeyHex p1" and marshal = "sv_marshal sv"
              and api = "sv_api sv", OF i(2,3) t]) (simp only: i(1) m)
      let ?rt = "rt\<lparr>rt_msgPool := ms_pool s, rt_messagePool := ms_messagePool s, rt_nats := ms_nats s\<rparr>"
      have inv: "router_inv sv ?rt" using pl assms(1) by (intro inv_pools) (auto simp: pool_ok_def)
      have k: "rt_conns ?rt k = Some h" using assms(2) by simp
      have "peer_ok sv (p1\<lparr>p_conn := ms_conn s\<rparr>)" "p_id (p1\<lparr>p_conn := ms_conn s\<rparr>) = p_id p"
        using f ok handleMessage_open [OF m] by (auto intro!: peer_ok_conn)
      note u = inv_peer_update(2) [OF inv k assms(4) this] inv_pc [OF inv k assms(3,4) this]
      have "\<forall>q. r \<noteq> Panic q" using pl by blast
      then show ?thesis
        using u False True a m by (cases r) (simp_all add: doRead_def Let_def)
    qed
  qed
qed

lemma inv_delete:
  assumes "router_inv sv rt" "rt_conns rt k = Some h" "h_pc h = Deleting" "h_peer h = Some p"
  shows "router_inv sv (doDelete k h p rt)"
proof -
  let ?rt = "rt\<lparr>rt_peers := (rt_peers rt)(p_id p := None)\<rparr>"
  have i: "router_inv sv ?rt" "rt_conns ?rt k = Some h" using inv_unregister [OF assms(1)] assms(2) by simp_all
  have n: "rt_peers ?rt i \<noteq> Some k" for i using registered_id [OF assms(1,2,4), of i] by auto
  have "handler_ok sv (h\<lparr>h_pc := Closing\<rparr>)"
    using inv_handler [OF assms(1,2)] assms(3) by (auto simp: handler_ok_def before_peer_def active_def)
  then have "router_inv sv (setHandler k (h\<lparr>h_pc := Closing\<rparr>) ?rt)"
    using n assms(3) by (intro inv_set [OF i]) (auto simp: active_def)
  then show ?thesis by (simp add: doDelete_def)
qed

lemma inv_close:
  assumes "router_inv sv rt" "rt_conns rt k = Some h" "h_pc h = Closing" "h_peer h = Some p"
  shows "router_inv sv (doClose api k h p rt)"
proof -
  let ?e = "Peer_Close api \<lparr>pe_peer = p, pe_nats = rt_nats rt\<rparr>"
  let ?p = "(pe_peer ?e)\<lparr>p_conn := snd (nc_Close (p_conn (pe_peer ?e)))\<rparr>"
  have ok: "peer_ok sv (pe_peer ?e)"
    using peer_ok_Close [of sv "\<lparr>pe_peer = p, pe_nats = rt_nats rt\<rparr>"] handler_peer_ok [OF assms(1,2,4)] by simp
  have "c_closed (p_conn (pe_peer ?e))"
    using ok Peer_Close_once [of api] by (auto simp: peer_ok_def close_ok_def)
  then have "peer_ok sv ?p" using ok by (intro peer_ok_conn) (simp_all add: nc_Close_closed)
  then have "handler_ok sv (h\<lparr>h_pc := Done, h_peer := Some ?p\<rparr>)"
    by (simp add: handler_ok_def before_peer_def active_def)
  moreover have "active h" "server_buf (server_id sv) (h_buf h)"
    using inv_handler [OF assms(1,2)] assms(3) by (auto simp: handler_ok_def active_def)
  ultimately have "router_inv sv ((setHandler k (h\<lparr>h_pc := Done, h_peer := Some ?p\<rparr>) rt)
      \<lparr>rt_authSem := rt_authSem rt @ [h_buf h]\<rparr>)"
    using not_registered [OF assms(1,2)] assms(3)
    by (intro inv_release [OF assms(1,2)]) (auto simp: active_def registered_def)
  then have "router_inv sv ((setHandler k (h\<lparr>h_pc := Done, h_peer := Some ?p\<rparr>) rt)
      \<lparr>rt_authSem := rt_authSem rt @ [h_buf h], rt_nats := pe_nats ?e\<rparr>)" by (simp only: inv_nats)
  then show ?thesis by (simp add: doClose_def Let_def)
qed

lemma router_inv_step:
  assumes "server_total sv" "4 \<le> lc_MaxMessageSize (cf_Limits (sv_cfg sv))" "router_inv sv rt" "router_step sv rt rt'"
  shows "router_inv sv rt'"
  using assms(4)
proof (cases rule: router_step.cases)
  case (write_turn k h p pick now)
  obtain t e where w: "writeLoop_turn (sv_api sv) pick now \<lparr>pe_peer = p, pe_nats = rt_nats rt\<rparr> = (t, e)"
    by (metis surj_pair)
  have "peer_ok sv (pe_peer e)" "p_id (pe_peer e) = p_id p"
    using peer_ok_turn [OF _ w, of sv] handler_peer_ok [OF assms(3) write_turn(2,4)] by simp_all
  from inv_peer_update(1) [OF assms(3) write_turn(2,4) this] write_turn(1) w show ?thesis
    by (simp add: doWrite_def)
next
  case (deliver k h p pick data)
  let ?e = "handleNATSMessage (sv_api sv) pick data \<lparr>pe_peer = p, pe_nats = rt_nats rt\<rparr>"
  have "peer_ok sv (pe_peer ?e)" "p_id (pe_peer ?e) = p_id p"
    using peer_ok_deliver [of sv "\<lparr>pe_peer = p, pe_nats = rt_nats rt\<rparr>" "sv_api sv" pick data]
      handler_peer_ok [OF assms(3) deliver(2,3)]
    by simp_all
  from inv_peer_update(2) [OF assms(3) deliver(2,3) this] deliver(1) show ?thesis
    by (simp add: doDeliver_def Let_def)
qed (use assms(1-3) in \<open>auto intro: inv_accept inv_auth inv_subscribe inv_look_up inv_close_old inv_store inv_read
    inv_delete inv_close\<close>)

lemma authBuffer_ok: "length sid = ServerIDSize \<Longrightarrow> server_buf sid (authBuffer sid)"
  by (simp add: server_buf_def authBuffer_def slice_def copy_at_def sizes offServerID_def)

lemma router_inv_init:
  assumes "router_init sv loadPair rt"
  shows "router_inv sv rt"
proof -
  let ?id = "bytes_of_string (sc_ServerID (cf_Server (sv_cfg sv)))"
  obtain brk where rt: "rt = \<lparr>rt_authSem = replicate (nat (lc_MaxConnections (cf_Limits (sv_cfg sv)))) (authBuffer (server_id sv)),
      rt_peers = Map.empty, rt_conns = Map.empty, rt_next = 0, rt_msgPool = [],
      rt_messagePool = [], rt_nats = brk, rt_crashed = False\<rparr>" and l: "length ?id \<le> ServerIDSize"
    using assms by (auto simp: router_init_def Serve_setup_def server_id_def Let_def split: res.splits if_splits)
  have "server_buf (server_id sv) (authBuffer (server_id sv))"
    using l by (intro authBuffer_ok) (simp add: server_id_def)
  then show ?thesis by (auto simp: rt router_inv_def active_conns_def table_ok_def)
qed

text \<open>A server whose libraries do not panic and whose message size leaves room for a header.\<close>

definition good_server :: "('n, 's, 'h, 'l) server \<Rightarrow> bool" where
  "good_server sv \<longleftrightarrow> server_total sv \<and> 4 \<le> lc_MaxMessageSize (cf_Limits (sv_cfg sv))"

interpretation router_invariant: inductive_invariant
    "\<lambda>rt. good_server sv \<and> router_init sv loadPair rt" "router_step sv" "\<lambda>rt. good_server sv \<and> router_inv sv rt"
  for sv :: "('n, 's, 'h, 'l) server" and loadPair
  by unfold_locales (auto simp: good_server_def intro: router_inv_init router_inv_step)

lemma router_reachable_inv:
  assumes "good_server sv" "reachable (router_init sv loadPair) (router_step sv) rt"
  shows "router_inv sv rt"
proof -
  have "reachable (\<lambda>rt. good_server sv \<and> router_init sv loadPair rt) (router_step sv) rt"
    using assms by (auto simp: reachable_def)
  then show ?thesis by (rule router_invariant.inv_reachable [THEN conjunct2])
qed

section \<open>A server to evaluate the theorems on\<close>

definition ex_cfg :: Config where
  "ex_cfg = Default\<lparr>cf_Server := \<lparr>sc_Host = '''', sc_Port = 1, sc_ServerID = string_of_bytes ex_sid\<rparr>,
     cf_Limits := (cf_Limits Default)\<lparr>lc_MaxConnections := 3\<rparr>\<rparr>"

definition ex_sv :: "((string \<times> bytes) list, unit, unit, unit) server" where
  "ex_sv = \<lparr>sv_api = ex_nats, sv_newLimiter = (\<lambda>_ _. ()), sv_handler = (\<lambda>_. ()), sv_marshal = ex_marshal, sv_cfg = ex_cfg\<rparr>"

definition ex_load :: "string \<Rightarrow> string \<Rightarrow> unit res" where
  "ex_load c k = Ok ()"

definition ex_rt :: "((string \<times> bytes) list, unit, unit) router" where
  "ex_rt = \<lparr>rt_authSem = replicate 3 (as_buf ex_st), rt_peers = Map.empty, rt_conns = Map.empty, rt_next = 0,
     rt_msgPool = [], rt_messagePool = [], rt_nats = [], rt_crashed = False\<rparr>"

lemma ex_init_rt: "router_init ex_sv ex_load ex_rt"
proof -
  have "bytes_of_string (string_of_bytes ex_sid) = ex_sid" by simp
  moreover have "copy_at (replicate ServerIDSize 0) 0 ex_sid = ex_sid" "length ex_sid = ServerIDSize"
    by (simp_all add: copy_at_def ex_sid_def sizes)
  ultimately show ?thesis
    by (simp add: router_init_def Serve_setup_def buildTLSConfig_def ex_load_def Broker_New_def ex_sv_def ex_nats_def
        ex_cfg_def Default_def ex_rt_def authBuffer_def ex_st_def Let_def)
qed

lemma ex_good: "good_server ex_sv"
  by (simp add: good_server_def server_total_def no_panic_def ex_sv_def ex_nats_def ex_marshal_def ex_cfg_def Default_def)

lemma ex_reach: "reachable (router_init ex_sv ex_load) (router_step ex_sv) ex_rt"
  using ex_init_rt by (rule reachable_init)

section \<open>A run of the server\<close>

text \<open>Three connections of one client, each with the handshake of the example.\<close>

definition ex_tr_auth :: auth_st where
  "ex_tr_auth = snd (authenticate ex_env 10000000000 60000000000 ex_st)"

definition ex_tr_peer :: "(unit, unit) Peer" where
  "ex_tr_peer = (let i = slice (as_buf ex_tr_auth) offPubKey (offPubKey + PublicKeySize) in
     \<lparr>p_id = i, p_conn = as_conn ex_tr_auth, p_pubKeyHex = hex_EncodeToString i, p_subscriber = Some (),
      p_writeCh = [], p_writeCap = WriteBufferSize, p_closeCh = False, p_closeOnce = False,
      p_writeTimeout = WriteTimeout, p_lastDeadline = None, p_limiter = ()\<rparr>)"

definition ex_tr_h :: "hpc \<Rightarrow> bool \<Rightarrow> (unit, unit) handler" where
  "ex_tr_h pc w = \<lparr>h_pc = pc, h_conn = as_conn ex_tr_auth, h_buf = as_buf ex_tr_auth, h_peer = Some ex_tr_peer, h_writer = w\<rparr>"

lemma ex_tr_authenticate:
  "authenticate ex_env 10000000000 60000000000 \<lparr>as_conn = as_conn ex_st, as_buf = as_buf ex_st\<rparr> = (Ok (), ex_tr_auth)"
proof -
  have "c_dlplan (as_conn ex_st) = []" by (simp add: ex_st_def)
  from authenticate_ok_of_accepts [OF ex_ready this ex_accepts, of 10000000000]
  obtain t where "authenticate ex_env 10000000000 60000000000 ex_st = (Ok (), t)" ..
  moreover have "\<lparr>as_conn = as_conn ex_st, as_buf = as_buf ex_st\<rparr> = ex_st" by (cases ex_st) simp
  ultimately show ?thesis unfolding ex_tr_auth_def by (simp only: snd_conv)
qed

lemma ex_tr_connect:
  assumes "reachable (router_init ex_sv ex_load) (router_step ex_sv) rt" "rt_authSem rt = as_buf ex_st # rest" "rt_nats rt = []"
  shows "reachable (router_init ex_sv ex_load) (router_step ex_sv) (rt\<lparr>rt_authSem := rest, rt_next := Suc (rt_next rt),
      rt_conns := (rt_conns rt)(rt_next rt \<mapsto> ex_tr_h LookingUp False)\<rparr>)"
proof -
  let ?n = "rt_next rt"
  let ?at = "\<lambda>h. rt\<lparr>rt_authSem := rest, rt_next := Suc ?n, rt_conns := (rt_conns rt)(?n \<mapsto> h)\<rparr>"
  let ?h1 = "new_handler Authenticating (as_conn ex_st) (as_buf ex_st) :: (unit, unit) handler"
  let ?h2 = "new_handler Subscribing (as_conn ex_tr_auth) (as_buf ex_tr_auth) :: (unit, unit) handler"
  have "\<not> c_closed (as_conn ex_st)" "exporter_total (c_tls (as_conn ex_st))"
    by (simp_all add: ex_st_def exporter_total_def ex_tls_def)
  from router_step.accept [OF this, of ex_sv rt] have "router_step ex_sv rt (?at ?h1)"
    by (simp add: acceptConn_def assms(2))
  note r1 = reachable_step [OF assms(1) this]
  have "doAuthenticate ex_sv ex_env ?n ?h1 (?at ?h1) = ?at ?h2"
    using ex_tr_authenticate by (simp add: doAuthenticate_def ex_sv_def ex_cfg_def Default_def new_handler_def setHandler_def Let_def)
  moreover have "ae_rand ex_env n \<noteq> Panic p" for n p by (simp add: ex_env_def)
  ultimately have "router_step ex_sv (?at ?h1) (?at ?h2)"
    using router_step.auth [of "?at ?h1" ?n ?h1 ex_env ex_sv] by (simp add: new_handler_def)
  note r2 = reachable_step [OF r1 this]
  have "doSubscribe ex_sv ?n ?h2 (?at ?h2) = ?at (ex_tr_h LookingUp False)"
    using assms(3) by (simp add: doSubscribe_def ex_sv_def new_handler_def setHandler_def newPeer_def NewSubscriber_def
        ex_nats_def ex_tr_peer_def ex_tr_h_def go_return_def Let_def)
  then have "router_step ex_sv (?at ?h2) (?at (ex_tr_h LookingUp False))"
    using router_step.subscribe [of "?at ?h2" ?n ?h2 ex_sv] by (simp add: new_handler_def)
  from reachable_step [OF r2 this] show ?thesis .
qed

definition ex_at :: "bytes list \<Rightarrow> nat \<Rightarrow> (PeerID \<rightharpoonup> nat) \<Rightarrow> (nat \<rightharpoonup> (unit, unit) handler)
    \<Rightarrow> ((string \<times> bytes) list, unit, unit) router" where
  "ex_at a n q c = \<lparr>rt_authSem = a, rt_peers = q, rt_conns = c, rt_next = n, rt_msgPool = [], rt_messagePool = [],
     rt_nats = [], rt_crashed = False\<rparr>"

abbreviation ex_id :: PeerID where "ex_id \<equiv> p_id ex_tr_peer"
abbreviation ex_b :: bytes where "ex_b \<equiv> as_buf ex_st"

definition ex_tr1 :: "((string \<times> bytes) list, unit, unit) router" where
  "ex_tr1 = ex_at [ex_b, ex_b] 1 Map.empty [0 \<mapsto> ex_tr_h LookingUp False]"

definition ex_tr2 :: "((string \<times> bytes) list, unit, unit) router" where
  "ex_tr2 = ex_at [ex_b] 2 [ex_id \<mapsto> 0] [0 \<mapsto> ex_tr_h Reading True, 1 \<mapsto> ex_tr_h LookingUp False]"

lemmas ex_at_simps = ex_at_def ex_tr_h_def setHandler_def

lemma ex_tr_register:
  assumes "c k = Some (ex_tr_h LookingUp False)" "q ex_id = None"
    and "reachable (router_init ex_sv ex_load) (router_step ex_sv) (ex_at a n q c)"
  shows "reachable (router_init ex_sv ex_load) (router_step ex_sv) (ex_at a n (q(ex_id \<mapsto> k)) (c(k \<mapsto> ex_tr_h Reading True)))"
proof -
  let ?s = "ex_at a n q (c(k \<mapsto> ex_tr_h Storing False))"
  have "router_step ex_sv (ex_at a n q c) ?s"
    using router_step.look_up [of "ex_at a n q c" k "ex_tr_h LookingUp False" ex_tr_peer ex_sv] assms(1,2)
    by (simp add: doLookUp_def ex_at_simps)
  note 2 = reachable_step [OF assms(3) this]
  have "router_step ex_sv ?s (ex_at a n (q(ex_id \<mapsto> k)) (c(k \<mapsto> ex_tr_h Reading True)))"
    using router_step.store [of ?s k "ex_tr_h Storing False" ex_tr_peer ex_sv]
    by (simp add: doStore_def ex_at_simps)
  from reachable_step [OF 2 this] show ?thesis .
qed

lemma ex_tr_join:
  assumes "reachable (router_init ex_sv ex_load) (router_step ex_sv) (ex_at (ex_b # a) n q c)"
  shows "reachable (router_init ex_sv ex_load) (router_step ex_sv) (ex_at a (Suc n) q (c(n \<mapsto> ex_tr_h LookingUp False)))"
  using ex_tr_connect [OF assms, of a] by (simp add: ex_at_def)

lemma ex_tr_reach:
  "reachable (router_init ex_sv ex_load) (router_step ex_sv) ex_tr1"
  "reachable (router_init ex_sv ex_load) (router_step ex_sv) ex_tr2"
proof -
  let ?R = "reachable (router_init ex_sv ex_load) (router_step ex_sv)"
  have "?R (ex_at [ex_b, ex_b, ex_b] 0 Map.empty Map.empty)"
    using ex_reach by (simp add: ex_rt_def ex_at_def numeral_eq_Suc)
  from ex_tr_join [OF this] show 1: "?R ex_tr1" by (simp add: ex_tr1_def)
  have "?R (ex_at [ex_b, ex_b] 1 [ex_id \<mapsto> 0] [0 \<mapsto> ex_tr_h Reading True])"
    using ex_tr_register [OF _ _ 1 [unfolded ex_tr1_def], of 0] by simp
  from ex_tr_join [OF this] show "?R ex_tr2" by (simp add: ex_tr2_def numeral_eq_Suc)
qed

section \<open>Properties\<close>

text \<open>C7: the connection limit holds in every interleaving: buffers in the semaphore and handlers
  that have not returned always add up to the configured maximum, so no more connections than that
  are served, giving a buffer back never blocks, and the next connection is served exactly when
  there is room; every buffer keeps its size and the server's identifier.\<close>
theorem router_connection_limit:
  assumes "good_server sv" "reachable (router_init sv loadPair) (router_step sv) rt"
  shows "let N = nat (lc_MaxConnections (cf_Limits (sv_cfg sv))) in
    finite (active_conns rt) \<and> card (active_conns rt) + length (rt_authSem rt) = N
    \<and> (\<forall>b \<in> set (rt_authSem rt). server_buf (server_id sv) b)
    \<and> (\<forall>k h. rt_conns rt k = Some h \<and> active h \<longrightarrow> server_buf (server_id sv) (h_buf h) \<and> length (rt_authSem rt) < N)
    \<and> (\<exists>h. rt_conns (acceptConn conn rt) (rt_next rt) = Some h
          \<and> (h_pc h = Authenticating \<longleftrightarrow> card (active_conns rt) < N) \<and> (h_pc h = Refused \<longleftrightarrow> card (active_conns rt) = N))"
proof -
  let ?N = "nat (lc_MaxConnections (cf_Limits (sv_cfg sv)))"
  have i: "router_inv sv rt" using assms by (rule router_reachable_inv)
  have eq: "card (active_conns rt) + length (rt_authSem rt) = ?N" and fin: "finite (active_conns rt)"
    using i finite_active [OF i] by (simp_all add: router_inv_def)
  have "length (rt_authSem rt) < ?N" if "rt_conns rt k = Some h" "active h" for k h
  proof -
    have "k \<in> active_conns rt" using that by (auto simp: active_conns_def)
    then have "0 < card (active_conns rt)" using fin card_gt_0_iff by blast
    with eq show ?thesis by linarith
  qed
  moreover have "server_buf (server_id sv) (h_buf h)" if "rt_conns rt k = Some h" "active h" for k h
    using inv_handler [OF i that(1)] that(2) by (simp add: handler_ok_def)
  moreover have "\<exists>h. rt_conns (acceptConn conn rt) (rt_next rt) = Some h
      \<and> (h_pc h = Authenticating \<longleftrightarrow> card (active_conns rt) < ?N) \<and> (h_pc h = Refused \<longleftrightarrow> card (active_conns rt) = ?N)"
    using eq by (cases "rt_authSem rt") (auto simp: acceptConn_def new_handler_def)
  moreover have "\<forall>b \<in> set (rt_authSem rt). server_buf (server_id sv) b" using i by (simp add: router_inv_def)
  ultimately show ?thesis unfolding Let_def using eq fin by blast
qed

theorem router_connection_limit_witness:
  "card (active_conns ex_rt) + length (rt_authSem ex_rt) = 3"
  using router_connection_limit [OF ex_good ex_reach, of ex_conn]
  by (simp add: Let_def ex_sv_def ex_cfg_def)







text \<open>The run goes on: the second connection closes the first one and registers itself, then the
  first handler notices and cleans up.\<close>

definition ex_tr_closed :: "(unit, unit) Peer" where
  "ex_tr_closed = pe_peer (Peer_Close ex_nats \<lparr>pe_peer = ex_tr_peer, pe_nats = []\<rparr>)"

definition ex_tr3 :: "((string \<times> bytes) list, unit, unit) router" where
  "ex_tr3 = ex_at [ex_b] 2 Map.empty [0 \<mapsto> (ex_tr_h Closing True)\<lparr>h_peer := Some ex_tr_closed\<rparr>, 1 \<mapsto> ex_tr_h Reading True]"

lemma ex_tr_reach3: "reachable (router_init ex_sv ex_load) (router_step ex_sv) ex_tr3"
proof -
  let ?old = "\<lambda>pc. (ex_tr_h pc True)\<lparr>h_peer := Some ex_tr_closed\<rparr>"
  let ?at = "\<lambda>q a b. ex_at [ex_b] 2 q [0 \<mapsto> a, Suc 0 \<mapsto> b]"
  let ?reg = "[ex_id \<mapsto> Suc 0] :: PeerID \<rightharpoonup> nat"
  have c: "p_closeCh ex_tr_closed" "p_id ex_tr_closed = ex_id"
    by (simp_all add: ex_tr_closed_def Peer_Close_peer ex_tr_peer_def Let_def)
  have cl: "Peer_Close ex_nats \<lparr>pe_peer = ex_tr_peer, pe_nats = []\<rparr> = \<lparr>pe_peer = ex_tr_closed, pe_nats = []\<rparr>"
    by (simp add: ex_tr_closed_def Peer_Close_def ex_tr_peer_def ex_nats_def Subscriber_Unsubscribe_def Let_def)
  have u: "(m(0 \<mapsto> a, Suc 0 \<mapsto> b))(0 \<mapsto> a') = m(0 \<mapsto> a', Suc 0 \<mapsto> b)" for m :: "nat \<rightharpoonup> (unit, unit) handler" and a b a'
    by (simp add: fun_eq_iff)
  note [simp] = ex_at_simps u
  have "router_step ex_sv ex_tr2 (?at Map.empty (ex_tr_h Reading True) (ex_tr_h (ClosingOld 0) False))"
    using router_step.look_up [of ex_tr2 1 "ex_tr_h LookingUp False" ex_tr_peer ex_sv]
    by (simp add: ex_tr2_def doLookUp_def)
  note 1 = reachable_step [OF ex_tr_reach(2) this]
  have "router_step ex_sv (?at Map.empty (ex_tr_h Reading True) (ex_tr_h (ClosingOld 0) False))
      (?at Map.empty (?old Reading) (ex_tr_h Storing False))"
    using router_step.close_old [of "?at Map.empty (ex_tr_h Reading True) (ex_tr_h (ClosingOld 0) False)" 1
        "ex_tr_h (ClosingOld 0) False" 0 ex_sv]
    by (simp add: ex_sv_def doCloseOld_def setPc_def closePeer_def cl)
  note 2 = reachable_step [OF 1 this]
  have "router_step ex_sv (?at Map.empty (?old Reading) (ex_tr_h Storing False)) (?at ?reg (?old Reading) (ex_tr_h Reading True))"
    using router_step.store [of "?at Map.empty (?old Reading) (ex_tr_h Storing False)" 1 "ex_tr_h Storing False" ex_tr_peer ex_sv]
    by (simp add: doStore_def)
  note 3 = reachable_step [OF 2 this]
  have "router_step ex_sv (?at ?reg (?old Reading) (ex_tr_h Reading True)) (?at ?reg (?old Deleting) (ex_tr_h Reading True))"
    using router_step.read [of "?at ?reg (?old Reading) (ex_tr_h Reading True)" 0 "?old Reading" ex_tr_closed ex_sv "Pair True" 0] c(1)
    by (simp add: doRead_def)
  note 4 = reachable_step [OF 3 this]
  have "router_step ex_sv (?at ?reg (?old Deleting) (ex_tr_h Reading True)) ex_tr3"
    using router_step.delete [of "?at ?reg (?old Deleting) (ex_tr_h Reading True)" 0 "?old Deleting" ex_tr_closed ex_sv] c(2)
    by (simp add: doDelete_def ex_tr3_def)
  from reachable_step [OF 4 this] show ?thesis .
qed

text \<open>C37: the clean-up of a replaced connection takes the entry of its successor out of the table: there
  is a server and a reachable state in which two connections of the same client are being served,
  both open, because the second one was no longer in the table when the third came, although the
  code means to close an older connection of the client. The deferred \<open>peers.Delete\<close> does not check
  whose entry it deletes.\<close>
theorem stale_cleanup_leaves_two_connections:
  "\<exists>(rt :: ((string \<times> bytes) list, unit, unit) router) h1 h2 p1 p2.
     reachable (router_init ex_sv ex_load) (router_step ex_sv) rt
     \<and> rt_conns rt 1 = Some h1 \<and> h_peer h1 = Some p1 \<and> h_pc h1 = Reading \<and> \<not> p_closeOnce p1
     \<and> rt_conns rt 2 = Some h2 \<and> h_peer h2 = Some p2 \<and> h_pc h2 = Reading \<and> \<not> p_closeOnce p2
     \<and> p_id p1 = p_id p2 \<and> rt_peers rt (p_id p1) = Some 2"
proof -
  let ?R = "reachable (router_init ex_sv ex_load) (router_step ex_sv)"
  let ?c = "[0 \<mapsto> (ex_tr_h Closing True)\<lparr>h_peer := Some ex_tr_closed\<rparr>, 1 \<mapsto> ex_tr_h Reading True]"
  have "?R (ex_at [] (Suc 2) Map.empty (?c(2 \<mapsto> ex_tr_h LookingUp False)))"
    using ex_tr_join [OF ex_tr_reach3 [unfolded ex_tr3_def]] by simp
  from ex_tr_register [OF _ _ this, of 2]
  have r: "?R (ex_at [] (Suc 2) [ex_id \<mapsto> 2] (?c(2 \<mapsto> ex_tr_h Reading True)))" by simp
  show ?thesis
    by (rule exI, rule exI [of _ "ex_tr_h Reading True"], rule exI [of _ "ex_tr_h Reading True"],
        rule exI [of _ ex_tr_peer], rule exI [of _ ex_tr_peer], rule conjI, rule r)
       (simp add: ex_at_simps ex_tr_peer_def Let_def)
qed

end
