(* ===== verification/Server.thy ===== *)
theory Server
  imports Router
begin

text \<open>
  The server program: \<open>Run\<close> and \<open>Serve\<close> of \<open>src/pkg/router/router.go\<close> as a whole, with the
  listener, the broker's connection and the deferred calls, and \<open>src/cmd/sprut/main.go\<close>, which
  initialises the application directory, loads the settings, sets up the logger and runs the
  router. What happens while the accept loop runs is given as a sequence of events; the handlers
  of connections, whose actions are those of theory \<open>Router\<close>, may change the state of the router
  between any two of them.
\<close>

section \<open>Serve (router.go)\<close>

text \<open>A \<open>net.Listener\<close> and the TLS listener around it, which are closed together.\<close>

record listener =
  li_addr :: string
  li_closed :: bool

definition li_Close :: "listener \<Rightarrow> listener" where
  "li_Close l = l\<lparr>li_closed := True\<rparr>"

text \<open>
  The events of the accept loop: \<open>Accept\<close> gives a connection or fails; the context is cancelled,
  upon which a goroutine closes the listener; the handlers run.
\<close>

datatype ('n, 's, 'l) event =
    Accepted netconn
  | AcceptFails go_error
  | Cancelled
  | HandlersRun "('n, 's, 'l) router \<Rightarrow> ('n, 's, 'l) router"

text \<open>
  What the loop leaves: whether it has returned, whether the context is done, the listener, the
  state of the router, and the events that are left.
\<close>

record ('n, 's, 'l) loop_st =
  lo_returned :: bool
  lo_ctxDone :: bool
  lo_lis :: listener
  lo_router :: "('n, 's, 'l) router"

definition loop_event :: "('n, 's, 'l) event \<Rightarrow> ('n, 's, 'l) loop_st \<Rightarrow> ('n, 's, 'l) loop_st" where
  "loop_event ev s =
     (case ev of
        Cancelled \<Rightarrow> s\<lparr>lo_ctxDone := True, lo_lis := li_Close (lo_lis s)\<rparr>
      | HandlersRun f \<Rightarrow> s\<lparr>lo_router := f (lo_router s)\<rparr>
      | Accepted conn \<Rightarrow>
          (case acceptTurn (lo_ctxDone s) (Ok conn) (lo_router s) of
             (t, rt) \<Rightarrow> s\<lparr>lo_router := rt, lo_returned := (t = ServeReturns)\<rparr>)
      | AcceptFails e \<Rightarrow>
          (case acceptTurn (lo_ctxDone s) (Err e) (lo_router s) of
             (t, rt) \<Rightarrow> s\<lparr>lo_router := rt, lo_returned := (t = ServeReturns)\<rparr>))"

fun acceptLoop :: "('n, 's, 'l) event list \<Rightarrow> ('n, 's, 'l) loop_st \<Rightarrow> ('n, 's, 'l) loop_st" where
  "acceptLoop [] s = s"
| "acceptLoop (ev # evs) s = (if lo_returned s then s else acceptLoop evs (loop_event ev s))"

text \<open>
  The outcome of \<open>Serve\<close>: its result, \<open>None\<close> while it runs; the listener; whether the channel
  \<open>Ready\<close> was closed; the broker's connection, when there is one, and whether it has been closed.
\<close>

record 'n served =
  sd_result :: "unit res option"
  sd_lis :: listener
  sd_ready :: bool
  sd_broker :: "'n option"
  sd_drained :: bool

definition Serve ::
    "('n, 's, 'h, 'l) server \<Rightarrow> (string \<Rightarrow> string \<Rightarrow> 'c res) \<Rightarrow> listener \<Rightarrow> ('n, 's, 'l) event list \<Rightarrow> 'n served" where
  "Serve sv loadPair lis evs =
     (let cfg = sv_cfg sv in
      case buildTLSConfig loadPair (cf_TLS cfg) of
        Err e \<Rightarrow> \<lparr>sd_result = Some (Err (Wrapf ''build TLS config'' e)), sd_lis = lis, sd_ready = False,
                  sd_broker = None, sd_drained = False\<rparr>
      | Panic p \<Rightarrow> \<lparr>sd_result = Some (Panic p), sd_lis = lis, sd_ready = False, sd_broker = None, sd_drained = False\<rparr>
      | Ok tls \<Rightarrow>
        (case Broker_New (sv_api sv) \<lparr>bk_URLs = nc_URLs (cf_NATS cfg),
                bk_ReconnectWait = nc_ReconnectWait (cf_NATS cfg),
                bk_MaxReconnects = nc_MaxReconnects (cf_NATS cfg)\<rparr> of
           Err e \<Rightarrow> \<lparr>sd_result = Some (Err (Wrapf ''create broker'' e)), sd_lis = li_Close lis, sd_ready = False,
                     sd_broker = None, sd_drained = False\<rparr>
         | Panic p \<Rightarrow> \<lparr>sd_result = Some (Panic p), sd_lis = li_Close lis, sd_ready = False,
                     sd_broker = None, sd_drained = False\<rparr>
         | Ok brk \<Rightarrow>
             (case Serve_setup sv loadPair of
                Ok rt \<Rightarrow>
                  (let s = acceptLoop evs \<lparr>lo_returned = False, lo_ctxDone = False, lo_lis = lis, lo_router = rt\<rparr> in
                   if lo_returned s
                   then \<lparr>sd_result = Some (Ok ()), sd_lis = li_Close (lo_lis s), sd_ready = cf_Ready cfg,
                         sd_broker = Some (snd (Broker_Close (sv_api sv) (rt_nats (lo_router s)))), sd_drained = True\<rparr>
                   else \<lparr>sd_result = None, sd_lis = lo_lis s, sd_ready = cf_Ready cfg,
                         sd_broker = Some (rt_nats (lo_router s)), sd_drained = False\<rparr>)
              | Err e \<Rightarrow> \<lparr>sd_result = Some (Err e), sd_lis = li_Close lis, sd_ready = False,
                          sd_broker = Some (snd (Broker_Close (sv_api sv) brk)), sd_drained = True\<rparr>
              | Panic p \<Rightarrow> \<lparr>sd_result = Some (Panic p), sd_lis = li_Close lis, sd_ready = False,
                          sd_broker = Some (snd (Broker_Close (sv_api sv) brk)), sd_drained = True\<rparr>)))"

text \<open>\<open>net.Listen\<close> is a parameter; there is no listener when it fails.\<close>

definition Run ::
    "('n, 's, 'h, 'l) server \<Rightarrow> (string \<Rightarrow> listener res) \<Rightarrow> (string \<Rightarrow> string \<Rightarrow> 'c res) \<Rightarrow> ('n, 's, 'l) event list
     \<Rightarrow> unit res option \<times> 'n served option" where
  "Run sv listen loadPair evs =
     (case listen (ServerConfig_Addr (cf_Server (sv_cfg sv))) of
        Err e \<Rightarrow> (Some (Err (Wrapf ''listen'' e)), None)
      | Panic p \<Rightarrow> (Some (Panic p), None)
      | Ok lis \<Rightarrow> let sd = Serve sv loadPair lis evs in (sd_result sd, Some sd))"

section \<open>Logging (main.go)\<close>

datatype slog_level = LevelDebug | LevelInfo | LevelWarn | LevelError

text \<open>Standard output, or a rotating file (\<open>lumberjack.Logger\<close>): name, megabytes, days, backups, compression, local time.\<close>

datatype log_output = Stdout | Rotating string nat nat nat bool bool

datatype log_handler = JSONHandler log_output slog_level | TextHandler log_output slog_level

definition setupLogging :: "LogConfig \<Rightarrow> log_handler" where
  "setupLogging cfg =
     (let output = (if lg_File cfg \<noteq> '''' then Rotating (lg_File cfg) 100 7 5 True True else Stdout);
          level = (if lg_Level cfg = ''debug'' then LevelDebug
                   else if lg_Level cfg = ''info'' then LevelInfo
                   else if lg_Level cfg = ''warn'' then LevelWarn
                   else if lg_Level cfg = ''error'' then LevelError
                   else LevelInfo)
      in if lg_Format cfg = ''json'' then JSONHandler output level else TextHandler output level)"

section \<open>The program (main.go)\<close>

text \<open>
  The environment: the parser and the libraries, the home directory, the flags. \<open>mn_server\<close> makes
  the parameters of the router from the settings. The profiling server is not modelled.
\<close>

record ('n, 's, 'h, 'l, 'c, 'k) main_env =
  mn_home :: string
  mn_yaml :: bytes
  mn_certs :: "'k cert_env"
  mn_unmarshal :: "bytes \<Rightarrow> Config \<Rightarrow> Config res"
  mn_server :: "Config \<Rightarrow> ('n, 's, 'h, 'l) server"
  mn_listen :: "string \<Rightarrow> listener res"
  mn_loadPair :: "string \<Rightarrow> string \<Rightarrow> 'c res"

text \<open>The state: the file system, the default logger once it is set, the running router.\<close>

record 'n main_st =
  mn_fs :: fs
  mn_log :: "log_handler option"
  mn_router :: "'n served option"

definition mn_onFS :: "(fs, 'a) go \<Rightarrow> ('n main_st, 'a) go" where
  "mn_onFS = go_lift mn_fs (\<lambda>f s. s\<lparr>mn_fs := f\<rparr>)"

text \<open>\<open>run\<close>: the result is \<open>None\<close> while the router runs.\<close>

definition run ::
    "('n, 's, 'h, 'l, 'c, 'k) main_env \<Rightarrow> string \<Rightarrow> ('n, 's, 'l) event list \<Rightarrow> ('n main_st, unit res option) go" where
  "run M configPath evs =
     go_bind (wrapf ''load config'' (mn_onFS
        (if configPath \<noteq> '''' then Load (mn_unmarshal M) (mn_home M) configPath
         else LoadFromAppDir (mn_unmarshal M) (mn_home M)))) (\<lambda>cfg.
     go_bind (go_modify (\<lambda>s. s\<lparr>mn_log := Some (setupLogging (cf_Log cfg))\<rparr>)) (\<lambda>_.
     case Run (mn_server M cfg) (mn_listen M) (mn_loadPair M) evs of
       (r, sd) \<Rightarrow> go_bind (go_modify (\<lambda>s. s\<lparr>mn_router := sd\<rparr>)) (\<lambda>_. go_return r)))"

datatype exit_status = StillRunning | Exit nat

text \<open>\<open>main\<close>: the exit status and what is printed. A panic ends the process with status 2.\<close>

definition main_program ::
    "('n, 's, 'h, 'l, 'c, 'k) main_env \<Rightarrow> string \<Rightarrow> bool \<Rightarrow> ('n, 's, 'l) event list \<Rightarrow> 'n main_st
     \<Rightarrow> exit_status \<times> string list \<times> 'n main_st" where
  "main_program M configPath initOnly evs s =
     (case mn_onFS (Init (mn_yaml M) (mn_certs M) (mn_home M)) s of
        (Err e, s) \<Rightarrow> (Exit 1, [], s)
      | (Panic p, s) \<Rightarrow> (Exit 2, [], s)
      | (Ok _, s) \<Rightarrow>
          if initOnly
          then (Exit 0, [''Initialized: '' @ Dir (mn_home M), ''Config: '' @ ConfigPath (mn_home M),
                         ''Certs: '' @ CertsDir (mn_home M), ''Logs: '' @ LogsDir (mn_home M)], s)
          else case run M configPath evs s of
              (Ok None, s) \<Rightarrow> (StillRunning, [], s)
            | (Ok (Some (Ok _)), s) \<Rightarrow> (Exit 0, [], s)
            | (Ok (Some (Err e)), s) \<Rightarrow> (Exit 1, [], s)
            | (Ok (Some (Panic p)), s) \<Rightarrow> (Exit 2, [], s)
            | (Err e, s) \<Rightarrow> (Exit 1, [], s)
            | (Panic p, s) \<Rightarrow> (Exit 2, [], s))"

section \<open>The accept loop\<close>

text \<open>When an event ends the loop, given the events before it.\<close>

definition ends_loop :: "bool \<Rightarrow> ('n, 's, 'l) event list \<Rightarrow> nat \<Rightarrow> bool" where
  "ends_loop done evs i \<longleftrightarrow> i < length evs \<and> (\<exists>e. evs ! i = AcceptFails e
     \<and> (errors_is e net_ErrClosed \<or> done \<or> Cancelled \<in> set (take i evs)))"

lemma loop_event_returned:
  "\<not> lo_returned s \<Longrightarrow> lo_returned (loop_event ev s)
     \<longleftrightarrow> (\<exists>e. ev = AcceptFails e \<and> (errors_is e net_ErrClosed \<or> lo_ctxDone s))"
  by (auto simp: loop_event_def acceptTurn_def split: event.splits)

lemma loop_event_ctx: "lo_ctxDone (loop_event ev s) \<longleftrightarrow> lo_ctxDone s \<or> ev = Cancelled"
  by (auto simp: loop_event_def split: event.splits prod.splits)

lemma loop_event_lis: "li_closed (lo_lis (loop_event ev s)) \<longleftrightarrow> li_closed (lo_lis s) \<or> ev = Cancelled"
  by (auto simp: loop_event_def li_Close_def split: event.splits prod.splits)

lemma ends_loop_Cons:
  "(\<exists>i. ends_loop done (ev # evs) i) \<longleftrightarrow>
     (\<exists>e. ev = AcceptFails e \<and> (errors_is e net_ErrClosed \<or> done)) \<or> (\<exists>i. ends_loop (done \<or> ev = Cancelled) evs i)"
proof -
  have "ends_loop done (ev # evs) (Suc i) \<longleftrightarrow> ends_loop (done \<or> ev = Cancelled) evs i" for i
    by (auto simp: ends_loop_def)
  moreover have "ends_loop done (ev # evs) 0 \<longleftrightarrow> (\<exists>e. ev = AcceptFails e \<and> (errors_is e net_ErrClosed \<or> done))"
    by (auto simp: ends_loop_def)
  ultimately show ?thesis by (metis not0_implies_Suc)
qed

lemma acceptLoop_returned:
  "lo_returned (acceptLoop evs s) \<longleftrightarrow> lo_returned s \<or> (\<exists>i. ends_loop (lo_ctxDone s) evs i)"
proof (induction evs arbitrary: s)
  case Nil
  then show ?case by (simp add: ends_loop_def)
next
  case (Cons ev evs)
  then show ?case by (auto simp: ends_loop_Cons loop_event_returned loop_event_ctx)
qed

lemma acceptLoop_lis:
  "\<not> lo_returned (acceptLoop evs s) \<Longrightarrow>
     li_closed (lo_lis (acceptLoop evs s)) \<longleftrightarrow> li_closed (lo_lis s) \<or> Cancelled \<in> set evs"
  by (induction evs arbitrary: s) (auto simp: loop_event_lis split: if_splits)

lemma Serve_setup_parts:
  assumes "Serve_setup sv loadPair = Ok rt"
  obtains tls brk where "buildTLSConfig loadPair (cf_TLS (sv_cfg sv)) = Ok tls"
    "Broker_New (sv_api sv) \<lparr>bk_URLs = nc_URLs (cf_NATS (sv_cfg sv)), bk_ReconnectWait = nc_ReconnectWait (cf_NATS (sv_cfg sv)),
       bk_MaxReconnects = nc_MaxReconnects (cf_NATS (sv_cfg sv))\<rparr> = Ok brk"
  using assms by (auto simp: Serve_setup_def Let_def split: res.splits)

lemma Serve_running:
  assumes "Serve_setup sv loadPair = Ok rt"
  shows "Serve sv loadPair lis evs =
    (let s = acceptLoop evs \<lparr>lo_returned = False, lo_ctxDone = False, lo_lis = lis, lo_router = rt\<rparr> in
     if lo_returned s
     then \<lparr>sd_result = Some (Ok ()), sd_lis = li_Close (lo_lis s), sd_ready = cf_Ready (sv_cfg sv),
           sd_broker = Some (snd (Broker_Close (sv_api sv) (rt_nats (lo_router s)))), sd_drained = True\<rparr>
     else \<lparr>sd_result = None, sd_lis = lo_lis s, sd_ready = cf_Ready (sv_cfg sv),
           sd_broker = Some (rt_nats (lo_router s)), sd_drained = False\<rparr>)"
  using assms by (rule Serve_setup_parts) (simp add: Serve_def assms Let_def)

lemma Serve_failed:
  assumes "\<And>rt. Serve_setup sv loadPair \<noteq> Ok rt" "\<And>p. Serve_setup sv loadPair \<noteq> Panic p"
  obtains (tls) e where "Serve_setup sv loadPair = Err (Wrapf ''build TLS config'' e)"
      "Serve sv loadPair lis evs = \<lparr>sd_result = Some (Err (Wrapf ''build TLS config'' e)), sd_lis = lis, sd_ready = False,
                  sd_broker = None, sd_drained = False\<rparr>"
  | (broker) e where "Serve_setup sv loadPair = Err (Wrapf ''create broker'' e)"
      "Serve sv loadPair lis evs = \<lparr>sd_result = Some (Err (Wrapf ''create broker'' e)), sd_lis = li_Close lis, sd_ready = False,
                  sd_broker = None, sd_drained = False\<rparr>"
  | (server_id) ns brk where "Serve_setup sv loadPair = Err (Errorf ''server_id too long: max %d bytes, got %d'' ns)"
      "Serve sv loadPair lis evs = \<lparr>sd_result = Some (Err (Errorf ''server_id too long: max %d bytes, got %d'' ns)),
         sd_lis = li_Close lis, sd_ready = False, sd_broker = Some brk, sd_drained = True\<rparr>"
proof (cases "Serve_setup sv loadPair")
  case (Err e)
  then show thesis
    using tls broker server_id unfolding Serve_setup_def Serve_def Let_def
    by (auto split: res.splits if_splits)
qed (use assms in auto)

section \<open>Starting the program\<close>

lemma Load_log_file:
  assumes "Load unmarshal home path f = (Ok cfg, f')" "LogFilePath home \<noteq> ''''"
  shows "lg_File (cf_Log cfg) \<noteq> ''''"
proof -
  obtain c where "cfg = resolvePaths home c" using assms(1) by (auto simp: Load_eq_Ok)
  with assms(2) show ?thesis by (simp add: resolvePaths_def Let_def)
qed

lemma run_cases:
  assumes "run M configPath evs s = (r, s')"
  obtains (not_loaded) "\<And>x. r \<noteq> Ok x" "mn_log s' = mn_log s" "mn_router s' = mn_router s"
  | (started) path cfg f sd where
      "Load (mn_unmarshal M) (mn_home M) path (mn_fs s) = (Ok cfg, f)" "r = Ok (fst (Run (mn_server M cfg) (mn_listen M) (mn_loadPair M) evs))"
      "s' = s\<lparr>mn_fs := f, mn_log := Some (setupLogging (cf_Log cfg)), mn_router := sd\<rparr>"
proof -
  define path where "path = (if configPath \<noteq> '''' then configPath else ConfigPath (mn_home M))"
  obtain lr f where l: "Load (mn_unmarshal M) (mn_home M) path (mn_fs s) = (lr, f)" by fastforce
  have w: "mn_onFS (if configPath \<noteq> '''' then Load (mn_unmarshal M) (mn_home M) configPath
         else LoadFromAppDir (mn_unmarshal M) (mn_home M)) s = (lr, s\<lparr>mn_fs := f\<rparr>)"
    using l by (simp add: mn_onFS_def go_lift_def LoadFromAppDir_def path_def split: if_splits)
  show thesis
  proof (cases lr)
    case (Ok cfg)
    obtain rr sd where "Run (mn_server M cfg) (mn_listen M) (mn_loadPair M) evs = (rr, sd)" by fastforce
    with assms w Ok show thesis
      by (intro started [OF l [unfolded Ok], of sd]) (simp_all add: run_def wrapf_def go_bind_def)
  qed (use assms w not_loaded in \<open>auto simp: run_def wrapf_def go_bind_def\<close>)
qed

section \<open>Properties\<close>

text \<open>C26: the server runs until it is told to stop, and then stops cleanly. Once the set-up has
  succeeded, \<open>Serve\<close> returns exactly when \<open>Accept\<close> fails after the context was cancelled or
  because the listener is closed; no other failure of \<open>Accept\<close> and nothing the handlers do ends it,
  and it never returns an error. When it returns, the listener and the broker's connection have
  been closed; while it runs, the listener is open unless the context was cancelled.\<close>
theorem Serve_until_shutdown:
  assumes "Serve_setup sv loadPair = Ok rt" "\<not> li_closed lis"
  shows "let sd = Serve sv loadPair lis evs in
    (sd_result sd = Some (Ok ()) \<longleftrightarrow> (\<exists>i < length evs. \<exists>e. evs ! i = AcceptFails e
        \<and> (errors_is e net_ErrClosed \<or> Cancelled \<in> set (take i evs))))
    \<and> (sd_result sd = None \<or> sd_result sd = Some (Ok ()))
    \<and> (sd_result sd = Some (Ok ()) \<longrightarrow> li_closed (sd_lis sd) \<and> sd_drained sd)
    \<and> (sd_result sd = None \<longrightarrow> \<not> sd_drained sd \<and> (li_closed (sd_lis sd) \<longleftrightarrow> Cancelled \<in> set evs))"
proof -
  let ?s = "\<lparr>lo_returned = False, lo_ctxDone = False, lo_lis = lis, lo_router = rt\<rparr>"
  have "lo_returned (acceptLoop evs ?s) \<longleftrightarrow> (\<exists>i < length evs. \<exists>e. evs ! i = AcceptFails e
        \<and> (errors_is e net_ErrClosed \<or> Cancelled \<in> set (take i evs)))"
    by (auto simp: acceptLoop_returned ends_loop_def)
  then show ?thesis
    using acceptLoop_lis [of evs ?s] assms(2) unfolding Serve_running [OF assms(1)] Let_def
    by (simp add: li_Close_def)
qed

theorem Serve_until_shutdown_witness:
  "sd_result (Serve ex_sv ex_load \<lparr>li_addr = ''a'', li_closed = False\<rparr>
     [AcceptFails io_EOF, Cancelled, AcceptFails net_ErrClosed]) = Some (Ok ())"
proof -
  let ?evs = "[AcceptFails io_EOF, Cancelled, AcceptFails net_ErrClosed] :: ((string \<times> bytes) list, unit, unit) event list"
  have "\<exists>i < length ?evs. \<exists>e. ?evs ! i = AcceptFails e \<and> (errors_is e net_ErrClosed \<or> Cancelled \<in> set (take i ?evs))"
    by (rule exI [of _ 2]) (simp add: net_ErrClosed_def)
  with Serve_until_shutdown [OF ex_init_rt [unfolded router_init_def], of "\<lparr>li_addr = ''a'', li_closed = False\<rparr>" ?evs] show ?thesis
    unfolding Let_def by (metis listener.select_convs(2))
qed

text \<open>C28: a failed start releases what it has taken, with one exception. When the set-up fails,
  \<open>Serve\<close> reports it, the channel \<open>Ready\<close> stays open, and a broker connection that was made has been
  closed; the listener has been closed too, unless it was the TLS configuration that could not be
  built: then the open listener, which \<open>Run\<close> has made and nobody else holds, is left open.\<close>
theorem Serve_failed_start:
  assumes "Serve_setup sv loadPair = Err e" "\<not> li_closed lis"
  shows "let sd = Serve sv loadPair lis evs in
    sd_result sd = Some (Err e) \<and> \<not> sd_ready sd \<and> (sd_broker sd \<noteq> None \<longrightarrow> sd_drained sd)
    \<and> (li_closed (sd_lis sd) \<longleftrightarrow> (\<nexists>e'. buildTLSConfig loadPair (cf_TLS (sv_cfg sv)) = Err e'))"
proof -
  have tls: "buildTLSConfig loadPair (cf_TLS (sv_cfg sv)) = Err e' \<Longrightarrow> e = Wrapf ''build TLS config'' e'" for e'
    using assms(1) by (simp add: Serve_setup_def Let_def)
  have no_tls: "e \<noteq> Wrapf ''build TLS config'' e'" if "\<nexists>e'. buildTLSConfig loadPair (cf_TLS (sv_cfg sv)) = Err e'" for e'
    using assms(1) that by (auto simp: Serve_setup_def Let_def split: res.splits if_splits)
  have "\<And>rt. Serve_setup sv loadPair \<noteq> Ok rt" "\<And>p. Serve_setup sv loadPair \<noteq> Panic p" using assms(1) by simp_all
  then show ?thesis
  proof (cases rule: Serve_failed [of sv loadPair lis evs])
    case (tls e')
    with assms no_tls show ?thesis by (auto simp: Let_def)
  next
    case (broker e')
    with assms tls show ?thesis by (fastforce simp: Let_def li_Close_def)
  next
    case (server_id ns brk)
    with assms tls show ?thesis by (fastforce simp: Let_def li_Close_def)
  qed
qed

theorem Serve_failed_start_witness:
  "\<not> li_closed (sd_lis (Serve ex_sv (\<lambda>_ _. Err os_ErrNotExist :: unit res) \<lparr>li_addr = ''a'', li_closed = False\<rparr> []))"
proof -
  have b: "buildTLSConfig (\<lambda>_ _. Err os_ErrNotExist :: unit res) (cf_TLS (sv_cfg ex_sv)) = Err (Wrapf ''load certificates'' os_ErrNotExist)"
    by (simp add: buildTLSConfig_def)
  then have "Serve_setup ex_sv (\<lambda>_ _. Err os_ErrNotExist :: unit res) = Err (Wrapf ''build TLS config'' (Wrapf ''load certificates'' os_ErrNotExist))"
    by (simp add: Serve_setup_def)
  from Serve_failed_start [OF this, of "\<lparr>li_addr = ''a'', li_closed = False\<rparr>" "[]"] b show ?thesis by (simp add: Let_def)
qed


definition ex_main :: "((string \<times> bytes) list, unit, unit, unit, unit, unit) main_env" where
  "ex_main = \<lparr>mn_home = ''/h'', mn_yaml = [7], mn_certs = ex_cert_env, mn_unmarshal = ex_unmarshal,
     mn_server = (\<lambda>_. ex_sv), mn_listen = (\<lambda>_. Err net_ErrClosed), mn_loadPair = ex_load\<rparr>"

definition ex_main_st :: "(string \<times> bytes) list main_st" where
  "ex_main_st = \<lparr>mn_fs = snd (Init [7] ex_cert_env ''/h'' ex_home_fs), mn_log = None, mn_router = None\<rparr>"


end
