(* ===== verification/Client.thy ===== *)
theory Client
  imports Router_Auth Router_Message Identity
begin

text \<open>
  The client library up to the established session, \<open>src/pkg/client/options.go\<close>, \<open>auth.go\<close> and
  the first half of \<open>client.go\<close>: the options of \<open>Connect\<close>, the TLS configuration, the client's
  side of the handshake and \<open>Connect\<close> itself. The client reads its connection through a
  \<open>bufio.Reader\<close>, so its state is the connection with the bytes read ahead. Key generation,
  signing, dialling, certificate pools and the clock are parameters.
\<close>

section \<open>Options (options.go)\<close>

text \<open>Durations are in nanoseconds.\<close>

definition DefaultDialTimeout :: int where
  "DefaultDialTimeout = 10 * 1000000000"

definition DefaultWriteTimeout :: int where
  "DefaultWriteTimeout = 30 * 1000000000"

definition DefaultReadBufSize :: int where
  "DefaultReadBufSize = 100"

text \<open>A \<open>net.TCPAddr\<close> by its IP address in text form.\<close>

definition DefaultLocalAddr :: string where
  "DefaultLocalAddr = ''127.0.0.1''"

text \<open>The fields of \<open>tls.Config\<close> that the client sets; \<open>'p\<close> is \<open>x509.CertPool\<close>.\<close>

record 'p client_tls =
  ct_MinVersion :: tls_version
  ct_RootCAs :: "'p option"
  ct_ServerName :: string
  ct_InsecureSkipVerify :: bool

text \<open>Pointers are options. The error handler is a function on the state \<open>'u\<close> of the application.\<close>

record ('p, 'u) connectConfig =
  cf_keys :: "KeyPair option"
  cf_tlsConfig :: "'p client_tls option"
  cf_rootCAs :: "'p option"
  cf_caCertPaths :: "string list"
  cf_serverName :: string
  cf_insecureSkipVerify :: bool
  cf_localAddr :: "string option"
  cf_onError :: "(go_error \<Rightarrow> 'u \<Rightarrow> 'u) option"
  cf_dialTimeout :: int
  cf_writeTimeout :: int
  cf_readBufSize :: int

type_synonym ('p, 'u) ConnectOption = "('p, 'u) connectConfig \<Rightarrow> ('p, 'u) connectConfig"

definition WithKeys :: "KeyPair option \<Rightarrow> ('p, 'u) ConnectOption" where
  "WithKeys keys c = c\<lparr>cf_keys := keys\<rparr>"

definition WithTLSConfig :: "'p client_tls option \<Rightarrow> ('p, 'u) ConnectOption" where
  "WithTLSConfig cfg c = c\<lparr>cf_tlsConfig := cfg\<rparr>"

definition WithOnError :: "(go_error \<Rightarrow> 'u \<Rightarrow> 'u) option \<Rightarrow> ('p, 'u) ConnectOption" where
  "WithOnError handler c = c\<lparr>cf_onError := handler\<rparr>"

definition WithDialTimeout :: "int \<Rightarrow> ('p, 'u) ConnectOption" where
  "WithDialTimeout d c = c\<lparr>cf_dialTimeout := d\<rparr>"

definition WithReadBufSize :: "int \<Rightarrow> ('p, 'u) ConnectOption" where
  "WithReadBufSize n c = c\<lparr>cf_readBufSize := n\<rparr>"

definition WithWriteTimeout :: "int \<Rightarrow> ('p, 'u) ConnectOption" where
  "WithWriteTimeout d c = c\<lparr>cf_writeTimeout := d\<rparr>"

definition WithRootCAs :: "'p option \<Rightarrow> ('p, 'u) ConnectOption" where
  "WithRootCAs pool c = c\<lparr>cf_rootCAs := pool\<rparr>"

definition WithCACertFile :: "string \<Rightarrow> ('p, 'u) ConnectOption" where
  "WithCACertFile path c = c\<lparr>cf_caCertPaths := cf_caCertPaths c @ [path]\<rparr>"

definition WithServerName :: "string \<Rightarrow> ('p, 'u) ConnectOption" where
  "WithServerName name c = c\<lparr>cf_serverName := name\<rparr>"

definition WithInsecureSkipVerify :: "('p, 'u) ConnectOption" where
  "WithInsecureSkipVerify c = c\<lparr>cf_insecureSkipVerify := True\<rparr>"

definition WithLocalAddr :: "string option \<Rightarrow> ('p, 'u) ConnectOption" where
  "WithLocalAddr addr c = c\<lparr>cf_localAddr := addr\<rparr>"

section \<open>Environment and state\<close>

text \<open>
  \<open>ce_gen\<close> is \<open>ed25519.GenerateKey\<close>, \<open>ce_sign\<close> is \<open>ed25519.Sign\<close>, \<open>ce_dial\<close> is
  \<open>tls.DialWithDialer\<close> (timeout, local address, address, configuration), \<open>ce_now\<close> the clock when
  the handshake starts, \<open>ce_newPool\<close> and \<open>ce_appendPEM\<close> are \<open>x509.NewCertPool\<close> and
  \<open>AppendCertsFromPEM\<close>.
\<close>

record 'p client_env =
  ce_gen :: "(bytes \<times> bytes) res"
  ce_sign :: "bytes \<Rightarrow> bytes \<Rightarrow> bytes"
  ce_dial :: "int \<Rightarrow> string option \<Rightarrow> string \<Rightarrow> 'p client_tls \<Rightarrow> netconn res"
  ce_now :: int
  ce_newPool :: 'p
  ce_appendPEM :: "'p \<Rightarrow> bytes \<Rightarrow> bool \<times> 'p"

text \<open>A connection and the bytes its \<open>bufio.Reader\<close> has read ahead.\<close>

record ccon =
  cc_conn :: netconn
  cc_buf :: bytes

definition NewReader :: "netconn \<Rightarrow> ccon" where
  "NewReader c = \<lparr>cc_conn = c, cc_buf = []\<rparr>"

text \<open>A closed connection still delivers what was read ahead, then \<open>net.ErrClosed\<close>.\<close>

definition cc_ReadFull :: "ccon read_fn" where
  "cc_ReadFull n c =
     (if c_closed (cc_conn c)
      then case buf_ReadFull n (cc_buf c, net_ErrClosed) of (res, (b, _)) \<Rightarrow> (res, c\<lparr>cc_buf := b\<rparr>)
      else case bufio_ReadFull n \<lparr>bbuf = cc_buf c, bconn = c_in (cc_conn c)\<rparr> of (res, b) \<Rightarrow>
        (res, \<lparr>cc_conn = (cc_conn c)\<lparr>c_in := bconn b\<rparr>, cc_buf = bbuf b\<rparr>))"

definition cc_on :: "(netconn, 'a) go \<Rightarrow> (ccon, 'a) go" where
  "cc_on = go_lift cc_conn (\<lambda>c s. s\<lparr>cc_conn := c\<rparr>)"

section \<open>TLS configuration (client.go)\<close>

fun loadCAs :: "('p \<Rightarrow> bytes \<Rightarrow> bool \<times> 'p) \<Rightarrow> string list \<Rightarrow> 'p \<Rightarrow> (fs, 'p) go" where
  "loadCAs appendPEM [] pool = go_return pool"
| "loadCAs appendPEM (path # paths) pool =
     go_bind (wrapf (''read CA cert '' @ path) (os_ReadFile path)) (\<lambda>caCert.
     case appendPEM pool caCert of (ok, pool') \<Rightarrow>
       go_bind (go_guard ok (Errorf (''parse CA cert '' @ path @ '': invalid PEM'') [])) (\<lambda>_.
       loadCAs appendPEM paths pool'))"

definition client_buildTLSConfig :: "'p client_env \<Rightarrow> ('p, 'u) connectConfig \<Rightarrow> (fs, 'p client_tls) go" where
  "client_buildTLSConfig E cfg =
     (case cf_tlsConfig cfg of
        Some t \<Rightarrow> go_return t
      | None \<Rightarrow>
          go_bind (if cf_caCertPaths cfg \<noteq> []
                   then go_bind (loadCAs (ce_appendPEM E) (cf_caCertPaths cfg) (ce_newPool E)) (\<lambda>pool. go_return (Some pool))
                   else go_return (cf_rootCAs cfg)) (\<lambda>roots.
          go_return \<lparr>ct_MinVersion = VersionTLS13, ct_RootCAs = roots, ct_ServerName = cf_serverName cfg,
                     ct_InsecureSkipVerify = cf_insecureSkipVerify cfg\<rparr>))"

section \<open>The client's side of the handshake (auth.go, client.go)\<close>

definition signChallenge :: "(bytes \<Rightarrow> bytes \<Rightarrow> bytes) \<Rightarrow> KeyPair \<Rightarrow> ServerChallenge \<Rightarrow> tls_state \<Rightarrow> bytes res" where
  "signChallenge ed_sign keys challenge st =
     (case GetChannelBinding st of
        Err e \<Rightarrow> Err (Wrapf ''get channel binding'' e)
      | Panic p \<Rightarrow> Panic p
      | Ok channelBinding \<Rightarrow>
          (let clientPubKey = copy_at (replicate PublicKeySize 0) 0 (kp_PublicKey keys) in
           case BuildSignedData (Challenge challenge) (Timestamp challenge) (ServerID challenge)
                  clientPubKey channelBinding of
             Ok signedData \<Rightarrow> Ok (copy_at (replicate SignatureSize 0) 0 (Sign ed_sign keys signedData))
           | Err e \<Rightarrow> Err e
           | Panic p \<Rightarrow> Panic p))"

text \<open>A message of the expected type: the type byte, then the message.\<close>

definition recvTyped :: "string \<Rightarrow> byte \<Rightarrow> string \<Rightarrow> (ccon, 'm) go \<Rightarrow> (ccon, 'm) go" where
  "recvTyped typeErr ty decErr dec =
     go_bind (wrapf typeErr (ReadMessageType cc_ReadFull)) (\<lambda>msgType.
     go_bind (go_guard (msgType = ty) (Errorf ''unexpected message type: %d'' [uint msgType])) (\<lambda>_.
     wrapf decErr dec))"

text \<open>The connection is a \<open>*tls.Conn\<close>, so that the TLS state is always there.\<close>

definition signOn :: "(bytes \<Rightarrow> bytes \<Rightarrow> bytes) \<Rightarrow> KeyPair \<Rightarrow> ServerChallenge \<Rightarrow> (ccon, bytes) go" where
  "signOn ed_sign keys challenge s =
     (case c_tls (cc_conn s) of
        Some st \<Rightarrow> (signChallenge ed_sign keys challenge st, s)
      | None \<Rightarrow> (Panic ''no TLS state'', s))"

text \<open>Step 4: the result of the server.\<close>

definition client_auth_result :: "(ccon, unit) go" where
  "client_auth_result =
     go_bind (recvTyped ''read result type'' TypeAuthResult ''decode result'' (DecodeAuthResult cc_ReadFull)) (\<lambda>result.
     go_guard (Status result = AuthStatusOK) (WrapStr ErrAuthFailed (ErrorMsg result)))"

definition client_auth_body :: "(bytes \<Rightarrow> bytes \<Rightarrow> bytes) \<Rightarrow> KeyPair \<Rightarrow> (ccon, unit) go" where
  "client_auth_body ed_sign keys =
     go_bind (go_modify (\<lambda>s. NewReader (cc_conn s))) (\<lambda>_.
     go_bind (wrapf ''send client hello'' (cc_on (nc_asWriter (ClientHello_Encode
                \<lparr>PubKey = copy_at (replicate PublicKeySize 0) 0 (kp_PublicKey keys)\<rparr>)))) (\<lambda>_.
     go_bind (recvTyped ''read challenge type'' TypeServerChallenge ''decode challenge''
                (DecodeServerChallenge cc_ReadFull)) (\<lambda>challenge.
     go_bind (wrapf ''sign challenge'' (signOn ed_sign keys challenge)) (\<lambda>signature.
     go_bind (wrapf ''send response'' (cc_on (nc_asWriter (ClientResponse_Encode \<lparr>Signature = signature\<rparr>)))) (\<lambda>_.
     client_auth_result)))))"

text \<open>A nil key pair is dereferenced after the deadline is set; the deferred call still runs.\<close>

definition client_authenticate ::
    "(bytes \<Rightarrow> bytes \<Rightarrow> bytes) \<Rightarrow> int \<Rightarrow> KeyPair option \<Rightarrow> int \<Rightarrow> (ccon, unit) go" where
  "client_authenticate ed_sign now keys timeout =
     go_bind (wrapf ''set deadline'' (cc_on (nc_SetDeadline (Some (now + timeout))))) (\<lambda>_.
     go_defer (cc_on (nc_SetDeadline None))
       (case keys of
          None \<Rightarrow> go_panic ''invalid memory address or nil pointer dereference''
        | Some k \<Rightarrow> client_auth_body ed_sign k))"

section \<open>Connect (client.go)\<close>

definition default_connectConfig :: "KeyPair \<Rightarrow> ('p, 'u) connectConfig" where
  "default_connectConfig keys =
     \<lparr>cf_keys = Some keys, cf_tlsConfig = None, cf_rootCAs = None, cf_caCertPaths = [], cf_serverName = '''',
      cf_insecureSkipVerify = False, cf_localAddr = Some DefaultLocalAddr, cf_onError = None,
      cf_dialTimeout = DefaultDialTimeout, cf_writeTimeout = DefaultWriteTimeout,
      cf_readBufSize = DefaultReadBufSize\<rparr>"

text \<open>The options are applied in the order in which they are given.\<close>

definition applyOptions :: "('p, 'u) ConnectOption list \<Rightarrow> KeyPair \<Rightarrow> ('p, 'u) connectConfig" where
  "applyOptions opts keys = fold (\<lambda>opt c. opt c) opts (default_connectConfig keys)"

text \<open>The state: the file system and the connection, once there is one.\<close>

record connect_st =
  ks_fs :: fs
  ks_conn :: "ccon option"

definition ks_onFS :: "(fs, 'a) go \<Rightarrow> (connect_st, 'a) go" where
  "ks_onFS = go_lift ks_fs (\<lambda>f s. s\<lparr>ks_fs := f\<rparr>)"

text \<open>The connection after a failed handshake is closed; the error of \<open>Close\<close> is dropped.\<close>

definition authConn :: "'p client_env \<Rightarrow> ('p, 'u) connectConfig \<Rightarrow> netconn \<Rightarrow> (connect_st, ccon) go" where
  "authConn E cfg conn s =
     (case client_authenticate (ce_sign E) (ce_now E) (cf_keys cfg) (cf_dialTimeout cfg) (NewReader conn) of
        (Ok _, c) \<Rightarrow> (Ok c, s\<lparr>ks_conn := Some c\<rparr>)
      | (Err e, c) \<Rightarrow> (Err (Wrapf ''authenticate'' e), s\<lparr>ks_conn := Some (c\<lparr>cc_conn := snd (nc_Close (cc_conn c))\<rparr>)\<rparr>)
      | (Panic p, c) \<Rightarrow> (Panic p, s\<lparr>ks_conn := Some c\<rparr>))"

text \<open>The result is the configuration and the connection with which \<open>runLoop\<close> is started.\<close>

definition Connect ::
    "'p client_env \<Rightarrow> string \<Rightarrow> ('p, 'u) ConnectOption list \<Rightarrow> (connect_st, ('p, 'u) connectConfig \<times> ccon) go" where
  "Connect E addr opts =
     go_bind (wrapf ''generate keys'' (ks_onFS (Generate (ce_gen E)))) (\<lambda>keys.
     let cfg = applyOptions opts keys in
     go_bind (wrapf ''build TLS config'' (ks_onFS (client_buildTLSConfig E cfg))) (\<lambda>tlsConfig.
     go_bind (wrapf ''dial'' (ofRes (ce_dial E (cf_dialTimeout cfg) (cf_localAddr cfg) addr tlsConfig))) (\<lambda>conn.
     go_bind (authConn E cfg conn) (\<lambda>c.
     if cf_readBufSize cfg < 0 then go_panic ''makechan: size out of range''
     else go_return (cfg, c)))))"

section \<open>Reading through the buffer\<close>

lemma NewReader_sel [simp]: "cc_conn (NewReader c) = c" "cc_buf (NewReader c) = []"
  by (simp_all add: NewReader_def)

text \<open>What the client still reads, and the error after it.\<close>

definition cc_abs :: "ccon \<Rightarrow> byte_buf" where
  "cc_abs c = (if c_closed (cc_conn c) then (cc_buf c, net_ErrClosed)
               else (cc_buf c @ nc_content (cc_conn c), rend (c_in (cc_conn c))))"

interpretation cc_src: byte_source cc_ReadFull cc_abs
proof (standard, goal_cases)
  case (1 n c)
  show ?case
  proof (cases "c_closed (cc_conn c)")
    case True
    then show ?thesis by (auto simp: cc_ReadFull_def cc_abs_def buf_ReadFull_def)
  next
    case False
    have "map_prod id bufio_abs (bufio_ReadFull n \<lparr>bbuf = cc_buf c, bconn = c_in (cc_conn c)\<rparr>)
        = buf_ReadFull n (cc_abs c)"
      using bufio_src.rf_buf [of n "\<lparr>bbuf = cc_buf c, bconn = c_in (cc_conn c)\<rparr>"] False
      by (simp add: bufio_abs_def [of "\<lparr>bbuf = cc_buf c, bconn = c_in (cc_conn c)\<rparr>"] cc_abs_def nc_content_def)
    with False show ?thesis
      by (cases "bufio_ReadFull n \<lparr>bbuf = cc_buf c, bconn = c_in (cc_conn c)\<rparr>")
         (simp add: cc_ReadFull_def cc_abs_def [of "ccon.make _ _"] cc_abs_def bufio_abs_def nc_content_def)
  qed
qed

text \<open>Reading changes the incoming side only.\<close>

definition cc_frame :: "ccon \<Rightarrow> netconn" where
  "cc_frame c = (cc_conn c)\<lparr>c_in := \<lparr>rchunks = [], rend = io_EOF\<rparr>\<rparr>"

lemma cc_frameD:
  assumes "cc_frame c = cc_frame d"
  shows "c_out (cc_conn c) = c_out (cc_conn d)" "c_closed (cc_conn c) = c_closed (cc_conn d)"
    "c_tls (cc_conn c) = c_tls (cc_conn d)" "c_dlplan (cc_conn c) = c_dlplan (cc_conn d)"
    "c_closeErr (cc_conn c) = c_closeErr (cc_conn d)"
    "c_deadline (cc_conn c) = c_deadline (cc_conn d)" "c_wdeadline (cc_conn c) = c_wdeadline (cc_conn d)"
  using assms by (cases "cc_conn c"; cases "cc_conn d"; simp add: cc_frame_def)+

lemma cc_read_keeps [keeps_intros]: "keeps cc_frame (read_exact cc_ReadFull n)"
  by (rule keepsI) (auto simp: read_exact_def cc_ReadFull_def cc_frame_def split: prod.splits option.splits if_splits)

lemma cc_decoders_keep [keeps_intros]:
  "keeps cc_frame (ReadMessageType cc_ReadFull)"
  "keeps cc_frame (DecodeServerChallenge cc_ReadFull)"
  "keeps cc_frame (DecodeAuthResult cc_ReadFull)"
  "keeps cc_frame (DecodeServerMessage cc_ReadFull)"
  unfolding ReadMessageType_def DecodeServerChallenge_def DecodeAuthResult_def DecodeServerMessage_def Let_def
  by (intro keeps_intros)+

lemma recvTyped_keeps: "keeps cc_frame d \<Longrightarrow> keeps cc_frame (recvTyped te ty de d)"
  unfolding recvTyped_def by (intro keeps_intros)

text \<open>A typed message is received exactly when \<open>expect_type\<close> decodes it from the bytes to come.\<close>

lemma recvTyped_eq_Ok: "recvTyped te ty de d c = (Ok m, c') \<longleftrightarrow> expect_type cc_ReadFull ty d c = (Ok m, c')"
  by (auto simp: expect_type_def recvTyped_def go_eq_Ok split: if_splits)

lemma recvTyped_Ok:
  assumes "refines cc_abs d d'" "keeps cc_frame d"
    and "expect_type buf_ReadFull ty d' (cc_abs c) = (Ok m, b)"
  obtains c' where "recvTyped te ty de d c = (Ok m, c')" "cc_abs c' = b" "cc_frame c' = cc_frame c"
proof -
  have "refines cc_abs (expect_type cc_ReadFull ty d) (expect_type buf_ReadFull ty d')"
    using assms(1) by (rule cc_src.expect_type_refines)
  from refines_Ok [OF this assms(3)] obtain c' where c': "expect_type cc_ReadFull ty d c = (Ok m, c')" "cc_abs c' = b"
    by blast
  then have r: "recvTyped te ty de d c = (Ok m, c')" by (simp add: recvTyped_eq_Ok)
  with c'(2) show thesis using keepsD [OF recvTyped_keeps [OF assms(2)] r] r by (intro that [of c']) simp_all
qed

lemma recvTyped_OkD:
  assumes "refines cc_abs d d'" "keeps cc_frame d" "recvTyped te ty de d c = (Ok m, c')"
  shows "expect_type buf_ReadFull ty d' (cc_abs c) = (Ok m, cc_abs c')" "cc_frame c' = cc_frame c"
proof -
  have "expect_type cc_ReadFull ty d c = (Ok m, c')"
    using assms(3) by (simp add: recvTyped_eq_Ok)
  with refinesD [OF cc_src.expect_type_refines [OF assms(1)], of ty c]
  show "expect_type buf_ReadFull ty d' (cc_abs c) = (Ok m, cc_abs c')" by simp
  show "cc_frame c' = cc_frame c" by (rule keepsD [OF recvTyped_keeps [OF assms(2)] assms(3)])
qed

text \<open>What decodes is the wire form of the result.\<close>

lemma expect_type_OkD:
  assumes "expect_type buf_ReadFull ty d (bs, e) = (Ok m, b)"
  obtains bs' where "bs = ty # bs'" "d (bs', e) = (Ok m, b)"
  using assms by (cases bs) (auto simp: expect_type_def ReadMessageType_def read_exact_buf go_bind_def split: if_splits)

lemma DecodeServerChallenge_OkD:
  assumes "DecodeServerChallenge buf_ReadFull (bs, e) = (Ok m, b)"
  shows "wf_ServerChallenge m \<and> TypeServerChallenge # bs = wire_ServerChallenge m @ fst b \<and> snd b = e"
  using assms
  by (auto simp: DecodeServerChallenge_def bind_read_buf wf_ServerChallenge_def wire_ServerChallenge_def
      sizes PutUint64_Get split: if_splits simp flip: append_assoc take_add)

lemma DecodeAuthResult_OkD:
  assumes "DecodeAuthResult buf_ReadFull (bs, e) = (Ok m, b)" "Status m = AuthStatusOK"
  shows "m = accepted \<and> TypeAuthResult # bs = wire_AuthResult accepted @ fst b \<and> snd b = e"
  using assms
  by (cases bs) (auto simp: DecodeAuthResult_def bind_read_buf accepted_def wire_AuthResult_def Let_def go_bind_guard split: if_splits)

section \<open>The steps of the handshake\<close>

text \<open>An open connection over TLS that accepts writes and deadlines.\<close>

definition client_ready :: "bytes \<Rightarrow> netconn \<Rightarrow> bool" where
  "client_ready cb c \<longleftrightarrow> \<not> c_closed c \<and> healthy (c_out c) \<and> c_dlplan c = []
     \<and> (\<exists>st. c_tls c = Some st \<and> GetChannelBinding st = Ok cb)"

text \<open>The signature the client sends for a challenge.\<close>

definition client_sig :: "(bytes \<Rightarrow> bytes \<Rightarrow> bytes) \<Rightarrow> KeyPair \<Rightarrow> bytes \<Rightarrow> ServerChallenge \<Rightarrow> bytes" where
  "client_sig ed_sign keys cb ch = copy_at (replicate SignatureSize 0) 0 (Sign ed_sign keys
     (signed_data (Challenge ch) (Timestamp ch) (ServerID ch) (kp_PublicKey keys) cb))"

lemma length_client_sig [simp]: "length (client_sig ed_sign keys cb ch) = SignatureSize"
  by (simp add: client_sig_def)

lemma pubkey_copy: "length k = PublicKeySize \<Longrightarrow> copy_at (replicate PublicKeySize 0) 0 k = k"
  by (simp add: copy_at_def)

lemma cc_send:
  assumes "wire_codec enc dec valid wire" "valid m" "\<not> c_closed (cc_conn c)" "healthy (c_out (cc_conn c))"
  shows "\<exists>w. wrapf msg (cc_on (nc_asWriter (enc m))) c = (Ok (), c\<lparr>cc_conn := (cc_conn c)\<lparr>c_out := w\<rparr>\<rparr>)
    \<and> healthy w \<and> wbytes w = wbytes (c_out (cc_conn c)) @ wire m"
proof -
  obtain w where "enc m (c_out (cc_conn c)) = (Ok (), w)" "healthy w" "wbytes w = wbytes (c_out (cc_conn c)) @ wire m"
    using wire_codec.enc_wire [OF assms(1,2,4)] by blast
  with assms(3) show ?thesis
    by (intro exI [of _ w]) (simp add: cc_on_def go_lift_def nc_asWriter_def wrapf_def)
qed

lemma cc_abs_out [simp]:
  "cc_abs (c\<lparr>cc_conn := (cc_conn c)\<lparr>c_out := w\<rparr>\<rparr>) = cc_abs c"
  by (simp add: cc_abs_def nc_content_def)

lemma signOn_Ok:
  assumes "c_tls (cc_conn c) = Some st" "GetChannelBinding st = Ok cb"
    "length (kp_PublicKey keys) = PublicKeySize" "wf_ServerChallenge ch"
  shows "wrapf msg (signOn ed_sign keys ch) c = (Ok (client_sig ed_sign keys cb ch), c)"
  using assms BuildSignedData_eq [of "Challenge ch" "ServerID ch" "kp_PublicKey keys" cb "Timestamp ch"]
    GetChannelBinding_length [OF assms(2)]
  by (simp add: signOn_def signChallenge_def wrapf_def pubkey_copy client_sig_def wf_ServerChallenge_def)

text \<open>What a successful handshake leaves to the client.\<close>

definition client_authed ::
    "(bytes \<Rightarrow> bytes \<Rightarrow> bytes) \<Rightarrow> KeyPair \<Rightarrow> bytes \<Rightarrow> ServerChallenge \<Rightarrow> bytes \<Rightarrow> netconn \<Rightarrow> ccon \<Rightarrow> bool" where
  "client_authed ed_sign keys cb ch rest c t \<longleftrightarrow>
     wbytes (c_out (cc_conn t)) = wbytes (c_out c)
        @ wire_ClientHello \<lparr>PubKey = kp_PublicKey keys\<rparr>
        @ wire_ClientResponse \<lparr>Signature = client_sig ed_sign keys cb ch\<rparr>
     \<and> cc_abs t = (rest, rend (c_in c)) \<and> client_ready cb (cc_conn t)"

lemmas challenge_read = cc_src.DecodeServerChallenge_refines cc_decoders_keep(2)
lemmas result_read = cc_src.DecodeAuthResult_refines cc_decoders_keep(3)

lemma client_ready_frame:
  "client_ready cb (cc_conn c) \<Longrightarrow> cc_frame c' = cc_frame c \<Longrightarrow> client_ready cb (cc_conn c')"
  using cc_frameD [of c' c] by (simp add: client_ready_def)

lemma client_ready_sent: "client_ready cb c \<Longrightarrow> healthy w \<Longrightarrow> client_ready cb (c\<lparr>c_out := w\<rparr>)"
  by (simp add: client_ready_def)

text \<open>From the hello to the response.\<close>

lemma client_auth_first:
  assumes "client_ready cb c" "length (kp_PublicKey keys) = PublicKeySize" "wf_ServerChallenge ch"
    and "nc_content c = wire_ServerChallenge ch @ bs"
  obtains t where "client_auth_body ed_sign keys (NewReader c) = client_auth_result t"
    "wbytes (c_out (cc_conn t)) = wbytes (c_out c) @ wire_ClientHello \<lparr>PubKey = kp_PublicKey keys\<rparr>
       @ wire_ClientResponse \<lparr>Signature = client_sig ed_sign keys cb ch\<rparr>"
    "cc_abs t = (bs, rend (c_in c))" "client_ready cb (cc_conn t)"
proof -
  let ?h = "\<lparr>PubKey = kp_PublicKey keys\<rparr>" and ?r = "\<lparr>Signature = client_sig ed_sign keys cb ch\<rparr>"
  have a: "cc_abs (NewReader c) = (wire_ServerChallenge ch @ bs, rend (c_in c))"
    using assms(1,4) by (simp add: cc_abs_def NewReader_def client_ready_def)
  obtain w where w: "wrapf ''send client hello'' (cc_on (nc_asWriter (ClientHello_Encode ?h))) (NewReader c)
        = (Ok (), (NewReader c)\<lparr>cc_conn := c\<lparr>c_out := w\<rparr>\<rparr>)"
      "healthy w" "wbytes w = wbytes (c_out c) @ wire_ClientHello ?h"
    using assms(1,2) cc_send [OF hello.wire_codec_axioms, where m = ?h and c = "NewReader c" and msg = "''send client hello''"]
    by (auto simp: client_ready_def wf_ClientHello_def)
  let ?c1 = "(NewReader c)\<lparr>cc_conn := c\<lparr>c_out := w\<rparr>\<rparr>"
  have a1: "cc_abs ?c1 = cc_abs (NewReader c)"
    using cc_abs_out [where c = "NewReader c" and w = w] by (simp add: NewReader_def)
  have "expect_type buf_ReadFull TypeServerChallenge (DecodeServerChallenge buf_ReadFull) (cc_abs ?c1)
      = (Ok ch, (bs, rend (c_in c)))"
    using chal.dec_wire [OF assms(3), of bs "rend (c_in c)"] a a1 by simp
  from recvTyped_Ok [OF challenge_read this, of "''read challenge type''" "''decode challenge''"]
  obtain c2 where c2: "recvTyped ''read challenge type'' TypeServerChallenge ''decode challenge''
        (DecodeServerChallenge cc_ReadFull) ?c1 = (Ok ch, c2)"
      "cc_abs c2 = (bs, rend (c_in c))" "cc_frame c2 = cc_frame ?c1" .
  have rd1: "client_ready cb (cc_conn ?c1)" using assms(1) w(2) by (simp add: client_ready_sent)
  have rd2: "client_ready cb (cc_conn c2)" using rd1 c2(3) by (rule client_ready_frame)
  then obtain st where st: "c_tls (cc_conn c2) = Some st" "GetChannelBinding st = Ok cb"
    by (auto simp: client_ready_def)
  have out: "c_out (cc_conn c2) = w" using cc_frameD(1) [OF c2(3)] by simp
  obtain v where v: "wrapf ''send response'' (cc_on (nc_asWriter (ClientResponse_Encode ?r))) c2
        = (Ok (), c2\<lparr>cc_conn := (cc_conn c2)\<lparr>c_out := v\<rparr>\<rparr>)" "healthy v" "wbytes v = wbytes w @ wire_ClientResponse ?r"
    using rd2 out cc_send [OF resp.wire_codec_axioms, where m = ?r and c = c2 and msg = "''send response''"]
    by (auto simp: client_ready_def wf_ClientResponse_def)
  let ?t = "c2\<lparr>cc_conn := (cc_conn c2)\<lparr>c_out := v\<rparr>\<rparr>"
  have "client_auth_body ed_sign keys (NewReader c) = client_auth_result ?t"
    using w(1) c2(1) signOn_Ok [OF st assms(2,3)] v(1)
    by (simp add: client_auth_body_def pubkey_copy [OF assms(2)] NewReader_def)
  with w(3) v(2,3) c2(2) client_ready_sent [OF rd2 v(2)] show thesis by (intro that [of ?t]) simp_all
qed

lemma client_auth_challenge:
  assumes "client_ready cb c" "length (kp_PublicKey keys) = PublicKeySize"
    and "client_auth_body ed_sign keys (NewReader c) = (Ok (), t)"
  obtains ch bs where "wf_ServerChallenge ch" "nc_content c = wire_ServerChallenge ch @ bs"
proof -
  let ?h = "\<lparr>PubKey = kp_PublicKey keys\<rparr>"
  obtain w where w: "wrapf ''send client hello'' (cc_on (nc_asWriter (ClientHello_Encode ?h))) (NewReader c)
        = (Ok (), (NewReader c)\<lparr>cc_conn := c\<lparr>c_out := w\<rparr>\<rparr>)"
    using assms(1,2) cc_send [OF hello.wire_codec_axioms, where m = ?h and c = "NewReader c" and msg = "''send client hello''"]
    by (auto simp: client_ready_def wf_ClientHello_def)
  with assms(2,3) obtain ch c2 where "recvTyped ''read challenge type'' TypeServerChallenge ''decode challenge''
        (DecodeServerChallenge cc_ReadFull) ((NewReader c)\<lparr>cc_conn := c\<lparr>c_out := w\<rparr>\<rparr>) = (Ok ch, c2)"
    by (auto simp: client_auth_body_def pubkey_copy go_bind_eq_Ok NewReader_def)
  from recvTyped_OkD(1) [OF challenge_read this]
  have "expect_type buf_ReadFull TypeServerChallenge (DecodeServerChallenge buf_ReadFull) (nc_content c, rend (c_in c)) = (Ok ch, cc_abs c2)"
    using assms(1) by (simp add: cc_abs_def client_ready_def nc_content_def)
  then obtain bs where "nc_content c = TypeServerChallenge # bs" "DecodeServerChallenge buf_ReadFull (bs, rend (c_in c)) = (Ok ch, cc_abs c2)"
    by (rule expect_type_OkD)
  with DecodeServerChallenge_OkD [of bs "rend (c_in c)" ch "cc_abs c2"] show thesis
    by (intro that [of ch "fst (cc_abs c2)"]) auto
qed

lemma client_auth_body_Ok:
  assumes "client_ready cb c" "length (kp_PublicKey keys) = PublicKeySize" "wf_ServerChallenge ch"
    and "nc_content c = wire_ServerChallenge ch @ wire_AuthResult accepted @ rest"
  shows "\<exists>t. client_auth_body ed_sign keys (NewReader c) = (Ok (), t) \<and> client_authed ed_sign keys cb ch rest c t"
proof -
  obtain t where t: "client_auth_body ed_sign keys (NewReader c) = client_auth_result t"
    "wbytes (c_out (cc_conn t)) = wbytes (c_out c) @ wire_ClientHello \<lparr>PubKey = kp_PublicKey keys\<rparr>
       @ wire_ClientResponse \<lparr>Signature = client_sig ed_sign keys cb ch\<rparr>"
    "cc_abs t = (wire_AuthResult accepted @ rest, rend (c_in c))" "client_ready cb (cc_conn t)"
    using client_auth_first [OF assms] .
  have "wf_AuthResult accepted" by (simp add: wf_AuthResult_def accepted_def)
  from ares.dec_wire [OF this, of rest "rend (c_in c)"] t(3)
  have "expect_type buf_ReadFull TypeAuthResult (DecodeAuthResult buf_ReadFull) (cc_abs t) = (Ok accepted, (rest, rend (c_in c)))"
    by simp
  from recvTyped_Ok [OF result_read this, of "''read result type''" "''decode result''"]
  obtain u where u: "recvTyped ''read result type'' TypeAuthResult ''decode result'' (DecodeAuthResult cc_ReadFull) t = (Ok accepted, u)"
      "cc_abs u = (rest, rend (c_in c))" "cc_frame u = cc_frame t" .
  then have "client_auth_body ed_sign keys (NewReader c) = (Ok (), u)"
    using t(1) by (simp add: client_auth_result_def accepted_def)
  moreover have "client_authed ed_sign keys cb ch rest c u"
    using t(2) u(2) client_ready_frame [OF t(4) u(3)] cc_frameD(1) [OF u(3)] by (simp add: client_authed_def)
  ultimately show ?thesis by blast
qed

lemma client_auth_body_OkD:
  assumes "client_ready cb c" "length (kp_PublicKey keys) = PublicKeySize"
    and "client_auth_body ed_sign keys (NewReader c) = (Ok (), t)"
  shows "\<exists>ch rest. wf_ServerChallenge ch \<and> nc_content c = wire_ServerChallenge ch @ wire_AuthResult accepted @ rest"
proof -
  from assms obtain ch bs where ch: "wf_ServerChallenge ch" "nc_content c = wire_ServerChallenge ch @ bs"
    by (rule client_auth_challenge)
  obtain s where s: "client_auth_body ed_sign keys (NewReader c) = client_auth_result s"
    "cc_abs s = (bs, rend (c_in c))"
    by (rule client_auth_first [OF assms(1,2) ch, of ed_sign])
  with assms(3) obtain res u where res: "recvTyped ''read result type'' TypeAuthResult ''decode result''
      (DecodeAuthResult cc_ReadFull) s = (Ok res, u)" "Status res = AuthStatusOK"
    by (auto simp: client_auth_result_def go_bind_eq_Ok split: if_splits)
  from recvTyped_OkD(1) [OF result_read res(1)] s(2)
  have "expect_type buf_ReadFull TypeAuthResult (DecodeAuthResult buf_ReadFull) (bs, rend (c_in c)) = (Ok res, cc_abs u)"
    by simp
  then obtain bs' where bs': "bs = TypeAuthResult # bs'" "DecodeAuthResult buf_ReadFull (bs', rend (c_in c)) = (Ok res, cc_abs u)"
    by (rule expect_type_OkD)
  from DecodeAuthResult_OkD [OF bs'(2) res(2)] bs'(1) ch show ?thesis by auto
qed

text \<open>The deadline around the body.\<close>

lemma client_authenticate_eq:
  assumes "client_ready cb c"
  shows "client_authenticate ed_sign now (Some keys) timeout (NewReader c)
    = go_defer (cc_on (nc_SetDeadline None)) (client_auth_body ed_sign keys)
        (NewReader (c\<lparr>c_deadline := Some (now + timeout), c_wdeadline := Some (now + timeout)\<rparr>))"
proof -
  have "wrapf ''set deadline'' (cc_on (nc_SetDeadline (Some (now + timeout)))) (NewReader c)
      = (Ok (), NewReader (c\<lparr>c_deadline := Some (now + timeout), c_wdeadline := Some (now + timeout)\<rparr>))"
    using assms by (simp add: client_ready_def cc_on_def go_lift_def nc_SetDeadline_def wrapf_def NewReader_def)
  then show ?thesis by (simp add: client_authenticate_def)
qed

lemma client_ready_deadline [simp]:
  "client_ready cb (c\<lparr>c_deadline := d, c_wdeadline := d'\<rparr>) = client_ready cb c"
  by (simp add: client_ready_def)

lemma cc_abs_deadline [simp]:
  "cc_abs (c\<lparr>cc_conn := (cc_conn c)\<lparr>c_deadline := d, c_wdeadline := d'\<rparr>\<rparr>) = cc_abs c"
  by (simp add: cc_abs_def nc_content_def)

lemma client_authenticate_Ok:
  assumes "client_ready cb c" "length (kp_PublicKey keys) = PublicKeySize" "wf_ServerChallenge ch"
    and "nc_content c = wire_ServerChallenge ch @ wire_AuthResult accepted @ rest"
  shows "\<exists>t. client_authenticate ed_sign now (Some keys) timeout (NewReader c) = (Ok (), t)
    \<and> client_authed ed_sign keys cb ch rest c t \<and> c_deadline (cc_conn t) = None \<and> c_wdeadline (cc_conn t) = None"
proof -
  let ?c = "c\<lparr>c_deadline := Some (now + timeout), c_wdeadline := Some (now + timeout)\<rparr>"
  obtain u where u: "client_auth_body ed_sign keys (NewReader ?c) = (Ok (), u)" "client_authed ed_sign keys cb ch rest ?c u"
    using client_auth_body_Ok [of cb ?c keys ch rest] assms by (auto simp: nc_content_def)
  then have "client_ready cb (cc_conn u)" by (simp add: client_authed_def)
  then have "cc_on (nc_SetDeadline None) u = (Ok (), u\<lparr>cc_conn := (cc_conn u)\<lparr>c_deadline := None, c_wdeadline := None\<rparr>\<rparr>)"
    by (simp add: client_ready_def cc_on_def go_lift_def nc_SetDeadline_def)
  with u client_authenticate_eq [OF assms(1)] show ?thesis
    by (simp add: go_defer_def client_authed_def)
qed

section \<open>What the client sends in any case\<close>

abbreviation client_sent :: "bytes \<Rightarrow> ccon \<Rightarrow> bool" where
  "client_sent B c \<equiv> prefix B (wbytes (c_out (cc_conn c)))"

lemma client_sent_read:
  assumes "keeps cc_frame m"
  shows "stable (client_sent B) m"
  using assms by (auto simp: stable_def dest!: keepsD [OF assms] dest: cc_frameD(1))

lemma client_sent_stable [stable_intros]:
  "stable (client_sent B) (recvTyped te TypeServerChallenge de (DecodeServerChallenge cc_ReadFull))"
  "stable (client_sent B) client_auth_result"
  "stable (client_sent B) (signOn ed_sign keys ch)"
  "stable (client_sent B) (cc_on (nc_asWriter (ClientResponse_Encode r)))"
  "stable (client_sent B) (cc_on (nc_SetDeadline d))"
proof -
  show "stable (client_sent B) (recvTyped te TypeServerChallenge de (DecodeServerChallenge cc_ReadFull))"
    by (intro client_sent_read recvTyped_keeps keeps_intros)
  show "stable (client_sent B) client_auth_result"
    unfolding client_auth_result_def by (intro client_sent_read recvTyped_keeps keeps_intros)
  show "stable (client_sent B) (signOn ed_sign keys ch)"
    by (auto simp: stable_def signOn_def split: option.splits)
  have "stable (\<lambda>w. prefix B (wbytes w)) (ClientResponse_Encode r)"
    unfolding ClientResponse_Encode_def by (intro stable_intros)
  from stableD [OF nc_asWriter_sent [OF this]]
  show "stable (client_sent B) (cc_on (nc_asWriter (ClientResponse_Encode r)))"
    by (auto simp: stable_def cc_on_def go_lift_def split: prod.splits)
  show "stable (client_sent B) (cc_on (nc_SetDeadline d))"
    by (auto simp: stable_def cc_on_def go_lift_def nc_SetDeadline_def
        split: prod.splits if_splits list.splits option.splits)
qed

lemma client_authenticate_sends:
  assumes "client_ready cb c" "client_sent B (snd (client_auth_body ed_sign keys
      (NewReader (c\<lparr>c_deadline := Some (now + timeout), c_wdeadline := Some (now + timeout)\<rparr>))))"
  shows "client_sent B (snd (client_authenticate ed_sign now (Some keys) timeout (NewReader c)))"
  using stable_snd [OF client_sent_stable(5) assms(2)] client_authenticate_eq [OF assms(1)] by simp

text \<open>The hello is sent whatever the server says, and after a challenge the response.\<close>

lemma client_authenticate_sends_hello:
  assumes "client_ready cb c" "length (kp_PublicKey keys) = PublicKeySize"
  shows "client_sent (wbytes (c_out c) @ wire_ClientHello \<lparr>PubKey = kp_PublicKey keys\<rparr>)
    (snd (client_authenticate ed_sign now (Some keys) timeout (NewReader c)))"
proof (rule client_authenticate_sends [OF assms(1)])
  let ?c = "c\<lparr>c_deadline := Some (now + timeout), c_wdeadline := Some (now + timeout)\<rparr>"
  let ?h = "\<lparr>PubKey = kp_PublicKey keys\<rparr>"
  let ?B = "wbytes (c_out c) @ wire_ClientHello ?h"
  obtain w where w: "wrapf ''send client hello'' (cc_on (nc_asWriter (ClientHello_Encode ?h))) (NewReader ?c)
        = (Ok (), (NewReader ?c)\<lparr>cc_conn := ?c\<lparr>c_out := w\<rparr>\<rparr>)" "wbytes w = ?B"
    using assms cc_send [OF hello.wire_codec_axioms, where m = ?h and c = "NewReader ?c" and msg = "''send client hello''"]
    by (auto simp: client_ready_def wf_ClientHello_def)
  let ?rest = "go_bind (recvTyped ''read challenge type'' TypeServerChallenge ''decode challenge''
        (DecodeServerChallenge cc_ReadFull)) (\<lambda>challenge.
     go_bind (wrapf ''sign challenge'' (signOn ed_sign keys challenge)) (\<lambda>signature.
     go_bind (wrapf ''send response'' (cc_on (nc_asWriter (ClientResponse_Encode \<lparr>Signature = signature\<rparr>)))) (\<lambda>_.
     client_auth_result)))"
  have "stable (client_sent ?B) ?rest" by (intro stable_intros)
  moreover have "client_sent ?B ((NewReader ?c)\<lparr>cc_conn := ?c\<lparr>c_out := w\<rparr>\<rparr>)" using w(2) by simp
  ultimately have "client_sent ?B (snd (?rest ((NewReader ?c)\<lparr>cc_conn := ?c\<lparr>c_out := w\<rparr>\<rparr>)))"
    by (rule stable_snd)
  then show "client_sent ?B (snd (client_auth_body ed_sign keys (NewReader ?c)))"
    using w(1) by (simp add: client_auth_body_def pubkey_copy [OF assms(2)] NewReader_def)
qed

lemma client_authenticate_sends_response:
  assumes "client_ready cb c" "length (kp_PublicKey keys) = PublicKeySize" "wf_ServerChallenge ch"
    and "nc_content c = wire_ServerChallenge ch @ bs"
  shows "client_sent (wbytes (c_out c) @ wire_ClientHello \<lparr>PubKey = kp_PublicKey keys\<rparr>
      @ wire_ClientResponse \<lparr>Signature = client_sig ed_sign keys cb ch\<rparr>)
    (snd (client_authenticate ed_sign now (Some keys) timeout (NewReader c)))"
proof (rule client_authenticate_sends [OF assms(1)])
  let ?c = "c\<lparr>c_deadline := Some (now + timeout), c_wdeadline := Some (now + timeout)\<rparr>"
  let ?B = "wbytes (c_out c) @ wire_ClientHello \<lparr>PubKey = kp_PublicKey keys\<rparr>
      @ wire_ClientResponse \<lparr>Signature = client_sig ed_sign keys cb ch\<rparr>"
  have "client_ready cb ?c" "nc_content ?c = wire_ServerChallenge ch @ bs"
    using assms(1,4) by (simp_all add: nc_content_def)
  from client_auth_first [OF this(1) assms(2,3) this(2), of ed_sign]
  obtain t where t: "client_auth_body ed_sign keys (NewReader ?c) = client_auth_result t"
    "wbytes (c_out (cc_conn t)) = wbytes (c_out ?c) @ wire_ClientHello \<lparr>PubKey = kp_PublicKey keys\<rparr>
       @ wire_ClientResponse \<lparr>Signature = client_sig ed_sign keys cb ch\<rparr>" .
  then have "client_sent ?B t" by simp
  from stable_snd [OF client_sent_stable(2) this] t(1)
  show "client_sent ?B (snd (client_auth_body ed_sign keys (NewReader ?c)))" by simp
qed

section \<open>Nothing is read ahead\<close>

text \<open>
  The server sends the challenge and the result each in one write, and \<open>tls.Conn\<close> delivers one
  record at a time. When the records are those messages, the reader of the handshake is empty at
  its end, so that the read loop may start with a reader of its own.
\<close>

definition cc_at :: "bytes \<Rightarrow> bytes list \<Rightarrow> ccon \<Rightarrow> bool" where
  "cc_at b recs c \<longleftrightarrow> cc_buf c = b \<and> rchunks (c_in (cc_conn c)) = recs \<and> \<not> c_closed (cc_conn c)"

lemma cc_read_buffered:
  assumes "cc_at (x @ y) recs c" "length x = n" "0 < n"
  obtains c' where "read_exact cc_ReadFull n c = (Ok x, c')" "cc_at y recs c'"
  using assms bufio_ReadFull_buffered [of n "\<lparr>bbuf = x @ y, bconn = c_in (cc_conn c)\<rparr>"]
  by (auto simp: read_exact_def cc_ReadFull_def cc_at_def)

lemma cc_read_record:
  assumes "cc_at [] ((x @ y) # recs) c" "length x = n" "0 < n" "n < bufio_size" "length (x @ y) \<le> bufio_size"
  obtains c' where "read_exact cc_ReadFull n c = (Ok x, c')" "cc_at y recs c'"
  using assms bufio_ReadFull_record [of "\<lparr>bbuf = [], bconn = c_in (cc_conn c)\<rparr>" "x @ y" recs n]
  by (auto simp: read_exact_def cc_ReadFull_def cc_at_def)

lemma recv_challenge_record:
  assumes "cc_at [] (wire_ServerChallenge ch # recs) c" "wf_ServerChallenge ch"
    and "recvTyped te TypeServerChallenge de (DecodeServerChallenge cc_ReadFull) c = (Ok m, c')"
  shows "cc_at [] recs c'"
proof -
  have len: "length (Challenge ch) = 32" "length (ServerID ch) = 32"
    using assms(2) by (simp_all add: wf_ServerChallenge_def sizes)
  obtain c1 where 1: "read_exact cc_ReadFull 1 c = (Ok [TypeServerChallenge], c1)"
      "cc_at (Challenge ch @ PutUint64 (Timestamp ch) @ ServerID ch) recs c1"
    by (rule cc_read_record [of "[TypeServerChallenge]" "Challenge ch @ PutUint64 (Timestamp ch) @ ServerID ch" recs c 1])
       (use assms(1) len in \<open>auto simp: wire_ServerChallenge_def bufio_size_def\<close>)
  obtain c2 where 2: "read_exact cc_ReadFull 32 c1 = (Ok (Challenge ch), c2)" "cc_at (PutUint64 (Timestamp ch) @ ServerID ch) recs c2"
    using cc_read_buffered [OF 1(2) len(1)] by auto
  obtain c3 where 3: "read_exact cc_ReadFull 8 c2 = (Ok (PutUint64 (Timestamp ch)), c3)" "cc_at (ServerID ch) recs c3"
    using cc_read_buffered [OF 2(2), of 8] by auto
  obtain c4 where 4: "read_exact cc_ReadFull 32 c3 = (Ok (ServerID ch), c4)" "cc_at [] recs c4"
    using cc_read_buffered [of "ServerID ch" "[]" recs c3 32] 3(2) len(2) by auto
  have "recvTyped te TypeServerChallenge de (DecodeServerChallenge cc_ReadFull) c
      = (Ok \<lparr>Challenge = Challenge ch, Timestamp = Timestamp ch, ServerID = ServerID ch\<rparr>, c4)"
    using 1(1) 2(1) 3(1) 4(1) by (simp add: recvTyped_def ReadMessageType_def DecodeServerChallenge_def wrapf_def sizes)
  with assms(3) 4(2) show ?thesis by simp
qed

lemma recv_result_record:
  assumes "cc_at [] (wire_AuthResult accepted # recs) c"
    and "recvTyped te TypeAuthResult de (DecodeAuthResult cc_ReadFull) c = (Ok m, c')"
  shows "cc_at [] recs c'"
proof -
  obtain c1 where 1: "read_exact cc_ReadFull 1 c = (Ok [TypeAuthResult], c1)" "cc_at [AuthStatusOK] recs c1"
    by (rule cc_read_record [of "[TypeAuthResult]" "[AuthStatusOK]" recs c 1])
       (use assms(1) in \<open>auto simp: wire_AuthResult_def accepted_def bufio_size_def\<close>)
  obtain c2 where 2: "read_exact cc_ReadFull 1 c1 = (Ok [AuthStatusOK], c2)" "cc_at [] recs c2"
    using cc_read_buffered [of "[AuthStatusOK]" "[]" recs c1 1] 1(2) by auto
  have "recvTyped te TypeAuthResult de (DecodeAuthResult cc_ReadFull) c = (Ok accepted, c2)"
    using 1(1) 2(1) by (simp add: recvTyped_def ReadMessageType_def DecodeAuthResult_def wrapf_def accepted_def)
  with assms(2) 2(2) show ?thesis by simp
qed

lemma cc_at_send: "cc_at b recs c \<Longrightarrow> wrapf msg (cc_on (nc_asWriter enc)) c = (r, c') \<Longrightarrow> cc_at b recs c'"
  by (auto simp: cc_at_def cc_on_def go_lift_def wrapf_def nc_asWriter_def split: prod.splits res.splits if_splits)

lemma cc_at_sign: "cc_at b recs c \<Longrightarrow> wrapf msg (signOn ed_sign keys ch) c = (r, c') \<Longrightarrow> cc_at b recs c'"
  by (auto simp: signOn_def wrapf_def split: option.splits res.splits)

lemma client_auth_body_records:
  assumes "client_auth_body ed_sign keys (NewReader c) = (Ok (), t)" "\<not> c_closed c" "wf_ServerChallenge ch"
    and "rchunks (c_in c) = wire_ServerChallenge ch # wire_AuthResult accepted # recs"
  shows "cc_at [] recs t"
proof -
  have 0: "cc_at [] (wire_ServerChallenge ch # wire_AuthResult accepted # recs) (NewReader c)"
    using assms(2,4) by (simp add: cc_at_def)
  from assms(1) obtain s1 m s2 sig s3 s4 res where
    1: "wrapf ''send client hello'' (cc_on (nc_asWriter (ClientHello_Encode
          \<lparr>PubKey = copy_at (replicate PublicKeySize 0) 0 (kp_PublicKey keys)\<rparr>))) (NewReader c) = (Ok (), s1)"
    and 2: "recvTyped ''read challenge type'' TypeServerChallenge ''decode challenge'' (DecodeServerChallenge cc_ReadFull) s1 = (Ok m, s2)"
    and 3: "wrapf ''sign challenge'' (signOn ed_sign keys m) s2 = (Ok sig, s3)"
    and 4: "wrapf ''send response'' (cc_on (nc_asWriter (ClientResponse_Encode \<lparr>Signature = sig\<rparr>))) s3 = (Ok (), s4)"
    and 5: "recvTyped ''read result type'' TypeAuthResult ''decode result'' (DecodeAuthResult cc_ReadFull) s4 = (Ok res, t)"
    by (auto simp: client_auth_body_def client_auth_result_def go_bind_eq_Ok go_guard_eq_Ok NewReader_def)
  have "cc_at [] (wire_AuthResult accepted # recs) s2"
    by (rule recv_challenge_record [OF cc_at_send [OF 0 1] assms(3) 2])
  from recv_result_record [OF cc_at_send [OF cc_at_sign [OF this 3] 4] 5] show ?thesis .
qed

lemma client_authenticate_records:
  assumes "client_ready cb c" "client_authenticate ed_sign now (Some keys) timeout (NewReader c) = (Ok (), t)" "wf_ServerChallenge ch"
    and "rchunks (c_in c) = wire_ServerChallenge ch # wire_AuthResult accepted # recs"
  shows "cc_at [] recs t"
proof -
  let ?c = "c\<lparr>c_deadline := Some (now + timeout), c_wdeadline := Some (now + timeout)\<rparr>"
  obtain u where u: "client_auth_body ed_sign keys (NewReader ?c) = (Ok (), u)" "t = snd (cc_on (nc_SetDeadline None) u)"
    using assms(2) client_authenticate_eq [OF assms(1)] by (auto simp: go_defer_eq_Ok)
  have "cc_at [] recs u"
    using client_auth_body_records [OF u(1) _ assms(3)] assms(1,4) by (simp add: client_ready_def)
  then show ?thesis
    by (auto simp: u(2) cc_at_def cc_on_def go_lift_def nc_SetDeadline_def split: prod.splits list.splits option.splits if_splits)
qed

section \<open>Connecting\<close>

lemma loadCAs_keeps: "keeps (\<lambda>s. s) (loadCAs appendPEM paths pool)"
proof (induction paths arbitrary: pool)
  case (Cons path paths)
  have "keeps (\<lambda>s. s) (os_ReadFile path)"
    by (auto simp: keeps_def dest: os_ReadFile_state)
  with Cons show ?case by (auto intro!: keeps_intros split: prod.splits)
qed (simp add: keeps_intros)

lemma client_buildTLSConfig_keeps: "keeps (\<lambda>s. s) (client_buildTLSConfig E cfg)"
  unfolding client_buildTLSConfig_def
  by (auto intro!: keeps_intros loadCAs_keeps split: option.splits)

lemma client_buildTLSConfig_Ok:
  assumes "client_buildTLSConfig E cfg f = (Ok t, f')" "cf_tlsConfig cfg = None"
  shows "ct_MinVersion t = VersionTLS13 \<and> ct_InsecureSkipVerify t = cf_insecureSkipVerify cfg
    \<and> ct_ServerName t = cf_serverName cfg \<and> (cf_caCertPaths cfg = [] \<longrightarrow> ct_RootCAs t = cf_rootCAs cfg)
    \<and> (cf_caCertPaths cfg \<noteq> [] \<longrightarrow>
        (\<exists>pool. loadCAs (ce_appendPEM E) (cf_caCertPaths cfg) (ce_newPool E) f = (Ok pool, f') \<and> ct_RootCAs t = Some pool))"
  using assms by (auto simp: client_buildTLSConfig_def go_bind_eq_Ok split: if_splits)

lemma ks_onFS_keeps: "keeps (\<lambda>s. s) m \<Longrightarrow> keeps (\<lambda>s. s) (ks_onFS m)"
  by (auto simp: keeps_def ks_onFS_def go_lift_def split: prod.splits)

lemma Generate_keeps: "keeps (\<lambda>s. s) (Generate gen)"
  by (auto simp: keeps_def Generate_def split: res.splits prod.splits)

text \<open>Before the connection nothing of the state changes.\<close>

lemma Connect_cases:
  assumes "Connect E addr opts s = (r, s')"
  obtains (early) "s' = s" "\<And>x. r \<noteq> Ok x"
  | (dialled) keys tls conn where
      "Generate (ce_gen E) (ks_fs s) = (Ok keys, ks_fs s)"
      "client_buildTLSConfig E (applyOptions opts keys) (ks_fs s) = (Ok tls, ks_fs s)"
      "ce_dial E (cf_dialTimeout (applyOptions opts keys))
         (cf_localAddr (applyOptions opts keys)) addr tls = Ok conn"
      "go_bind (authConn E (applyOptions opts keys) conn)
         (\<lambda>c. if cf_readBufSize (applyOptions opts keys) < 0
              then go_panic ''makechan: size out of range''
              else go_return (applyOptions opts keys, c)) s = (r, s')"
proof -
  obtain k s1 where g: "wrapf ''generate keys'' (ks_onFS (Generate (ce_gen E))) s = (k, s1)" by fastforce
  then have "s1 = s"
    using keepsD [OF keeps_wrapf [OF ks_onFS_keeps [OF Generate_keeps]]] by fastforce
  note g = g [unfolded this]
  show thesis
  proof (cases k)
    case (Ok keys)
    let ?cfg = "applyOptions opts keys :: ('a, 'b) connectConfig"
    obtain t s2 where b: "wrapf ''build TLS config'' (ks_onFS (client_buildTLSConfig E ?cfg)) s = (t, s2)" by fastforce
    then have "s2 = s"
      using keepsD [OF keeps_wrapf [OF ks_onFS_keeps [OF client_buildTLSConfig_keeps]]] by fastforce
    note b = b [unfolded this]
    show thesis
    proof (cases t)
      case t: (Ok tls)
      have G: "Generate (ce_gen E) (ks_fs s) = (Ok keys, ks_fs s)"
        using g Ok keepsD [OF Generate_keeps] by (auto simp: wrapf_eq_Ok ks_onFS_def go_lift_eq_Ok)
      have B: "client_buildTLSConfig E ?cfg (ks_fs s) = (Ok tls, ks_fs s)"
        using b t keepsD [OF client_buildTLSConfig_keeps] by (auto simp: wrapf_eq_Ok ks_onFS_def go_lift_eq_Ok)
      show thesis
        using assms g b Ok t G B dialled [of keys tls] early
        by (cases "ce_dial E (cf_dialTimeout ?cfg) (cf_localAddr ?cfg) addr tls")
           (auto simp: Connect_def Let_def ofRes_def wrapf_def)
    qed (use assms g b Ok early in \<open>auto simp: Connect_def Let_def\<close>)
  qed (use assms g early in \<open>auto simp: Connect_def\<close>)
qed

lemma nc_Close_is_closed: "c_closed (snd (nc_Close c))"
  by (simp add: nc_Close_def)

section \<open>An example\<close>

definition ex_keys :: KeyPair where
  "ex_keys = \<lparr>kp_PublicKey = ex_key, kp_PrivateKey = replicate 32 0 @ ex_key\<rparr>"

definition ex_sign :: "bytes \<Rightarrow> bytes \<Rightarrow> bytes" where
  "ex_sign priv m = take 64 (drop 32 priv @ m)"

definition ex_chal :: ServerChallenge where
  "ex_chal = \<lparr>Challenge = replicate 32 9, Timestamp = 1000, ServerID = ex_sid\<rparr>"

definition ex_cconn :: netconn where
  "ex_cconn = \<lparr>c_in = \<lparr>rchunks = [wire_ServerChallenge ex_chal, [4], [0]], rend = io_EOF\<rparr>,
     c_out = empty_writer, c_closed = False, c_deadline = None, c_wdeadline = None, c_dlplan = [],
     c_closeErr = None, c_tls = Some ex_tls\<rparr>"

definition ex_cenv :: "unit client_env" where
  "ex_cenv = \<lparr>ce_gen = Ok (ex_key, replicate 32 0 @ ex_key), ce_sign = ex_sign,
     ce_dial = (\<lambda>_ _ _ _. Ok ex_cconn), ce_now = 0, ce_newPool = (), ce_appendPEM = (\<lambda>_ _. (False, ()))\<rparr>"

lemma ex_client_ready: "client_ready (replicate 32 5) ex_cconn"
  by (simp add: client_ready_def ex_cconn_def ex_tls_def GetChannelBinding_def copy_at_def sizes)

lemma ex_client_content:
  "wf_ServerChallenge ex_chal" "nc_content ex_cconn = wire_ServerChallenge ex_chal @ wire_AuthResult accepted @ []"
  by (simp_all add: wf_ServerChallenge_def ex_chal_def ex_sid_def nc_content_def ex_cconn_def accepted_def
      wire_AuthResult_def sizes)

lemma ex_keys_len: "length (kp_PublicKey ex_keys) = PublicKeySize"
  by (simp add: ex_keys_def ex_key_def sizes)

section \<open>Properties\<close>

text \<open>C5: the client's side of the handshake succeeds exactly when the server sends a challenge and
  then the positive result, however these bytes are cut into records; then the client has sent its
  hello and the response whose signature covers that very challenge and the channel binding of
  its TLS connection, nothing of what follows is lost to the reader, the connection is open and no deadline is
  left on it.\<close>
theorem client_authenticate_iff:
  assumes "client_ready cb c" "length (kp_PublicKey keys) = PublicKeySize"
  shows "(fst (client_authenticate ed_sign now (Some keys) timeout (NewReader c)) = Ok () \<longleftrightarrow>
      (\<exists>ch rest. wf_ServerChallenge ch \<and> nc_content c = wire_ServerChallenge ch @ wire_AuthResult accepted @ rest))
    \<and> (\<forall>ch rest. wf_ServerChallenge ch \<and> nc_content c = wire_ServerChallenge ch @ wire_AuthResult accepted @ rest \<longrightarrow>
      (\<exists>t. client_authenticate ed_sign now (Some keys) timeout (NewReader c) = (Ok (), t)
        \<and> client_authed ed_sign keys cb ch rest c t \<and> c_deadline (cc_conn t) = None \<and> c_wdeadline (cc_conn t) = None))"
    (is "(?ok \<longleftrightarrow> ?sent) \<and> ?all")
proof -
  let ?c = "c\<lparr>c_deadline := Some (now + timeout), c_wdeadline := Some (now + timeout)\<rparr>"
  have all: ?all using client_authenticate_Ok [OF assms] by blast
  moreover have "?ok \<Longrightarrow> ?sent"
    using client_auth_body_OkD [of cb ?c keys ed_sign "snd (client_auth_body ed_sign keys (NewReader ?c))"] assms
      client_authenticate_eq [OF assms(1), of ed_sign now keys timeout]
    by (auto simp: nc_content_def prod_eq_iff)
  moreover have "?sent \<Longrightarrow> ?ok" using all by (metis fst_conv)
  ultimately show ?thesis by blast
qed

theorem client_authenticate_iff_witness:
  "fst (client_authenticate ex_sign 0 (Some ex_keys) DefaultDialTimeout (NewReader ex_cconn)) = Ok ()"
  using client_authenticate_iff [OF ex_client_ready ex_keys_len, of ex_sign 0 DefaultDialTimeout] ex_client_content by blast



end
