(* ===== verification/Client_Loop.thy ===== *)
theory Client_Loop
  imports Client
begin

text \<open>
  The established session of the client, the second half of \<open>src/pkg/client/client.go\<close>: the read
  loop, the write loop and \<open>runLoop\<close>, which waits for both and closes the channel of received
  messages. The two goroutines and the application share the connection, the channels and the
  closing flag; each atomic action is a function on the state, and the step relation lets any
  enabled action happen next. \<open>proto.Unmarshal\<close> and the clock are parameters.
\<close>

section \<open>State\<close>

record OutgoingMessage =
  om_To :: string
  om_MsgID :: string
  om_Payload :: bytes

text \<open>
  Where the goroutines are: the read loop before it makes its reader, at the check of the closing
  channel, in \<open>DecodeServerMessage\<close>, at the hand-over of a message, after its return; the write
  loop at its \<open>select\<close> or after its return.
\<close>

datatype reader_pc = RStart | RCheck | RDecode | RDeliver Message | RDone

datatype writer_pc = WSelect | WDone

text \<open>Channels are their buffered elements and whether they are closed.\<close>

record 'u client =
  cl_con :: ccon
  cl_closeCh :: bool
  cl_closeOnce :: bool
  cl_send :: "OutgoingMessage list"
  cl_sendClosed :: bool
  cl_recv :: "Message list"
  cl_recvClosed :: bool
  cl_reader :: reader_pc
  cl_writer :: writer_pc
  cl_user :: 'u

section \<open>Operations (client.go)\<close>

definition handleError :: "('p, 'u) connectConfig \<Rightarrow> go_error \<Rightarrow> 'u client \<Rightarrow> 'u client" where
  "handleError cfg err cl =
     (case cf_onError cfg of Some f \<Rightarrow> cl\<lparr>cl_user := f err (cl_user cl)\<rparr> | None \<Rightarrow> cl)"

definition sendMessage :: "('p, 'u) connectConfig \<Rightarrow> int \<Rightarrow> OutgoingMessage \<Rightarrow> (netconn, unit) go" where
  "sendMessage cfg now msg =
     go_bind (if 0 < cf_writeTimeout cfg
              then wrapf ''set write deadline'' (nc_SetWriteDeadline (Some (now + cf_writeTimeout cfg)))
              else go_return ()) (\<lambda>_.
     nc_asWriter (ClientMessage_Encode
       \<lparr>cm_To = om_To msg, cm_MsgID = om_MsgID msg, cm_Payload = om_Payload msg\<rparr>))"

text \<open>\<open>closeAll\<close>: the body of the \<open>sync.Once\<close> runs at the first call only.\<close>

definition closeAll :: "('p, 'u) connectConfig \<Rightarrow> 'u client \<Rightarrow> 'u client" where
  "closeAll cfg cl =
     (if cl_closeOnce cl then cl
      else case nc_Close (cc_conn (cl_con cl)) of (r, c) \<Rightarrow>
        let cl' = cl\<lparr>cl_closeOnce := True, cl_closeCh := True, cl_con := (cl_con cl)\<lparr>cc_conn := c\<rparr>\<rparr> in
        (case r of Err e \<Rightarrow> handleError cfg (Wrapf ''close connection'' e) cl' | _ \<Rightarrow> cl'))"

text \<open>The read loop. Its return runs the deferred \<open>closeAll\<close>.\<close>

definition readStart :: "'u client \<Rightarrow> 'u client" where
  "readStart cl = cl\<lparr>cl_con := NewReader (cc_conn (cl_con cl)), cl_reader := RCheck\<rparr>"

definition readReturn :: "('p, 'u) connectConfig \<Rightarrow> 'u client \<Rightarrow> 'u client" where
  "readReturn cfg cl = (closeAll cfg cl)\<lparr>cl_reader := RDone\<rparr>"

definition readCheck :: "('p, 'u) connectConfig \<Rightarrow> 'u client \<Rightarrow> 'u client" where
  "readCheck cfg cl = (if cl_closeCh cl then readReturn cfg cl else cl\<lparr>cl_reader := RDecode\<rparr>)"

definition readDecode ::
    "('p, 'u) connectConfig \<Rightarrow> (bytes \<Rightarrow> go_error + Message) \<Rightarrow> 'u client \<Rightarrow> 'u client" where
  "readDecode cfg unmarshal cl =
     (case DecodeServerMessage cc_ReadFull (cl_con cl) of
        (Ok serverMsg, c) \<Rightarrow>
          (let cl = cl\<lparr>cl_con := c\<rparr> in
           case unmarshal (sm_Data serverMsg) of
             Inl e \<Rightarrow> (handleError cfg (Wrapf ''unmarshal message'' e) cl)\<lparr>cl_reader := RCheck\<rparr>
           | Inr msg \<Rightarrow> cl\<lparr>cl_reader := RDeliver msg\<rparr>)
      | (Err e, c) \<Rightarrow>
          (let cl = cl\<lparr>cl_con := c\<rparr> in
           if errors_is e io_EOF \<or> errors_is e net_ErrClosed then readReturn cfg cl
           else if cl_closeCh cl then readReturn cfg cl
           else readReturn cfg (handleError cfg (Wrapf ''decode server message'' e) cl))
      | (Panic p, c) \<Rightarrow> cl)"

text \<open>The \<open>select\<close> at the hand-over: the channel has room, or the closing channel is closed.\<close>

definition readDeliver :: "Message \<Rightarrow> 'u client \<Rightarrow> 'u client" where
  "readDeliver msg cl = cl\<lparr>cl_recv := cl_recv cl @ [msg], cl_reader := RCheck\<rparr>"

text \<open>The write loop: one message, or the end of the channel of messages to send.\<close>

definition writeSend ::
    "('p, 'u) connectConfig \<Rightarrow> int \<Rightarrow> OutgoingMessage \<Rightarrow> OutgoingMessage list \<Rightarrow> 'u client \<Rightarrow> 'u client" where
  "writeSend cfg now msg rest cl =
     (case sendMessage cfg now msg (cc_conn (cl_con cl)) of
        (r, c) \<Rightarrow>
          let cl = cl\<lparr>cl_send := rest, cl_con := (cl_con cl)\<lparr>cc_conn := c\<rparr>\<rparr> in
          (case r of Err e \<Rightarrow> handleError cfg (Wrapf ''send message'' e) cl | _ \<Rightarrow> cl))"

definition writeEnd :: "('p, 'u) connectConfig \<Rightarrow> 'u client \<Rightarrow> 'u client" where
  "writeEnd cfg cl = (closeAll cfg cl)\<lparr>cl_writer := WDone\<rparr>"

text \<open>\<open>runLoop\<close> starts both loops; when both have returned it closes the channel.\<close>

definition runLoop_start :: "ccon \<Rightarrow> 'u \<Rightarrow> 'u client" where
  "runLoop_start c u =
     \<lparr>cl_con = c, cl_closeCh = False, cl_closeOnce = False, cl_send = [], cl_sendClosed = False,
      cl_recv = [], cl_recvClosed = False, cl_reader = RStart, cl_writer = WSelect, cl_user = u\<rparr>"

definition runLoop_end :: "'u client \<Rightarrow> 'u client" where
  "runLoop_end cl = cl\<lparr>cl_recvClosed := True\<rparr>"

section \<open>Steps\<close>

text \<open>
  The goroutines of the session. A channel of capacity zero, or an empty one with a waiting
  receiver, hands the message over directly; that step is with those of the application.
\<close>

inductive client_internal ::
    "('p, 'u) connectConfig \<Rightarrow> (bytes \<Rightarrow> go_error + Message) \<Rightarrow> 'u client \<Rightarrow> 'u client \<Rightarrow> bool"
  for cfg unmarshal where
  start: "cl_reader cl = RStart \<Longrightarrow> client_internal cfg unmarshal cl (readStart cl)"
| check: "cl_reader cl = RCheck \<Longrightarrow> client_internal cfg unmarshal cl (readCheck cfg cl)"
| decode: "cl_reader cl = RDecode \<Longrightarrow> client_internal cfg unmarshal cl (readDecode cfg unmarshal cl)"
| deliver: "cl_reader cl = RDeliver msg \<Longrightarrow> int (length (cl_recv cl)) < cf_readBufSize cfg \<Longrightarrow>
    client_internal cfg unmarshal cl (readDeliver msg cl)"
| stop: "cl_reader cl = RDeliver msg \<Longrightarrow> cl_closeCh cl \<Longrightarrow> client_internal cfg unmarshal cl (readReturn cfg cl)"
| quit: "cl_writer cl = WSelect \<Longrightarrow> cl_closeCh cl \<Longrightarrow> client_internal cfg unmarshal cl (cl\<lparr>cl_writer := WDone\<rparr>)"
| send: "cl_writer cl = WSelect \<Longrightarrow> cl_send cl = msg # rest \<Longrightarrow>
    client_internal cfg unmarshal cl (writeSend cfg now msg rest cl)"
| ended: "cl_writer cl = WSelect \<Longrightarrow> cl_send cl = [] \<Longrightarrow> cl_sendClosed cl \<Longrightarrow>
    client_internal cfg unmarshal cl (writeEnd cfg cl)"
| finish: "cl_reader cl = RDone \<Longrightarrow> cl_writer cl = WDone \<Longrightarrow> \<not> cl_recvClosed cl \<Longrightarrow>
    client_internal cfg unmarshal cl (runLoop_end cl)"

inductive_cases client_internalE: "client_internal cfg unmarshal cl cl'"

text \<open>
  The session with its application, which sends messages, closes its channel and receives. What
  it has sent and what it has got are recorded.
\<close>

record 'u session =
  ss_client :: "'u client"
  ss_pushed :: "OutgoingMessage list"
  ss_got :: "Message list"

inductive client_step ::
    "('p, 'u) connectConfig \<Rightarrow> (bytes \<Rightarrow> go_error + Message) \<Rightarrow> 'u session \<Rightarrow> 'u session \<Rightarrow> bool"
  for cfg unmarshal where
  internal: "client_internal cfg unmarshal (ss_client s) cl \<Longrightarrow> client_step cfg unmarshal s (s\<lparr>ss_client := cl\<rparr>)"
| push: "\<not> cl_sendClosed (ss_client s) \<Longrightarrow> client_step cfg unmarshal s
    (s\<lparr>ss_client := (ss_client s)\<lparr>cl_send := cl_send (ss_client s) @ [m]\<rparr>, ss_pushed := ss_pushed s @ [m]\<rparr>)"
| close_send: "\<not> cl_sendClosed (ss_client s) \<Longrightarrow> client_step cfg unmarshal s
    (s\<lparr>ss_client := (ss_client s)\<lparr>cl_sendClosed := True\<rparr>\<rparr>)"
| receive: "cl_recv (ss_client s) = m # ms \<Longrightarrow> client_step cfg unmarshal s
    (s\<lparr>ss_client := (ss_client s)\<lparr>cl_recv := ms\<rparr>, ss_got := ss_got s @ [m]\<rparr>)"
| rendezvous: "cl_recv (ss_client s) = [] \<Longrightarrow> cl_reader (ss_client s) = RDeliver m \<Longrightarrow> client_step cfg unmarshal s
    (s\<lparr>ss_client := (ss_client s)\<lparr>cl_reader := RCheck\<rparr>, ss_got := ss_got s @ [m]\<rparr>)"

inductive_cases client_stepE: "client_step cfg unmarshal s s'"

definition session_init :: "ccon \<Rightarrow> 'u session \<Rightarrow> bool" where
  "session_init c s \<longleftrightarrow> (\<exists>u. s = \<lparr>ss_client = runLoop_start c u, ss_pushed = [], ss_got = []\<rparr>)"

section \<open>Helpers\<close>

lemma handleError_sel [simp]:
  "cl_con (handleError cfg e cl) = cl_con cl" "cl_closeCh (handleError cfg e cl) = cl_closeCh cl"
  "cl_closeOnce (handleError cfg e cl) = cl_closeOnce cl" "cl_send (handleError cfg e cl) = cl_send cl"
  "cl_sendClosed (handleError cfg e cl) = cl_sendClosed cl" "cl_recv (handleError cfg e cl) = cl_recv cl"
  "cl_recvClosed (handleError cfg e cl) = cl_recvClosed cl" "cl_reader (handleError cfg e cl) = cl_reader cl"
  "cl_writer (handleError cfg e cl) = cl_writer cl"
  by (simp_all add: handleError_def split: option.splits)

lemma closeAll_sel [simp]:
  "cl_send (closeAll cfg cl) = cl_send cl" "cl_sendClosed (closeAll cfg cl) = cl_sendClosed cl"
  "cl_recv (closeAll cfg cl) = cl_recv cl" "cl_recvClosed (closeAll cfg cl) = cl_recvClosed cl"
  "cl_reader (closeAll cfg cl) = cl_reader cl" "cl_writer (closeAll cfg cl) = cl_writer cl"
  "cl_closeOnce (closeAll cfg cl)" "cc_buf (cl_con (closeAll cfg cl)) = cc_buf (cl_con cl)"
  "c_out (cc_conn (cl_con (closeAll cfg cl))) = c_out (cc_conn (cl_con cl))"
  "c_dlplan (cc_conn (cl_con (closeAll cfg cl))) = c_dlplan (cc_conn (cl_con cl))"
  by (auto simp: closeAll_def nc_Close_def Let_def split: prod.splits res.splits option.splits if_splits)

lemma closeAll_flags:
  "cl_closeCh (closeAll cfg cl) = (if cl_closeOnce cl then cl_closeCh cl else True)"
  "c_closed (cc_conn (cl_con (closeAll cfg cl))) = (if cl_closeOnce cl then c_closed (cc_conn (cl_con cl)) else True)"
  by (auto simp: closeAll_def nc_Close_def Let_def split: prod.splits res.splits option.splits)

lemma readDecode_cases:
  obtains (got) m msg c where "DecodeServerMessage cc_ReadFull (cl_con cl) = (Ok m, c)" "unmarshal (sm_Data m) = Inr msg"
      "readDecode cfg unmarshal cl = cl\<lparr>cl_con := c, cl_reader := RDeliver msg\<rparr>"
  | (skipped) m e c where "DecodeServerMessage cc_ReadFull (cl_con cl) = (Ok m, c)" "unmarshal (sm_Data m) = Inl e"
      "readDecode cfg unmarshal cl = (handleError cfg (Wrapf ''unmarshal message'' e) (cl\<lparr>cl_con := c\<rparr>))\<lparr>cl_reader := RCheck\<rparr>"
  | (ended) e c u where "DecodeServerMessage cc_ReadFull (cl_con cl) = (Err e, c)"
      "readDecode cfg unmarshal cl = readReturn cfg (cl\<lparr>cl_con := c, cl_user := u\<rparr>)"
proof -
  obtain r c where d: "DecodeServerMessage cc_ReadFull (cl_con cl) = (r, c)" by fastforce
  have np: "\<And>p. r \<noteq> Panic p"
    using d unfolding DecodeServerMessage_def Let_def
    by (auto simp: go_bind_def wrapf_def read_exact_def split: prod.splits res.splits option.splits if_splits)
  show thesis
  proof (cases r)
    case (Ok m)
    with d got [of m c] skipped [of m c] show thesis
      by (cases "unmarshal (sm_Data m)") (simp_all add: readDecode_def)
  next
    case (Err e)
    have "readDecode cfg unmarshal cl = readReturn cfg (cl\<lparr>cl_con := c, cl_user :=
        (if errors_is e io_EOF \<or> errors_is e net_ErrClosed \<or> cl_closeCh cl then cl_user cl
         else cl_user (handleError cfg (Wrapf ''decode server message'' e) cl))\<rparr>)"
      using d Err by (cases cl) (simp add: readDecode_def handleError_def Let_def split: option.splits)
    with d Err ended show thesis by blast
  qed (use np in simp)
qed

section \<open>Structure: closing happens once, the channel of received messages is closed last\<close>

definition client_inv :: "('p, 'u) connectConfig \<Rightarrow> 'u client \<Rightarrow> bool" where
  "client_inv cfg cl \<longleftrightarrow> cl_closeOnce cl = cl_closeCh cl \<and> c_closed (cc_conn (cl_con cl)) = cl_closeOnce cl
     \<and> (cl_reader cl = RDone \<longrightarrow> cl_closeOnce cl) \<and> (cl_writer cl = WDone \<longrightarrow> cl_closeOnce cl)
     \<and> (cl_recvClosed cl \<longrightarrow> cl_reader cl = RDone \<and> cl_writer cl = WDone)
     \<and> int (length (cl_recv cl)) \<le> max 0 (cf_readBufSize cfg)"

lemma decode_closed:
  assumes "DecodeServerMessage cc_ReadFull c = (r, c')"
  shows "c_closed (cc_conn c') = c_closed (cc_conn c)" "c_out (cc_conn c') = c_out (cc_conn c)"
    "c_dlplan (cc_conn c') = c_dlplan (cc_conn c)"
  using cc_frameD [OF keepsD [OF cc_decoders_keep(4) assms]] by simp_all

lemma sendMessage_closed: "keeps c_closed (sendMessage cfg now msg)" "keeps c_in (sendMessage cfg now msg)"
proof -
  have w: "keeps c_closed (nc_SetWriteDeadline t)" "keeps c_in (nc_SetWriteDeadline t)" for t
    by (auto simp: keeps_def nc_SetWriteDeadline_def split: if_splits list.splits option.splits)
  have "keeps c_closed (nc_asWriter enc)" "keeps c_in (nc_asWriter enc)" for enc :: "(writer, unit) go"
    by (auto simp: keeps_def nc_asWriter_def split: if_splits prod.splits)
  with w show "keeps c_closed (sendMessage cfg now msg)" "keeps c_in (sendMessage cfg now msg)"
    unfolding sendMessage_def by (auto intro!: keeps_intros)
qed

lemma writeSend_sel:
  assumes "sendMessage cfg now msg (cc_conn (cl_con cl)) = (r, c)"
  shows "cl_con (writeSend cfg now msg rest cl) = (cl_con cl)\<lparr>cc_conn := c\<rparr>"
    "cl_send (writeSend cfg now msg rest cl) = rest"
    "cl_closeCh (writeSend cfg now msg rest cl) = cl_closeCh cl"
    "cl_closeOnce (writeSend cfg now msg rest cl) = cl_closeOnce cl"
    "cl_sendClosed (writeSend cfg now msg rest cl) = cl_sendClosed cl"
    "cl_recv (writeSend cfg now msg rest cl) = cl_recv cl"
    "cl_recvClosed (writeSend cfg now msg rest cl) = cl_recvClosed cl"
    "cl_reader (writeSend cfg now msg rest cl) = cl_reader cl"
    "cl_writer (writeSend cfg now msg rest cl) = cl_writer cl"
  using assms by (auto simp: writeSend_def Let_def split: res.splits)

lemma client_inv_internal:
  assumes "client_inv cfg cl" "client_internal cfg unmarshal cl cl'"
  shows "client_inv cfg cl'"
  using assms(2)
proof cases
  case decode
  show ?thesis
    by (rule readDecode_cases [where cl = cl and cfg = cfg and unmarshal = unmarshal])
       (use assms(1) decode in \<open>auto simp: client_inv_def readReturn_def closeAll_flags dest: decode_closed(1)\<close>)
next
  case (send msg rest now)
  obtain r c where s: "sendMessage cfg now msg (cc_conn (cl_con cl)) = (r, c)" by fastforce
  from keepsD [OF sendMessage_closed(1) s] assms(1) send writeSend_sel [OF s, of rest] show ?thesis
    by (auto simp: client_inv_def)
qed (use assms(1) in \<open>auto simp: client_inv_def readStart_def readCheck_def readReturn_def readDeliver_def
       writeEnd_def runLoop_end_def closeAll_flags\<close>)

lemma client_inv_step:
  assumes "client_inv cfg (ss_client s)" "client_step cfg unmarshal s s'"
  shows "client_inv cfg (ss_client s')"
  using assms(2)
proof cases
  case (internal cl)
  with client_inv_internal [OF assms(1)] show ?thesis by simp
qed (use assms(1) in \<open>auto simp: client_inv_def\<close>)

text \<open>Sessions that start on an open connection with nothing read ahead.\<close>

definition fresh_session :: "ccon \<Rightarrow> 'u session \<Rightarrow> bool" where
  "fresh_session c s \<longleftrightarrow> session_init c s \<and> \<not> c_closed (cc_conn c)"

interpretation cs: inductive_invariant "fresh_session c" "client_step cfg unmarshal" "\<lambda>s. client_inv cfg (ss_client s)"
proof (standard, goal_cases)
  case (1 s)
  then show ?case by (auto simp: fresh_session_def session_init_def runLoop_start_def client_inv_def)
next
  case (2 s t)
  then show ?case by (rule client_inv_step)
qed

section \<open>Receiving: in order, complete, nothing twice\<close>

text \<open>What the messages of the server are to the application; those that do not parse are skipped.\<close>

definition received :: "(bytes \<Rightarrow> go_error + Message) \<Rightarrow> ServerMessage list \<Rightarrow> Message list" where
  "received unmarshal ms =
     concat (map (\<lambda>m. case unmarshal (sm_Data m) of Inl _ \<Rightarrow> [] | Inr msg \<Rightarrow> [msg]) ms)"

lemma received_Suc:
  "k < length ms \<Longrightarrow> received unmarshal (take (Suc k) ms) = received unmarshal (take k ms)
     @ (case unmarshal (sm_Data (ms ! k)) of Inl _ \<Rightarrow> [] | Inr msg \<Rightarrow> [msg])"
  by (simp add: received_def take_Suc_conv_app_nth)

abbreviation stream :: "ServerMessage list \<Rightarrow> bytes" where
  "stream ms \<equiv> concat (map wire_ServerMessage ms)"

text \<open>Decoding needs no more than the frame: what follows does not matter.\<close>

lemma decode_extend:
  assumes "DecodeServerMessage buf_ReadFull (bs, e) = (Ok m, b)"
  shows "DecodeServerMessage buf_ReadFull (bs @ suf, e') = (Ok m, (fst b @ suf, e')) \<and> snd b = e"
  using assms by (auto simp: DecodeServerMessage_def bind_read_buf Let_def split: if_splits)

lemma decode_next:
  assumes "DecodeServerMessage buf_ReadFull (bs, e) = (Ok m, b)" "bs @ suf = stream ms" "list_all wf_ServerMessage ms"
  obtains ms' where "ms = m # ms'" "fst b @ suf = stream ms'"
proof (cases ms)
  case Nil
  with assms(1,2) show thesis by (auto simp: DecodeServerMessage_def bind_read_buf split: if_splits)
next
  case (Cons m' ms')
  have "DecodeServerMessage buf_ReadFull (stream ms, e) = (Ok m', (stream ms', e))"
    using smsg.dec_wire [of m' "stream ms'" e] assms(3) Cons by simp
  moreover have "DecodeServerMessage buf_ReadFull (bs @ suf, e) = (Ok m, (fst b @ suf, e))"
    using decode_extend [OF assms(1)] by blast
  ultimately have "m = m'" "fst b @ suf = stream ms'" using assms(2) by auto
  with Cons that show thesis by simp
qed

lemma decode_end:
  assumes "DecodeServerMessage buf_ReadFull (stream ms, e) = (Err e', b)" "list_all wf_ServerMessage ms"
  shows "ms = []"
  using assms smsg.dec_wire [of "hd ms" "stream (tl ms)" e] by (cases ms) auto

text \<open>
  \<open>k\<close> messages have been handled; a message at the hand-over is the next one, and the reader still
  has the frames behind it, all of them while the connection is open.
\<close>

definition position :: "reader_pc \<Rightarrow> nat \<Rightarrow> nat" where
  "position pc k = (case pc of RDeliver _ \<Rightarrow> Suc k | _ \<Rightarrow> k)"

definition read_inv ::
    "(bytes \<Rightarrow> go_error + Message) \<Rightarrow> ServerMessage list \<Rightarrow> 'u session \<Rightarrow> nat \<Rightarrow> bool" where
  "read_inv unmarshal ms s k \<longleftrightarrow> (let cl = ss_client s in
     k \<le> length ms \<and> ss_got s @ cl_recv cl = received unmarshal (take k ms)
     \<and> (\<forall>msg. cl_reader cl = RDeliver msg \<longrightarrow> k < length ms \<and> unmarshal (sm_Data (ms ! k)) = Inr msg)
     \<and> (cl_reader cl = RStart \<longrightarrow> cc_buf (cl_con cl) = [])
     \<and> (cl_reader cl \<noteq> RDone \<longrightarrow> (\<exists>suf. fst (cc_abs (cl_con cl)) @ suf = stream (drop (position (cl_reader cl) k) ms)
          \<and> (\<not> cl_closeOnce cl \<longrightarrow> suf = [])))
     \<and> (cl_reader cl = RDone \<and> \<not> cl_sendClosed cl \<longrightarrow> k = length ms)
     \<and> (cl_closeOnce cl \<and> \<not> cl_sendClosed cl \<longrightarrow> cl_reader cl = RDone))"

definition receiving :: "('p, 'u) connectConfig \<Rightarrow> (bytes \<Rightarrow> go_error + Message) \<Rightarrow> ServerMessage list \<Rightarrow> 'u session \<Rightarrow> bool" where
  "receiving cfg unmarshal ms s \<longleftrightarrow> client_inv cfg (ss_client s) \<and> list_all wf_ServerMessage ms
     \<and> (\<exists>k. read_inv unmarshal ms s k)"

text \<open>Closing hides the bytes that were not read ahead.\<close>

lemma cc_abs_close:
  assumes "cc_buf c' = cc_buf c" "c_closed (cc_conn c')"
  obtains suf where "fst (cc_abs c) = fst (cc_abs c') @ suf"
  using assms by (cases "c_closed (cc_conn c)") (auto simp: cc_abs_def)

lemma cc_abs_closeAll:
  assumes "client_inv cfg cl" "fst (cc_abs (cl_con cl)) @ suf = bs"
  shows "\<exists>suf'. fst (cc_abs (cl_con (closeAll cfg cl))) @ suf' = bs"
proof -
  have "c_closed (cc_conn (cl_con (closeAll cfg cl)))"
    using assms(1) by (auto simp: client_inv_def closeAll_flags)
  from cc_abs_close [OF closeAll_sel(8) this] obtain t where
    "fst (cc_abs (cl_con cl)) = fst (cc_abs (cl_con (closeAll cfg cl))) @ t" .
  with assms(2) show ?thesis by auto
qed

lemma read_inv_decode:
  assumes "receiving cfg unmarshal ms s" "cl_reader (ss_client s) = RDecode" "read_inv unmarshal ms s k"
  shows "\<exists>k'. read_inv unmarshal ms (s\<lparr>ss_client := readDecode cfg unmarshal (ss_client s)\<rparr>) k'"
proof -
  let ?cl = "ss_client s"
  have wf: "list_all wf_ServerMessage (drop k ms)" and inv: "client_inv cfg ?cl"
    using assms(1) by (auto simp: receiving_def list_all_iff dest: in_set_dropD)
  obtain suf where suf: "fst (cc_abs (cl_con ?cl)) @ suf = stream (drop k ms)" "\<not> cl_closeOnce ?cl \<longrightarrow> suf = []"
    using assms(2,3) by (auto simp: read_inv_def Let_def position_def)
  have ref: "DecodeServerMessage buf_ReadFull (cc_abs (cl_con ?cl)) = (r, cc_abs c)"
    if "DecodeServerMessage cc_ReadFull (cl_con ?cl) = (r, c)" for r c
    using refinesD [OF cc_src.DecodeServerMessage_refines, of "cl_con ?cl"] that by simp
  have next_frame: "k < length ms \<and> ms ! k = m \<and> fst (cc_abs c) @ suf = stream (drop (Suc k) ms)"
    if "DecodeServerMessage cc_ReadFull (cl_con ?cl) = (Ok m, c)" for m c
  proof -
    have "DecodeServerMessage buf_ReadFull (fst (cc_abs (cl_con ?cl)), snd (cc_abs (cl_con ?cl))) = (Ok m, cc_abs c)"
      using ref [OF that] by simp
    from decode_next [OF this suf(1) wf] obtain ms' where d: "drop k ms = m # ms'" "fst (cc_abs c) @ suf = stream ms'" .
    then show ?thesis
      by (metis drop_Suc drop_eq_Nil list.sel(1,3) hd_drop_conv_nth list.distinct(1) linorder_not_le tl_drop)
  qed
  show ?thesis
  proof (rule readDecode_cases [where cl = ?cl and cfg = cfg and unmarshal = unmarshal])
    fix m msg c
    assume "DecodeServerMessage cc_ReadFull (cl_con ?cl) = (Ok m, c)" "unmarshal (sm_Data m) = Inr msg"
      and r: "readDecode cfg unmarshal ?cl = ?cl\<lparr>cl_con := c, cl_reader := RDeliver msg\<rparr>"
    with next_frame suf(2) assms(2,3) show ?thesis
      by (intro exI [of _ k]) (auto simp: read_inv_def Let_def position_def r)
  next
    fix m e c
    assume "DecodeServerMessage cc_ReadFull (cl_con ?cl) = (Ok m, c)" "unmarshal (sm_Data m) = Inl e"
      and r: "readDecode cfg unmarshal ?cl
        = (handleError cfg (Wrapf ''unmarshal message'' e) (?cl\<lparr>cl_con := c\<rparr>))\<lparr>cl_reader := RCheck\<rparr>"
    with next_frame suf(2) assms(2,3) show ?thesis
      by (intro exI [of _ "Suc k"]) (auto simp: read_inv_def Let_def position_def r received_Suc)
  next
    fix e c u
    assume d: "DecodeServerMessage cc_ReadFull (cl_con ?cl) = (Err e, c)"
      and r: "readDecode cfg unmarshal ?cl = readReturn cfg (?cl\<lparr>cl_con := c, cl_user := u\<rparr>)"
    have "k = length ms" if "\<not> cl_sendClosed ?cl"
    proof -
      have "suf = []" using suf(2) assms(2,3) that by (auto simp: read_inv_def Let_def)
      with suf(1) ref [OF d] have "DecodeServerMessage buf_ReadFull (stream (drop k ms), snd (cc_abs (cl_con ?cl))) = (Err e, cc_abs c)"
        by (metis append_Nil2 prod.collapse)
      from decode_end [OF this wf] assms(3) show ?thesis by (simp add: read_inv_def Let_def)
    qed
    with assms(2,3) show ?thesis
      by (intro exI [of _ k]) (auto simp: read_inv_def Let_def r readReturn_def)
  qed
qed

lemma read_inv_send:
  assumes "read_inv unmarshal ms s k"
  shows "read_inv unmarshal ms (s\<lparr>ss_client := writeSend cfg now msg rest (ss_client s)\<rparr>) k"
proof -
  let ?cl = "ss_client s"
  obtain r c where s: "sendMessage cfg now msg (cc_conn (cl_con ?cl)) = (r, c)" by fastforce
  have "cc_abs ((cl_con ?cl)\<lparr>cc_conn := c\<rparr>) = cc_abs (cl_con ?cl)"
    using keepsD [OF sendMessage_closed(1) s] keepsD [OF sendMessage_closed(2) s]
    by (simp add: cc_abs_def nc_content_def)
  with assms show ?thesis by (simp add: read_inv_def Let_def writeSend_sel [OF s])
qed

lemma read_inv_ended:
  assumes "client_inv cfg (ss_client s)" "read_inv unmarshal ms s k" "cl_sendClosed (ss_client s)"
  shows "read_inv unmarshal ms (s\<lparr>ss_client := writeEnd cfg (ss_client s)\<rparr>) k"
proof -
  let ?cl = "ss_client s"
  have "\<exists>suf. fst (cc_abs (cl_con (closeAll cfg ?cl))) @ suf = stream (drop (position (cl_reader ?cl) k) ms)"
    if nd: "cl_reader ?cl \<noteq> RDone"
  proof -
    obtain suf where "fst (cc_abs (cl_con ?cl)) @ suf = stream (drop (position (cl_reader ?cl) k) ms)"
      using assms(2) nd unfolding read_inv_def Let_def by blast
    with cc_abs_closeAll [OF assms(1)] show ?thesis .
  qed
  with assms(2,3) show ?thesis by (simp add: read_inv_def Let_def writeEnd_def)
qed

text \<open>A return at a closed connection leaves messages behind only when the application ended the session.\<close>

lemma read_inv_return:
  assumes "client_inv cfg (ss_client s)" "read_inv unmarshal ms s k" "cl_closeCh (ss_client s)"
    and "cl_reader (ss_client s) \<noteq> RDone"
  shows "read_inv unmarshal ms (s\<lparr>ss_client := readReturn cfg (ss_client s)\<rparr>) k"
proof -
  have "cl_closeOnce (ss_client s)" using assms(1,3) by (simp add: client_inv_def)
  with assms(2,4) show ?thesis by (simp add: read_inv_def Let_def readReturn_def)
qed

lemma read_inv_start:
  assumes "read_inv unmarshal ms s k" "cl_reader (ss_client s) = RStart"
  shows "read_inv unmarshal ms (s\<lparr>ss_client := readStart (ss_client s)\<rparr>) k"
  using assms by (auto simp: read_inv_def Let_def readStart_def NewReader_def position_def cc_abs_def)

lemma read_inv_deliver:
  assumes "read_inv unmarshal ms s k" "cl_reader (ss_client s) = RDeliver msg"
    and "ss_got t @ cl_recv (ss_client t) = ss_got s @ cl_recv (ss_client s) @ [msg]"
    and "cl_con (ss_client t) = cl_con (ss_client s)" "cl_closeOnce (ss_client t) = cl_closeOnce (ss_client s)"
    "cl_sendClosed (ss_client t) = cl_sendClosed (ss_client s)" "cl_reader (ss_client t) = RCheck"
  shows "read_inv unmarshal ms t (Suc k)"
proof -
  have "k < length ms" "unmarshal (sm_Data (ms ! k)) = Inr msg" "ss_got s @ cl_recv (ss_client s) = received unmarshal (take k ms)"
    using assms(1,2) by (simp_all add: read_inv_def Let_def)
  then have "ss_got t @ cl_recv (ss_client t) = received unmarshal (take (Suc k) ms)"
    using assms(3) received_Suc [of k ms unmarshal] by simp
  with assms(1,2,4-7) \<open>k < length ms\<close> show ?thesis by (simp add: read_inv_def Let_def position_def)
qed

lemma receiving_internal:
  assumes "receiving cfg unmarshal ms s" "client_internal cfg unmarshal (ss_client s) cl'" "read_inv unmarshal ms s k"
  shows "\<exists>k'. read_inv unmarshal ms (s\<lparr>ss_client := cl'\<rparr>) k'"
proof -
  have inv: "client_inv cfg (ss_client s)" using assms(1) by (simp add: receiving_def)
  from assms(2) show ?thesis
  proof cases
    case start
    with read_inv_start [OF assms(3)] show ?thesis by blast
  next
    case check
    then show ?thesis using read_inv_return [OF inv assms(3)] assms(3)
      by (cases "cl_closeCh (ss_client s)") (auto simp: readCheck_def read_inv_def Let_def position_def)
  next
    case decode
    with read_inv_decode [OF assms(1) _ assms(3)] show ?thesis by blast
  next
    case (deliver msg)
    with read_inv_deliver [OF assms(3), of msg "s\<lparr>ss_client := cl'\<rparr>"] show ?thesis
      by (auto simp: readDeliver_def)
  next
    case (stop msg)
    with read_inv_return [OF inv assms(3)] show ?thesis by auto
  next
    case (send msg rest now)
    with read_inv_send [OF assms(3)] show ?thesis by blast
  next
    case ended
    with read_inv_ended [OF inv assms(3)] show ?thesis by blast
  qed (use assms(3) in \<open>auto simp: read_inv_def Let_def runLoop_end_def\<close>)
qed

lemma receiving_step:
  assumes "receiving cfg unmarshal ms s" "client_step cfg unmarshal s s'"
  shows "receiving cfg unmarshal ms s'"
proof -
  obtain k where k: "read_inv unmarshal ms s k" using assms(1) by (auto simp: receiving_def)
  have "\<exists>k'. read_inv unmarshal ms s' k'"
    using assms(2)
  proof cases
    case (internal cl)
    with receiving_internal [OF assms(1) _ k] show ?thesis by blast
  next
    case (rendezvous m)
    with read_inv_deliver [OF k, of m s'] show ?thesis by auto
  qed (use k in \<open>auto simp: read_inv_def Let_def\<close>)
  then show ?thesis using assms client_inv_step by (auto simp: receiving_def)
qed

text \<open>The server's messages are on their way when the session starts, and nothing was read ahead.\<close>

definition incoming :: "('p, 'u) connectConfig \<Rightarrow> ServerMessage list \<Rightarrow> ccon \<Rightarrow> 'u session \<Rightarrow> bool" where
  "incoming cfg ms c s \<longleftrightarrow> fresh_session c s \<and> cc_buf c = [] \<and> nc_content (cc_conn c) = stream ms
     \<and> list_all wf_ServerMessage ms"

interpretation rs: inductive_invariant "incoming cfg ms c" "client_step cfg unmarshal" "receiving cfg unmarshal ms"
proof (standard, goal_cases)
  case (1 s)
  then have "client_inv cfg (ss_client s)" using cs.inv_init [of c s cfg] by (simp add: incoming_def)
  moreover have "read_inv unmarshal ms s 0"
    using 1 by (auto simp: incoming_def fresh_session_def session_init_def runLoop_start_def read_inv_def
        received_def position_def cc_abs_def Let_def)
  ultimately show ?case using 1 by (auto simp: receiving_def incoming_def)
next
  case (2 s t)
  then show ?case by (rule receiving_step)
qed

section \<open>Sending: in order, whole frames, inadmissible messages left out\<close>

definition om_msg :: "OutgoingMessage \<Rightarrow> ClientMessage" where
  "om_msg m = \<lparr>cm_To = om_To m, cm_MsgID = om_MsgID m, cm_Payload = om_Payload m\<rparr>"

definition sent_bytes :: "OutgoingMessage list \<Rightarrow> bytes" where
  "sent_bytes ms = concat (map wire_ClientMessage (filter wf_ClientMessage (map om_msg ms)))"

lemma sent_bytes_simps [simp]:
  "sent_bytes [] = []" "sent_bytes (ms @ ns) = sent_bytes ms @ sent_bytes ns"
  "sent_bytes [m] = (if wf_ClientMessage (om_msg m) then wire_ClientMessage (om_msg m) else [])"
  by (simp_all add: sent_bytes_def)

lemma ClientMessage_Encode_refused:
  "\<not> wf_ClientMessage m \<Longrightarrow> \<exists>e. ClientMessage_Encode m w = (Err e, w)"
  by (auto simp: ClientMessage_Encode_def wf_ClientMessage_def Let_def)

text \<open>A connection on which writing cannot fail unless it is closed.\<close>

abbreviation sound_conn :: "netconn \<Rightarrow> bool" where
  "sound_conn c \<equiv> healthy (c_out c) \<and> c_dlplan c = []"

lemma sendMessage_deadline:
  assumes "\<not> c_closed c" "c_dlplan c = []"
  shows "\<exists>d. sendMessage cfg now msg c = nc_asWriter (ClientMessage_Encode (om_msg msg)) (c\<lparr>c_wdeadline := d\<rparr>)"
proof (cases "0 < cf_writeTimeout cfg")
  case True
  with assms show ?thesis
    by (intro exI [of _ "Some (now + cf_writeTimeout cfg)"])
       (simp add: sendMessage_def nc_SetWriteDeadline_def wrapf_def go_bind_def om_msg_def)
next
  case False
  then show ?thesis
    by (intro exI [of _ "c_wdeadline c"]) (simp add: sendMessage_def go_bind_def om_msg_def)
qed

lemma sendMessage_open:
  assumes "sound_conn c" "\<not> c_closed c" "sendMessage cfg now msg c = (r, c')"
  shows "sound_conn c'" "wbytes (c_out c') = wbytes (c_out c) @ sent_bytes [msg]"
    "r = Ok () \<longleftrightarrow> wf_ClientMessage (om_msg msg)"
proof -
  obtain d where d: "nc_asWriter (ClientMessage_Encode (om_msg msg)) (c\<lparr>c_wdeadline := d\<rparr>) = (r, c')"
    using sendMessage_deadline [OF assms(2)] assms(1,3) by metis
  have "sound_conn c' \<and> wbytes (c_out c') = wbytes (c_out c) @ sent_bytes [msg]
    \<and> (r = Ok () \<longleftrightarrow> wf_ClientMessage (om_msg msg))"
  proof (cases "wf_ClientMessage (om_msg msg)")
    case True
    with cmsg.enc_wire [of "om_msg msg" "c_out c"] assms(1,2) d show ?thesis
      by (auto simp: nc_asWriter_def)
  next
    case False
    with ClientMessage_Encode_refused [of "om_msg msg" "c_out c"] assms(1,2) d show ?thesis
      by (auto simp: nc_asWriter_def)
  qed
  then show "sound_conn c'" "wbytes (c_out c') = wbytes (c_out c) @ sent_bytes [msg]"
    "r = Ok () \<longleftrightarrow> wf_ClientMessage (om_msg msg)" by blast+
qed

lemma sendMessage_shut:
  assumes "c_closed c" "sendMessage cfg now msg c = (r, c')"
  shows "c' = c"
  using assms
  by (auto simp: sendMessage_def nc_SetWriteDeadline_def nc_asWriter_def go_bind_def wrapf_def
      split: if_splits prod.splits res.splits)

text \<open>\<open>ts\<close> are the messages taken while the connection was open.\<close>

definition send_inv :: "bytes \<Rightarrow> 'u session \<Rightarrow> bool" where
  "send_inv B s \<longleftrightarrow> (let cl = ss_client s; c = cc_conn (cl_con cl) in
     \<exists>ts taken. ss_pushed s = taken @ cl_send cl \<and> prefix ts taken \<and> (\<not> cl_closeOnce cl \<longrightarrow> ts = taken)
       \<and> wbytes (c_out c) = B @ sent_bytes ts \<and> sound_conn c)"

definition sending :: "('p, 'u) connectConfig \<Rightarrow> bytes \<Rightarrow> 'u session \<Rightarrow> bool" where
  "sending cfg B s \<longleftrightarrow> client_inv cfg (ss_client s) \<and> send_inv B s"

lemma send_inv_other:
  assumes "send_inv B s" "ss_pushed t = ss_pushed s" "cl_send (ss_client t) = cl_send (ss_client s)"
    and "c_out (cc_conn (cl_con (ss_client t))) = c_out (cc_conn (cl_con (ss_client s)))"
    "c_dlplan (cc_conn (cl_con (ss_client t))) = c_dlplan (cc_conn (cl_con (ss_client s)))"
    and "cl_closeOnce (ss_client s) \<Longrightarrow> cl_closeOnce (ss_client t)"
  shows "send_inv B t"
  using assms unfolding send_inv_def Let_def by metis

lemma send_inv_send:
  assumes "client_inv cfg (ss_client s)" "send_inv B s" "cl_send (ss_client s) = msg # rest"
  shows "send_inv B (s\<lparr>ss_client := writeSend cfg now msg rest (ss_client s)\<rparr>)"
proof -
  let ?cl = "ss_client s"
  let ?c = "cc_conn (cl_con ?cl)"
  obtain r c where sm: "sendMessage cfg now msg ?c = (r, c)" by fastforce
  obtain ts taken where inv: "ss_pushed s = taken @ msg # rest" "prefix ts taken" "\<not> cl_closeOnce ?cl \<longrightarrow> ts = taken"
      "wbytes (c_out ?c) = B @ sent_bytes ts" "sound_conn ?c"
    using assms(2,3) by (auto simp: send_inv_def Let_def)
  show ?thesis
  proof (cases "cl_closeOnce ?cl")
    case True
    with assms(1) sendMessage_shut [OF _ sm] have "c = ?c" by (simp add: client_inv_def)
    with inv True show ?thesis unfolding send_inv_def Let_def
      by (intro exI [of _ ts] exI [of _ "taken @ [msg]"]) (simp add: writeSend_sel [OF sm])
  next
    case False
    with assms(1) have "\<not> c_closed ?c" by (simp add: client_inv_def)
    from sendMessage_open [OF inv(5) this sm] inv False show ?thesis unfolding send_inv_def Let_def
      by (intro exI [of _ "taken @ [msg]"] exI [of _ "taken @ [msg]"]) (simp add: writeSend_sel [OF sm])
  qed
qed

lemma send_inv_internal:
  assumes "client_inv cfg (ss_client s)" "send_inv B s" "client_internal cfg unmarshal (ss_client s) cl'"
  shows "send_inv B (s\<lparr>ss_client := cl'\<rparr>)"
  using assms(3)
proof cases
  case decode
  show ?thesis
    by (rule readDecode_cases [where cl = "ss_client s" and cfg = cfg and unmarshal = unmarshal])
       (use decode in \<open>auto simp: readReturn_def dest: decode_closed intro!: send_inv_other [OF assms(2)]\<close>)
next
  case (send msg rest now)
  with send_inv_send [OF assms(1,2)] show ?thesis by blast
qed (auto simp: readStart_def readCheck_def readReturn_def readDeliver_def writeEnd_def runLoop_end_def
       intro!: send_inv_other [OF assms(2)])

lemma sending_step:
  assumes "sending cfg B s" "client_step cfg unmarshal s s'"
  shows "sending cfg B s'"
proof -
  have i: "client_inv cfg (ss_client s)" "send_inv B s" using assms(1) by (simp_all add: sending_def)
  have "send_inv B s'"
    using assms(2)
  proof cases
    case (internal cl)
    with send_inv_internal [OF i] show ?thesis by blast
  next
    case (push m)
    with i(2) show ?thesis unfolding send_inv_def Let_def by fastforce
  qed (auto intro!: send_inv_other [OF i(2)])
  with client_inv_step [OF i(1) assms(2)] show ?thesis by (simp add: sending_def)
qed

definition outgoing :: "bytes \<Rightarrow> ccon \<Rightarrow> 'u session \<Rightarrow> bool" where
  "outgoing B c s \<longleftrightarrow> fresh_session c s \<and> sound_conn (cc_conn c) \<and> wbytes (c_out (cc_conn c)) = B"

interpretation sd: inductive_invariant "outgoing B c" "client_step cfg unmarshal" "sending cfg B"
proof (standard, goal_cases)
  case (1 s)
  then have "client_inv cfg (ss_client s)" using cs.inv_init [of c s cfg] by (simp add: outgoing_def)
  with 1 show ?case
    by (auto simp: outgoing_def fresh_session_def session_init_def runLoop_start_def sending_def send_inv_def Let_def)
next
  case (2 s t)
  then show ?case by (rule sending_step)
qed

section \<open>The end of a session\<close>

definition reader_rank :: "reader_pc \<Rightarrow> nat" where
  "reader_rank pc = (case pc of RDecode \<Rightarrow> 3 | RDeliver _ \<Rightarrow> 2 | RStart \<Rightarrow> 2 | RCheck \<Rightarrow> 1 | RDone \<Rightarrow> 0)"

definition rank :: "'u client \<Rightarrow> nat" where
  "rank cl = length (cl_send cl) + (if cl_writer cl = WSelect then 1 else 0) + reader_rank (cl_reader cl)
     + (if cl_recvClosed cl then 0 else 1)"

lemma rank_decreases:
  assumes "client_inv cfg cl" "cl_closeOnce cl" "client_internal cfg unmarshal cl cl'"
  shows "rank cl' < rank cl \<and> cl_closeOnce cl' \<and> client_inv cfg cl'"
proof -
  have cc: "cl_closeCh cl" using assms(1,2) by (simp add: client_inv_def)
  have "rank cl' < rank cl \<and> cl_closeOnce cl'"
    using assms(3)
  proof cases
    case decode
    show ?thesis
      by (rule readDecode_cases [where cl = cl and cfg = cfg and unmarshal = unmarshal])
         (use decode assms(2) in \<open>auto simp: rank_def reader_rank_def readReturn_def\<close>)
  next
    case (send msg rest now)
    obtain r c where s: "sendMessage cfg now msg (cc_conn (cl_con cl)) = (r, c)" by fastforce
    from send assms(2) writeSend_sel [OF s, of rest] show ?thesis by (simp add: rank_def)
  qed (use assms(2) cc in \<open>auto simp: rank_def reader_rank_def readStart_def readCheck_def readReturn_def readDeliver_def
         writeEnd_def runLoop_end_def\<close>)
  with client_inv_internal [OF assms(1,3)] show ?thesis by blast
qed

lemma closed_progress:
  assumes "client_inv cfg cl" "cl_closeOnce cl" "\<not> cl_recvClosed cl"
  shows "\<exists>cl'. client_internal cfg unmarshal cl cl'"
proof -
  have cc: "cl_closeCh cl" using assms(1,2) by (simp add: client_inv_def)
  show ?thesis
  proof (cases "cl_reader cl = RDone")
    case True
    with assms(3) cc show ?thesis by (cases "cl_writer cl") (auto intro: client_internal.intros)
  next
    case False
    with cc show ?thesis by (cases "cl_reader cl") (auto intro: client_internal.intros)
  qed
qed

lemma closed_runs:
  assumes "(client_internal cfg unmarshal ^^ n) cl cl'" "client_inv cfg cl" "cl_closeOnce cl"
  shows "rank cl' + n \<le> rank cl \<and> cl_closeOnce cl' \<and> client_inv cfg cl'"
  using assms
proof (induction n arbitrary: cl')
  case (Suc n)
  then obtain cl1 where 1: "(client_internal cfg unmarshal ^^ n) cl cl1" "client_internal cfg unmarshal cl1 cl'" by auto
  with Suc.IH [OF 1(1) Suc.prems(2,3)] rank_decreases [OF _ _ 1(2)] show ?case by fastforce
qed simp

lemma rank_bound: "rank cl \<le> length (cl_send cl) + 5"
  by (simp add: rank_def reader_rank_def split: reader_pc.splits)

section \<open>An example\<close>

definition ex_ccfg :: "(unit, go_error list) connectConfig" where
  "ex_ccfg = (default_connectConfig ex_keys)\<lparr>cf_onError := Some (\<lambda>e es. es @ [e])\<rparr>"

definition ex_server_msg :: ServerMessage where
  "ex_server_msg = \<lparr>sm_Data = [7]\<rparr>"

definition ex_ccon :: ccon where
  "ex_ccon = NewReader (ex_cconn\<lparr>c_in := \<lparr>rchunks = [wire_ServerMessage ex_server_msg], rend = io_EOF\<rparr>\<rparr>)"

definition ex_session :: "go_error list session" where
  "ex_session = \<lparr>ss_client = runLoop_start ex_ccon [], ss_pushed = [], ss_got = []\<rparr>"

definition ex_unm :: "bytes \<Rightarrow> go_error + Message" where
  "ex_unm d = Inr (new_Message\<lparr>pm_Payload := d\<rparr>)"

lemma ex_session_fresh: "fresh_session ex_ccon ex_session"
  unfolding fresh_session_def session_init_def
  by (auto simp: ex_session_def ex_ccon_def ex_cconn_def)

lemma ex_session_incoming: "incoming ex_ccfg [ex_server_msg] ex_ccon ex_session"
  using ex_session_fresh
  by (simp add: incoming_def ex_ccon_def nc_content_def wf_ServerMessage_def ex_server_msg_def sizes)

lemma ex_session_outgoing: "outgoing [] ex_ccon ex_session"
  using ex_session_fresh by (simp add: outgoing_def ex_ccon_def ex_cconn_def)

text \<open>The application sends one message, ends the session, and the write loop sends it.\<close>

definition ex_out :: OutgoingMessage where
  "ex_out = \<lparr>om_To = replicate 64 CHR ''a'', om_MsgID = ''1'', om_Payload = [1, 2]\<rparr>"

definition ex_pushed :: "go_error list session" where
  "ex_pushed = ex_session\<lparr>ss_client := (ss_client ex_session)\<lparr>cl_send := [ex_out]\<rparr>, ss_pushed := [ex_out]\<rparr>"

definition ex_sent :: "go_error list session" where
  "ex_sent = ex_pushed\<lparr>ss_client := writeSend ex_ccfg 0 ex_out [] (ss_client ex_pushed)\<rparr>"

definition ex_ended :: "go_error list session" where
  "ex_ended = ex_sent\<lparr>ss_client := writeEnd ex_ccfg ((ss_client ex_sent)\<lparr>cl_sendClosed := True\<rparr>)\<rparr>"

lemma ex_session_reach:
  assumes "init ex_session"
  shows "reachable init (client_step ex_ccfg ex_unm) ex_sent" "reachable init (client_step ex_ccfg ex_unm) ex_ended"
proof -
  let ?R = "reachable init (client_step ex_ccfg ex_unm)"
  have "?R ex_session" using assms by (rule reachable_init)
  moreover have "client_step ex_ccfg ex_unm ex_session ex_pushed"
    using client_step.push [of ex_session ex_ccfg ex_unm ex_out] by (simp add: ex_pushed_def ex_session_def runLoop_start_def)
  ultimately have p: "?R ex_pushed" by (rule reachable_step)
  have w: "cl_writer (ss_client ex_pushed) = WSelect" "cl_send (ss_client ex_pushed) = [ex_out]"
    "\<not> cl_sendClosed (ss_client ex_pushed)"
    by (simp_all add: ex_pushed_def ex_session_def runLoop_start_def)
  have "client_step ex_ccfg ex_unm ex_pushed ex_sent"
    using client_step.internal [OF client_internal.send [OF w(1,2), of ex_ccfg ex_unm 0]] by (simp add: ex_sent_def)
  with p show s: "?R ex_sent" by (rule reachable_step)
  obtain r c where sm: "sendMessage ex_ccfg 0 ex_out (cc_conn (cl_con (ss_client ex_pushed))) = (r, c)" by fastforce
  note sel = writeSend_sel [OF sm, of "[]"]
  let ?t = "ex_sent\<lparr>ss_client := (ss_client ex_sent)\<lparr>cl_sendClosed := True\<rparr>\<rparr>"
  have "client_step ex_ccfg ex_unm ex_sent ?t"
    using sel w by (intro client_step.close_send) (simp add: ex_sent_def)
  with s have "?R ?t" by (rule reachable_step)
  moreover have "client_step ex_ccfg ex_unm ?t ex_ended"
  proof -
    have "client_internal ex_ccfg ex_unm (ss_client ?t) (writeEnd ex_ccfg (ss_client ?t))"
      using sel w by (intro client_internal.ended) (simp_all add: ex_sent_def)
    from client_step.internal [OF this] show ?thesis by (simp add: ex_ended_def)
  qed
  ultimately show "?R ex_ended" by (rule reachable_step)
qed

section \<open>Properties\<close>

text \<open>C10: the application receives what the server sent. When the frames of \<open>ms\<close> are what the connection
  delivers before it ends, then in every interleaving of the read loop, the write loop and the
  application, what was received or waits in the channel are the messages of a prefix of \<open>ms\<close> in
  order, each once, those that do not parse left out; and when the read loop has ended and the
  application has not ended the session itself, they are all of them.\<close>
theorem client_receives_in_order:
  assumes "reachable (incoming cfg ms c) (client_step cfg unmarshal) s"
  shows "\<exists>k \<le> length ms. ss_got s @ cl_recv (ss_client s) = received unmarshal (take k ms)
    \<and> (cl_reader (ss_client s) = RDone \<and> \<not> cl_sendClosed (ss_client s) \<longrightarrow> k = length ms)"
  using rs.inv_reachable [OF assms] by (auto simp: receiving_def read_inv_def Let_def)

theorem client_receives_in_order_witness:
  "\<exists>k \<le> length [ex_server_msg]. ss_got ex_ended @ cl_recv (ss_client ex_ended) = received ex_unm (take k [ex_server_msg])"
  using client_receives_in_order [OF ex_session_reach(2) [of "incoming ex_ccfg [ex_server_msg] ex_ccon", OF ex_session_incoming]]
  by blast

text \<open>C11: the client sends what the application gave it. On a connection on which writing does not
  fail, the bytes sent after those of the handshake are, in every interleaving, the whole frames of
  a prefix of the messages the application has put into its channel, in order, each once, those
  the protocol does not admit left out; while the session is open they are the frames of all the
  messages taken from the channel.\<close>
theorem client_sends_in_order:
  assumes "reachable (outgoing B c) (client_step cfg unmarshal) s"
  shows "\<exists>ts taken. ss_pushed s = taken @ cl_send (ss_client s) \<and> prefix ts taken
    \<and> (\<not> cl_closeOnce (ss_client s) \<longrightarrow> ts = taken)
    \<and> wbytes (c_out (cc_conn (cl_con (ss_client s)))) = B @ sent_bytes ts"
  using sd.inv_reachable [OF assms] by (auto simp: sending_def send_inv_def Let_def)

theorem client_sends_in_order_witness:
  "wbytes (c_out (cc_conn (cl_con (ss_client ex_sent)))) = wire_ClientMessage (om_msg ex_out)"
proof -
  obtain r c where sm: "sendMessage ex_ccfg 0 ex_out (cc_conn (cl_con (ss_client ex_pushed))) = (r, c)" by fastforce
  have "cl_send (ss_client ex_sent) = []" "\<not> cl_closeOnce (ss_client ex_sent)" "ss_pushed ex_sent = [ex_out]"
    using writeSend_sel [OF sm, of "[]"] by (simp_all add: ex_sent_def ex_pushed_def ex_session_def runLoop_start_def)
  moreover have "wf_ClientMessage (om_msg ex_out)" by (simp add: wf_ClientMessage_def om_msg_def ex_out_def sizes)
  ultimately show ?thesis
    using client_sends_in_order [OF ex_session_reach(1) [of "outgoing [] ex_ccon", OF ex_session_outgoing]] by auto
qed



text \<open>C25: a session that has been closed ends. After \<open>closeAll\<close>, whoever called it, the two loops and
  \<open>runLoop\<close> take at most as many steps as there are messages left to send and five more, they are
  never stuck before the channel of received messages is closed, and so it is closed.\<close>
theorem client_shutdown_terminates:
  assumes "reachable (fresh_session c) (client_step cfg unmarshal) s" "cl_closeOnce (ss_client s)"
    and "(client_internal cfg unmarshal ^^ n) (ss_client s) cl"
  shows "n \<le> length (cl_send (ss_client s)) + 5 \<and> (cl_recvClosed cl \<or> (\<exists>cl'. client_internal cfg unmarshal cl cl'))"
proof -
  have i: "client_inv cfg (ss_client s)" using cs.inv_reachable [OF assms(1)] .
  from closed_runs [OF assms(3) i assms(2)] rank_bound [of "ss_client s"] closed_progress show ?thesis by fastforce
qed

theorem client_shutdown_terminates_witness:
  "cl_recvClosed (ss_client ex_ended) \<or> (\<exists>cl'. client_internal ex_ccfg ex_unm (ss_client ex_ended) cl')"
  using client_shutdown_terminates [OF ex_session_reach(2) [of "fresh_session ex_ccon", OF ex_session_fresh], of 0 "ss_client ex_ended"]
  by (simp add: ex_ended_def writeEnd_def)

end
