(* ===== verification/Test_Env.thy ===== *)
theory Test_Env
  imports Server Client_Loop
begin

text \<open>
  The test environment, package \<open>src/pkg/testsprut\<close>: certificates in a temporary directory
  (\<open>certs.go\<close>), a NATS server in a container (\<open>nats.go\<close>), and \<open>Start\<close>, \<open>Close\<close> and \<open>NewClient\<close>
  (\<open>environment.go\<close>), which put them together with the router and the client of the other
  theories. The container library \<open>testcontainers-go\<close>, the cryptographic functions and
  \<open>net.Listen\<close> are parameters. The question answered here is what is left behind: by a start that
  fails at any point, and by a start followed by \<open>Close\<close>.
\<close>

declare filepath_Join.simps [simp del]

section \<open>Certificates (certs.go)\<close>

record Certs =
  ts_CertFile :: string
  ts_KeyFile :: string
  ts_CACert :: bytes
  ts_dir :: string

text \<open>
  The environment: \<open>os.TempDir\<close>, the random endings of temporary names, key generation, the clock at
  its two readings, signing the template with its own key, and the encodings.
\<close>

record 'k tcert_env =
  te_TempDir :: string
  te_suffixes :: "string list"
  te_GenerateKey :: "'k res"
  te_now :: int
  te_now2 :: int
  te_CreateCertificate :: "cert_template \<Rightarrow> 'k \<Rightarrow> bytes res"
  te_MarshalECPrivateKey :: "'k \<Rightarrow> bytes res"
  te_pem :: "string \<Rightarrow> bytes \<Rightarrow> bytes"

definition test_template :: "int \<Rightarrow> int \<Rightarrow> cert_template" where
  "test_template now now2 = \<lparr>ct_SerialNumber = 1, ct_Organization = [], ct_CommonName = ''localhost'',
     ct_NotBefore = now, ct_NotAfter = now2 + 24 * 3600 * 1000000000,
     ct_KeyUsage = {KeyUsageKeyEncipherment, KeyUsageDigitalSignature},
     ct_ExtKeyUsage = [ExtKeyUsageServerAuth], ct_BasicConstraintsValid = True,
     ct_DNSNames = [''localhost''], ct_IPAddresses = [''127.0.0.1'']\<rparr>"

text \<open>\<open>os.RemoveAll(dir)\<close> before an error is returned; its own error is dropped.\<close>

definition orRemove :: "string \<Rightarrow> (fs, 'a) go \<Rightarrow> (fs, 'a) go" where
  "orRemove dir m s = (case m s of (Err e, t) \<Rightarrow> (Err e, snd (os_RemoveAll dir t)) | r \<Rightarrow> r)"

text \<open>What follows the creation of the directory. The mode of both files is \<open>0600\<close>.\<close>

definition fill_dir :: "'k tcert_env \<Rightarrow> string \<Rightarrow> (fs, Certs) go" where
  "fill_dir E dir =
     (let certFile = filepath_Join [dir, ''cert.pem'']; keyFile = filepath_Join [dir, ''key.pem''] in
     go_bind (orRemove dir (wrapf ''generate key'' (ret (te_GenerateKey E)))) (\<lambda>priv.
     go_bind (orRemove dir (wrapf ''create certificate''
        (ret (te_CreateCertificate E (test_template (te_now E) (te_now2 E)) priv)))) (\<lambda>der.
     let certPEM = te_pem E ''CERTIFICATE'' der in
     go_bind (orRemove dir (wrapf ''write cert file'' (os_WriteFile certFile certPEM 384))) (\<lambda>_.
     go_bind (orRemove dir (wrapf ''marshal private key'' (ret (te_MarshalECPrivateKey E priv)))) (\<lambda>kb.
     go_bind (orRemove dir (wrapf ''write key file'' (os_WriteFile keyFile (te_pem E ''EC PRIVATE KEY'' kb) 384))) (\<lambda>_.
     go_return \<lparr>ts_CertFile = certFile, ts_KeyFile = keyFile, ts_CACert = certPEM, ts_dir = dir\<rparr>))))))"

definition GenerateCerts :: "'k tcert_env \<Rightarrow> (fs, Certs) go" where
  "GenerateCerts E = go_bind (wrapf ''create temp dir''
     (os_MkdirTemp (te_TempDir E) ''sprut-test-certs-'' (te_suffixes E))) (fill_dir E)"

definition Cleanup :: "Certs \<Rightarrow> (fs, unit) go" where
  "Cleanup c = (if ts_dir c = '''' then go_return () else os_RemoveAll (ts_dir c))"

section \<open>The NATS container (nats.go)\<close>

record container_request =
  cr_Image :: string
  cr_ExposedPorts :: "string list"
  cr_WaitingFor :: string
  cr_StartupTimeout :: int
  cr_Started :: bool

text \<open>
  The container library over the state \<open>'d\<close> of the container runtime and the type \<open>'c\<close> of containers.
  \<open>dk_Terminate\<close> takes the time limit of its context, \<open>None\<close> for that of the caller. The container
  that \<open>GenericContainer\<close> may return along with an error is not used by the program.
\<close>

record ('d, 'c) docker_api =
  dk_GenericContainer :: "container_request \<Rightarrow> ('d, 'c) go"
  dk_Host :: "'c \<Rightarrow> ('d, string) go"
  dk_MappedPort :: "'c \<Rightarrow> string \<Rightarrow> ('d, string) go"
  dk_Port :: "string \<Rightarrow> string"
  dk_Terminate :: "int option \<Rightarrow> 'c \<Rightarrow> ('d, unit) go"

record 'c natsContainer =
  nt_container :: "'c option"
  nt_url :: string

definition terminateContainer :: "('d, 'c) docker_api \<Rightarrow> 'c \<Rightarrow> 'd \<Rightarrow> 'd" where
  "terminateContainer api c d = snd (dk_Terminate api (Some (10 * 1000000000)) c d)"

definition nats_request :: container_request where
  "nats_request = \<lparr>cr_Image = ''nats:latest'', cr_ExposedPorts = [''4222/tcp''], cr_WaitingFor = ''4222/tcp'',
     cr_StartupTimeout = 30 * 1000000000, cr_Started = True\<rparr>"

text \<open>\<open>terminateContainer\<close> before an error is returned.\<close>

definition orTerminate :: "('d, 'c) docker_api \<Rightarrow> 'c \<Rightarrow> ('d, 'a) go \<Rightarrow> ('d, 'a) go" where
  "orTerminate api c m d = (case m d of (Err e, d') \<Rightarrow> (Err e, terminateContainer api c d') | r \<Rightarrow> r)"

definition startNATS :: "('d, 'c) docker_api \<Rightarrow> ('d, 'c natsContainer) go" where
  "startNATS api =
     go_bind (wrapf ''start NATS container'' (dk_GenericContainer api nats_request)) (\<lambda>container.
     go_bind (orTerminate api container (wrapf ''get NATS host'' (dk_Host api container))) (\<lambda>host.
     go_bind (orTerminate api container (wrapf ''get NATS port'' (dk_MappedPort api container ''4222''))) (\<lambda>port.
     go_return \<lparr>nt_container = Some container, nt_url = ''nats://'' @ host @ '':'' @ dk_Port api port\<rparr>)))"

definition URL :: "'c natsContainer \<Rightarrow> string" where
  "URL n = nt_url n"

definition Terminate :: "('d, 'c) docker_api \<Rightarrow> 'c natsContainer \<Rightarrow> ('d, unit) go" where
  "Terminate api n = (case nt_container n of None \<Rightarrow> go_return () | Some c \<Rightarrow> dk_Terminate api None c)"

section \<open>Options (environment.go)\<close>

record options =
  op_maxConnections :: int
  op_maxMessageSize :: int
  op_rateLimitPerSec :: float64
  op_rateLimitBurst :: int
  op_authTimeout :: int
  op_challengeTTL :: int
  op_serverID :: string

definition defaultOptions :: options where
  "defaultOptions = \<lparr>op_maxConnections = 100, op_maxMessageSize = 65536, op_rateLimitPerSec = Float 1000 0,
     op_rateLimitBurst = 100, op_authTimeout = 10 * 1000000000, op_challengeTTL = 60 * 1000000000,
     op_serverID = ''test-sprut''\<rparr>"

type_synonym Option = "options \<Rightarrow> options"

definition WithMaxConnections :: "int \<Rightarrow> Option" where
  "WithMaxConnections n o' = o'\<lparr>op_maxConnections := n\<rparr>"

definition WithMaxMessageSize :: "int \<Rightarrow> Option" where
  "WithMaxMessageSize n o' = o'\<lparr>op_maxMessageSize := n\<rparr>"

definition WithRateLimit :: "float64 \<Rightarrow> int \<Rightarrow> Option" where
  "WithRateLimit perSec burst o' = o'\<lparr>op_rateLimitPerSec := perSec, op_rateLimitBurst := burst\<rparr>"

definition WithAuthTimeout :: "int \<Rightarrow> Option" where
  "WithAuthTimeout d o' = o'\<lparr>op_authTimeout := d\<rparr>"

definition WithChallengeTTL :: "int \<Rightarrow> Option" where
  "WithChallengeTTL d o' = o'\<lparr>op_challengeTTL := d\<rparr>"

definition WithServerID :: "string \<Rightarrow> Option" where
  "WithServerID i o' = o'\<lparr>op_serverID := i\<rparr>"

section \<open>Addresses\<close>

text \<open>
  \<open>net.SplitHostPort\<close>: the port follows the last colon; a host with colons is in brackets. An error
  is \<open>None\<close>.
\<close>

fun last_colon :: "string \<Rightarrow> nat option" where
  "last_colon [] = None"
| "last_colon (c # cs) = (case last_colon cs of Some i \<Rightarrow> Some (Suc i)
     | None \<Rightarrow> if c = CHR '':'' then Some 0 else None)"

definition index_of :: "char \<Rightarrow> string \<Rightarrow> nat option" where
  "index_of c s = (let n = length (takeWhile (\<lambda>x. x \<noteq> c) s) in if n < length s then Some n else None)"

definition net_SplitHostPort :: "string \<Rightarrow> (string \<times> string) option" where
  "net_SplitHostPort hp =
     (case last_colon hp of
        None \<Rightarrow> None
      | Some i \<Rightarrow>
          if hd hp = CHR ''['' then
            (case index_of (CHR '']'') hp of
               None \<Rightarrow> None
             | Some e \<Rightarrow>
                 if Suc e \<noteq> i \<or> CHR ''['' \<in> set (drop 1 hp) \<or> CHR '']'' \<in> set (drop (Suc e) hp) then None
                 else Some (take (e - 1) (drop 1 hp), drop (Suc i) hp))
          else if CHR '':'' \<in> set (take i hp) \<or> CHR ''['' \<in> set hp \<or> CHR '']'' \<in> set hp then None
          else Some (take i hp, drop (Suc i) hp))"

text \<open>\<open>mustAtoi\<close> on the runes of a string, with the arithmetic of \<open>int32\<close> and \<open>int\<close>; the runes of a text in ASCII.\<close>

definition mustAtoi :: "32 word list \<Rightarrow> 64 word" where
  "mustAtoi s = fold (\<lambda>c n. n * 10 + scast (c - 48)) s 0"

definition ascii_runes :: "string \<Rightarrow> 32 word list" where
  "ascii_runes s = map (\<lambda>c. of_nat (of_char c)) s"

section \<open>Start and Close (environment.go)\<close>

text \<open>
  The parameters: the container library, the environment of the certificates, \<open>net.Listen\<close> and what
  the router needs. The state: the file system, the container runtime, and the run of the router
  once it was started.
\<close>

record ('d, 'c, 'k, 'n, 's, 'h, 'l, 'x) test_env =
  tv_docker :: "('d, 'c) docker_api"
  tv_certs :: "'k tcert_env"
  tv_listen :: "string \<Rightarrow> listener res"
  tv_server :: "Config \<Rightarrow> ('n, 's, 'h, 'l) server"
  tv_loadPair :: "string \<Rightarrow> string \<Rightarrow> 'x res"

record ('d, 'n) env_st =
  en_fs :: fs
  en_docker :: 'd
  en_server :: "'n served option"

definition en_onFS :: "(fs, 'a) go \<Rightarrow> (('d, 'n) env_st, 'a) go" where
  "en_onFS = go_lift en_fs (\<lambda>f s. s\<lparr>en_fs := f\<rparr>)"

definition en_onDocker :: "('d, 'a) go \<Rightarrow> (('d, 'n) env_st, 'a) go" where
  "en_onDocker = go_lift en_docker (\<lambda>d s. s\<lparr>en_docker := d\<rparr>)"

text \<open>
  \<open>env_run\<close> stands for the running router, with its listener, its \<open>cancelCtx\<close> and the channel of its
  result: the run of the router when the given events follow.
\<close>

record ('c, 'n, 's, 'l) Environment =
  env_NATSUrl :: string
  env_SprutAddr :: string
  env_CACert :: bytes
  env_nats :: "'c natsContainer option"
  env_certs :: "Certs option"
  env_run :: "(('n, 's, 'l) event list \<Rightarrow> 'n served) option"

definition start_config :: "options \<Rightarrow> string \<Rightarrow> Certs \<Rightarrow> string \<Rightarrow> Config" where
  "start_config o' addr certs natsURL =
     (let (host, port) = (case net_SplitHostPort addr of Some hp \<Rightarrow> hp | None \<Rightarrow> ('''', '''')) in
      \<lparr>cf_Server = \<lparr>sc_Host = host, sc_Port = sint (mustAtoi (ascii_runes port)), sc_ServerID = op_serverID o'\<rparr>,
       cf_TLS = \<lparr>tc_CertFile = ts_CertFile certs, tc_KeyFile = ts_KeyFile certs, tc_MinVersion = ''''\<rparr>,
       cf_NATS = \<lparr>nc_URLs = [natsURL], nc_ReconnectWait = 1000000000, nc_MaxReconnects = 5\<rparr>,
       cf_Limits = \<lparr>lc_MaxConnections = op_maxConnections o', lc_MaxMessageSize = op_maxMessageSize o',
         lc_RateLimitPerSec = op_rateLimitPerSec o', lc_RateLimitBurst = op_rateLimitBurst o',
         lc_AuthTimeout = op_authTimeout o', lc_ChallengeTTL = op_challengeTTL o'\<rparr>,
       cf_Log = \<lparr>lg_Level = '''', lg_Format = '''', lg_File = ''''\<rparr>,
       cf_Ready = True\<rparr>)"

text \<open>
  The \<open>select\<close> that waits for the router. It is reached when the router has got as far as the events
  say; if both channels are ready either may be chosen, and the timer may come first.
\<close>

datatype start_choice = ChReady | ChServerErr | ChTimeout

datatype start_result = SReady | SServerErr "unit res" | STimeout

definition start_select :: "start_choice \<Rightarrow> 'n served \<Rightarrow> start_result" where
  "start_select ch sd =
     (if ch = ChTimeout then STimeout
      else if sd_ready sd \<and> (ch = ChReady \<or> sd_result sd = None) then SReady
      else case sd_result sd of Some r \<Rightarrow> SServerErr r | None \<Rightarrow> STimeout)"

text \<open>The clean-up before an error is returned: \<open>certs.Cleanup()\<close> and \<open>nats.Terminate(ctx)\<close>, whose errors are dropped.\<close>

definition dropTerminate :: "('d, 'c) docker_api \<Rightarrow> 'c natsContainer \<Rightarrow> ('d, 'n) env_st \<Rightarrow> ('d, 'n) env_st" where
  "dropTerminate api n s = snd (en_onDocker (Terminate api n) s)"

definition dropCerts :: "Certs \<Rightarrow> ('d, 'n) env_st \<Rightarrow> ('d, 'n) env_st" where
  "dropCerts c s = snd (en_onFS (Cleanup c) s)"

text \<open>\<open>fmt.Errorf("server failed to start: %w", err)\<close>; \<open>err\<close> is nil when \<open>Serve\<close> returned without an error.\<close>

definition start_failure :: "unit res \<Rightarrow> 'a res" where
  "start_failure r = (case r of
       Ok _ \<Rightarrow> Err (Errorf ''server failed to start: %!w(<nil>)'' [])
     | Err e \<Rightarrow> Err (Wrapf ''server failed to start'' e)
     | Panic p \<Rightarrow> Panic p)"

text \<open>Steps 3 to 6: the listener, the settings, the router and the wait.\<close>

definition start_router ::
    "('d, 'c, 'k, 'n, 's, 'h, 'l, 'x) test_env \<Rightarrow> options \<Rightarrow> 'c natsContainer \<Rightarrow> Certs \<Rightarrow> ('n, 's, 'l) event list
     \<Rightarrow> start_choice \<Rightarrow> (('d, 'n) env_st, ('c, 'n, 's, 'l) Environment) go" where
  "start_router T o' nats certs evs ch s =
     (case tv_listen T ''127.0.0.1:0'' of
        Err e \<Rightarrow> (Err (Wrapf ''create listener'' e), dropTerminate (tv_docker T) nats (dropCerts certs s))
      | Panic p \<Rightarrow> (Panic p, s)
      | Ok lis \<Rightarrow>
          let addr = li_addr lis; cfg = start_config o' addr certs (URL nats);
              serve = Serve (tv_server T cfg) (tv_loadPair T) lis;
              stop = (\<lambda>s. dropTerminate (tv_docker T) nats (dropCerts certs (s\<lparr>en_server := Some (serve (evs @ [Cancelled]))\<rparr>)))
          in case start_select ch (serve evs) of
               SReady \<Rightarrow> (Ok \<lparr>env_NATSUrl = URL nats, env_SprutAddr = addr, env_CACert = ts_CACert certs,
                              env_nats = Some nats, env_certs = Some certs, env_run = Some (\<lambda>later. serve (evs @ later))\<rparr>,
                          s\<lparr>en_server := Some (serve evs)\<rparr>)
             | SServerErr r \<Rightarrow> (start_failure r, stop s)
             | STimeout \<Rightarrow> (Err (Errorf ''server start timeout'' []), stop s))"

definition Start ::
    "('d, 'c, 'k, 'n, 's, 'h, 'l, 'x) test_env \<Rightarrow> Option list \<Rightarrow> ('n, 's, 'l) event list
     \<Rightarrow> start_choice \<Rightarrow> (('d, 'n) env_st, ('c, 'n, 's, 'l) Environment) go" where
  "Start T opts evs ch =
     (let o' = fold (\<lambda>opt o'. opt o') opts defaultOptions in
      go_bind (wrapf ''start NATS'' (en_onDocker (startNATS (tv_docker T)))) (\<lambda>nats s.
      case wrapf ''generate certs'' (en_onFS (GenerateCerts (tv_certs T))) s of
        (Ok certs, s) \<Rightarrow> start_router T o' nats certs evs ch s
      | (Err e, s) \<Rightarrow> (Err e, dropTerminate (tv_docker T) nats s)
      | (Panic p, s) \<Rightarrow> (Panic p, s)))"

text \<open>
  \<open>Close\<close>, after the router went through the events \<open>before\<close>: the context is cancelled; the router
  goes on with the events \<open>later\<close> for at most five seconds; then everything is released and the
  first error is returned.
\<close>

definition close_errs :: "string \<Rightarrow> unit res \<Rightarrow> go_error list" where
  "close_errs what r = (case r of Err e \<Rightarrow> [Wrapf what e] | _ \<Rightarrow> [])"

definition Environment_Close ::
    "('d, 'c) docker_api \<Rightarrow> ('c, 'n, 's, 'l) Environment \<Rightarrow> ('n, 's, 'l) event list \<Rightarrow> ('n, 's, 'l) event list
     \<Rightarrow> (('d, 'n) env_st, unit) go" where
  "Environment_Close api e before later s =
     (let s = (case env_run e of Some f \<Rightarrow> s\<lparr>en_server := Some (f (before @ Cancelled # later))\<rparr> | None \<Rightarrow> s);
          (r1, s) = (case env_certs e of Some c \<Rightarrow> en_onFS (Cleanup c) s | None \<Rightarrow> (Ok (), s));
          (r2, s) = (case env_nats e of Some n \<Rightarrow> en_onDocker (Terminate api n) s | None \<Rightarrow> (Ok (), s));
          errs = close_errs ''cleanup certs'' r1 @ close_errs ''terminate NATS'' r2
      in (case errs of [] \<Rightarrow> Ok () | err # _ \<Rightarrow> Err err, s))"

section \<open>Clients of the environment (environment.go)\<close>

text \<open>The channel \<open>send\<close> with its capacity, its elements and whether it is closed; \<open>Recv\<close> is the channel of \<open>runLoop\<close>.\<close>

record 'a channel =
  ch_cap :: nat
  ch_buf :: "'a list"
  ch_closed :: bool

definition make_chan :: "nat \<Rightarrow> 'a channel" where
  "make_chan n = \<lparr>ch_cap = n, ch_buf = [], ch_closed = False\<rparr>"

definition close_chan :: "'a channel \<Rightarrow> 'a channel res" where
  "close_chan c = (if ch_closed c then Panic ''close of closed channel'' else Ok (c\<lparr>ch_closed := True\<rparr>))"

text \<open>A send that has to wait for room is \<open>None\<close>.\<close>

definition send_chan :: "'a \<Rightarrow> 'a channel \<Rightarrow> 'a channel res option" where
  "send_chan x c = (if ch_closed c then Some (Panic ''send on closed channel'')
     else if length (ch_buf c) < ch_cap c then Some (Ok (c\<lparr>ch_buf := ch_buf c @ [x]\<rparr>)) else None)"

record ('p, 'u) TestClient =
  tcl_send :: "OutgoingMessage channel"
  tcl_session :: "('p, 'u) connectConfig \<times> ccon"
  tcl_pubKeyHex :: string

text \<open>The channel is closed again when \<open>Connect\<close> fails.\<close>

definition NewClient ::
    "'p client_env \<Rightarrow> ('c, 'n, 's, 'l) Environment \<Rightarrow> KeyPair option \<Rightarrow> connect_st
     \<Rightarrow> ('p, 'u) TestClient res \<times> OutgoingMessage channel \<times> connect_st" where
  "NewClient E e keys s =
     (let send = make_chan 10 in
      case Connect E (env_SprutAddr e) [WithKeys keys, WithInsecureSkipVerify,
             WithDialTimeout (10 * 1000000000), WithWriteTimeout (10 * 1000000000)] s of
        (Ok c, s) \<Rightarrow>
          (case keys of
             Some k \<Rightarrow> (Ok \<lparr>tcl_send = send, tcl_session = c, tcl_pubKeyHex = PublicKeyHex k\<rparr>, send, s)
           | None \<Rightarrow> (Panic ''invalid memory address or nil pointer dereference'', send, s))
      | (Err err, s) \<Rightarrow> (Err (Wrapf ''connect to Sprut'' err), send\<lparr>ch_closed := True\<rparr>, s)
      | (Panic p, s) \<Rightarrow> (Panic p, send, s))"

definition TestClient_Send :: "('p, 'u) TestClient \<Rightarrow> OutgoingMessage channel" where
  "TestClient_Send c = tcl_send c"

definition TestClient_PubKeyHex :: "('p, 'u) TestClient \<Rightarrow> string" where
  "TestClient_PubKeyHex c = tcl_pubKeyHex c"

definition TestClient_Close :: "('p, 'u) TestClient \<Rightarrow> ('p, 'u) TestClient res" where
  "TestClient_Close c = (case close_chan (tcl_send c) of
     Ok ch \<Rightarrow> Ok (c\<lparr>tcl_send := ch\<rparr>) | Err e \<Rightarrow> Err e | Panic p \<Rightarrow> Panic p)"

definition TestClient_SendMessage ::
    "string \<Rightarrow> string \<Rightarrow> bytes \<Rightarrow> ('p, 'u) TestClient \<Rightarrow> ('p, 'u) TestClient res option" where
  "TestClient_SendMessage to msgID payload c =
     (case send_chan \<lparr>om_To = to, om_MsgID = msgID, om_Payload = payload\<rparr> (tcl_send c) of
        None \<Rightarrow> None
      | Some (Ok ch) \<Rightarrow> Some (Ok (c\<lparr>tcl_send := ch\<rparr>))
      | Some (Err e) \<Rightarrow> Some (Err e)
      | Some (Panic p) \<Rightarrow> Some (Panic p))"

section \<open>Certificates: a failure undoes what was done\<close>

text \<open>A computation that keeps \<open>I\<close> as long as it goes on and that ends in the state \<open>s\<close> when it fails.\<close>

definition undone :: "(fs \<Rightarrow> bool) \<Rightarrow> fs \<Rightarrow> (fs, 'a) go \<Rightarrow> bool" where
  "undone I s m \<longleftrightarrow> (\<forall>t r t'. I t \<longrightarrow> m t = (r, t') \<longrightarrow> (case r of Err e \<Rightarrow> t' = s | _ \<Rightarrow> I t'))"

lemma undone_return: "undone I s (go_return x)"
  by (simp add: undone_def)

lemma undone_bind:
  assumes "undone I s m" "\<And>x. undone I s (f x)"
  shows "undone I s (go_bind m f)"
  unfolding undone_def
proof (intro allI impI)
  fix t r t' assume I: "I t" and b: "go_bind m f t = (r, t')"
  obtain r1 t1 where m: "m t = (r1, t1)" by fastforce
  with assms(1) I have "case r1 of Err e \<Rightarrow> t1 = s | _ \<Rightarrow> I t1" unfolding undone_def by blast
  with m b assms(2) show "case r of Err e \<Rightarrow> t' = s | _ \<Rightarrow> I t'"
    unfolding undone_def by (cases r1) fastforce+
qed

lemma undone_orRemove:
  assumes "\<And>t. I t \<Longrightarrow> os_RemoveAll dir t = (Ok (), s)" "stable I m"
  shows "undone I s (orRemove dir m)"
  unfolding undone_def
proof (intro allI impI)
  fix t r t' assume I: "I t" and b: "orRemove dir m t = (r, t')"
  obtain r1 t1 where m: "m t = (r1, t1)" by fastforce
  have "I t1" using assms(2) I m by (rule stableD)
  with m b assms(1) show "case r of Err e \<Rightarrow> t' = s | _ \<Rightarrow> I t'"
    by (cases r1) (auto simp: orRemove_def)
qed

text \<open>The directory for temporary files is a clean path and the random endings have no slash.\<close>

definition temp_ok :: "'k tcert_env \<Rightarrow> bool" where
  "temp_ok E \<longleftrightarrow> (\<exists>cs. te_TempDir E = abs_path cs \<and> home_ok cs)
     \<and> list_all (\<lambda>r. CHR ''/'' \<notin> set r) (te_suffixes E)"

text \<open>Nothing prevents the removal of files, and there are no orphans.\<close>

definition removable :: "fs \<Rightarrow> bool" where
  "removable s \<longleftrightarrow> no_orphans s \<and> (\<forall>p. fs_fault s ''removeall'' p = None)"

lemma stable_ret [stable_intros]: "stable I (ret r)"
  by (simp add: stable_def ret_def)

lemma cert_paths:
  assumes "home_ok cs" "CHR ''/'' \<notin> set r" "dir = abs_path (cs @ [''sprut-test-certs-'' @ r])"
  shows "filepath_Join [dir, ''cert.pem''] = dir @ ''/cert.pem''" "filepath_Join [dir, ''key.pem''] = dir @ ''/key.pem''"
    "dir \<noteq> []"
proof -
  have g: "list_all good_part (cs @ [''sprut-test-certs-'' @ r, c])" if "good_part c" for c
    using assms(1,2) that by (auto simp: home_ok_def good_part_def)
  have "filepath_Join [dir, c] = dir @ ''/'' @ c" if "good_part c" for c
    using filepath_Join_abs [of "cs @ [''sprut-test-certs-'' @ r]" c] g [OF that] assms(3)
    by (simp add: abs_path_def)
  from this [of "''cert.pem''"] this [of "''key.pem''"]
  show "filepath_Join [dir, ''cert.pem''] = dir @ ''/cert.pem''" "filepath_Join [dir, ''key.pem''] = dir @ ''/key.pem''"
    by (simp_all add: good_part_def)
  show "dir \<noteq> []" using assms(3) by (simp add: abs_path_def)
qed

lemma orRemove_eq_Ok: "orRemove dir m s = (Ok x, t) \<longleftrightarrow> m s = (Ok x, t)"
  by (auto simp: orRemove_def split: prod.splits res.splits)

lemma fill_dir_undone:
  assumes "\<And>t. same_outside dir s t \<Longrightarrow> os_RemoveAll dir t = (Ok (), s)"
    "below dir (filepath_Join [dir, ''cert.pem''])" "below dir (filepath_Join [dir, ''key.pem''])"
  shows "undone (same_outside dir s) s (fill_dir E dir)"
  unfolding fill_dir_def Let_def
  by (intro undone_bind undone_return undone_orRemove assms(1) stable_intros WriteFile_outside assms(2,3))

lemma fill_dir_Ok:
  assumes "fill_dir E dir s = (Ok c, t)" "filepath_Join [dir, ''cert.pem''] \<noteq> filepath_Join [dir, ''key.pem'']"
    "fs_files s (filepath_Join [dir, ''cert.pem'']) = None" "fs_files s (filepath_Join [dir, ''key.pem'']) = None"
  shows "\<exists>key. t = s\<lparr>fs_files := (fs_files s)(ts_CertFile c \<mapsto> (ts_CACert c, 384), ts_KeyFile c \<mapsto> (key, 384))\<rparr>
    \<and> ts_CertFile c = filepath_Join [dir, ''cert.pem''] \<and> ts_KeyFile c = filepath_Join [dir, ''key.pem''] \<and> ts_dir c = dir"
proof -
  obtain t1 pem key where 1: "os_WriteFile (filepath_Join [dir, ''cert.pem'']) pem 384 s = (Ok (), t1)"
    and 2: "os_WriteFile (filepath_Join [dir, ''key.pem'']) key 384 t1 = (Ok (), t)"
    and c: "c = \<lparr>ts_CertFile = filepath_Join [dir, ''cert.pem''], ts_KeyFile = filepath_Join [dir, ''key.pem''],
        ts_CACert = pem, ts_dir = dir\<rparr>"
    using assms(1) unfolding fill_dir_def Let_def
    by (auto simp: go_eq_Ok orRemove_eq_Ok ret_def)
  from os_WriteFile_Ok(1) [OF 1] os_WriteFile_Ok(1) [OF 2] assms(2-4) c show ?thesis by (auto)
qed

text \<open>The new directory: where the files go, that there is nothing yet, and that removing it restores the old state.\<close>

lemma temp_dir_made:
  assumes "temp_ok E" "removable s"
    "os_MkdirTemp (te_TempDir E) ''sprut-test-certs-'' (te_suffixes E) s = (Ok dir, s1)"
  shows "s1 = s\<lparr>fs_dirs := (fs_dirs s)(dir \<mapsto> 448)\<rparr>" "dir \<noteq> []"
    "filepath_Join [dir, ''cert.pem''] = dir @ ''/cert.pem''" "filepath_Join [dir, ''key.pem''] = dir @ ''/key.pem''"
    "below dir q \<Longrightarrow> fs_files s q = None" "same_outside dir s t \<Longrightarrow> os_RemoveAll dir t = (Ok (), s)"
proof -
  from assms(3) obtain r where r: "r \<in> set (te_suffixes E)" "dir = temp_name (te_TempDir E) (''sprut-test-certs-'' @ r)"
    "fs_files s dir = None" "fs_dirs s dir = None" "s1 = s\<lparr>fs_dirs := (fs_dirs s)(dir \<mapsto> 448)\<rparr>"
    by (rule MkdirTemp_Ok)
  from assms(1) obtain cs where cs: "te_TempDir E = abs_path cs" "home_ok cs" "CHR ''/'' \<notin> set r"
    using r(1) by (auto simp: temp_ok_def list_all_iff)
  have dir: "dir = abs_path (cs @ [''sprut-test-certs-'' @ r])"
    using r(2) cs(1,2) temp_name_abs by (simp add: home_ok_def)
  show "s1 = s\<lparr>fs_dirs := (fs_dirs s)(dir \<mapsto> 448)\<rparr>" by (rule r(5))
  show "filepath_Join [dir, ''cert.pem''] = dir @ ''/cert.pem''" "filepath_Join [dir, ''key.pem''] = dir @ ''/key.pem''"
    and ne: "dir \<noteq> []" by (rule cert_paths [OF cs(2,3) dir])+
  show "fs_files s q = None" if "below dir q"
    using assms(2) r(3,4) ne that unfolding removable_def no_orphans_def by blast
  show "os_RemoveAll dir t = (Ok (), s)" if "same_outside dir s t"
    using that assms(2) r(3,4) ne by (intro RemoveAll_restores) (auto simp: removable_def)
qed

lemma temp_dir_undone:
  assumes "temp_ok E" "removable s"
    "os_MkdirTemp (te_TempDir E) ''sprut-test-certs-'' (te_suffixes E) s = (Ok dir, s1)"
  shows "undone (same_outside dir s) s (fill_dir E dir)" "same_outside dir s s1"
proof -
  note m = temp_dir_made [OF assms]
  show "undone (same_outside dir s) s (fill_dir E dir)"
    using m(3,4) by (intro fill_dir_undone m(6)) (auto simp: below_def)
  show "same_outside dir s s1" using m(1) by (auto simp: same_outside_def)
qed

text \<open>
  A failure leaves the file system as it was. After a success there is a new directory with exactly
  two files that nobody else can read, and \<open>Cleanup\<close> takes everything back.
\<close>

lemma GenerateCerts_Err:
  assumes "temp_ok E" "removable s" "GenerateCerts E s = (Err e, t)"
  shows "t = s"
proof (cases "os_MkdirTemp (te_TempDir E) ''sprut-test-certs-'' (te_suffixes E) s")
  case (Pair r s1)
  show ?thesis
  proof (cases r)
    case (Ok dir)
    with Pair assms(3) have "fill_dir E dir s1 = (Err e, t)" by (simp add: GenerateCerts_def)
    with temp_dir_undone [OF assms(1,2) Pair [unfolded Ok]] show ?thesis unfolding undone_def by fastforce
  qed (use Pair assms(3) MkdirTemp_Err [of _ _ _ s] in \<open>auto simp: GenerateCerts_def wrapf_def go_bind_def\<close>)
qed

lemma GenerateCerts_Ok:
  assumes "temp_ok E" "removable s" "GenerateCerts E s = (Ok c, t)"
  shows "Cleanup c t = (Ok (), s) \<and> fs_dirs t = (fs_dirs s)(ts_dir c \<mapsto> 448) \<and> fs_fault t = fs_fault s
    \<and> ts_CertFile c = ts_dir c @ ''/cert.pem'' \<and> ts_KeyFile c = ts_dir c @ ''/key.pem''
    \<and> (\<exists>key. fs_files t = (fs_files s)(ts_CertFile c \<mapsto> (ts_CACert c, 384), ts_KeyFile c \<mapsto> (key, 384)))"
proof -
  obtain dir s1 where 1: "os_MkdirTemp (te_TempDir E) ''sprut-test-certs-'' (te_suffixes E) s = (Ok dir, s1)"
    and 2: "fill_dir E dir s1 = (Ok c, t)"
    using assms(3) by (auto simp: GenerateCerts_def go_eq_Ok)
  note m = temp_dir_made [OF assms(1,2) 1]
  have "same_outside dir s t" using temp_dir_undone [OF assms(1,2) 1] 2 unfolding undone_def by fastforce
  then have rm: "os_RemoveAll dir t = (Ok (), s)" by (rule m(6))
  have n: "filepath_Join [dir, ''cert.pem''] \<noteq> filepath_Join [dir, ''key.pem'']" using m(3,4) by simp
  have f: "fs_files s1 (filepath_Join [dir, ''cert.pem'']) = None" "fs_files s1 (filepath_Join [dir, ''key.pem'']) = None"
    using m(1,3,4) m(5) by (auto simp: below_def)
  from fill_dir_Ok [OF 2 n f] m(1-4) rm show ?thesis by (auto simp: Cleanup_def)
qed

section \<open>Containers\<close>

text \<open>
  What the container library promises, with \<open>running\<close> the containers that run: a container that was
  started is a new one, asking for its address changes nothing, terminating it stops it. Nothing is
  said about a container that could not be started.
\<close>

definition runtime_ok :: "('d, 'c) docker_api \<Rightarrow> ('d \<Rightarrow> 'c set) \<Rightarrow> bool" where
  "runtime_ok api running \<longleftrightarrow>
     (\<forall>rq d c d'. dk_GenericContainer api rq d = (Ok c, d') \<longrightarrow> c \<notin> running d \<and> running d' = insert c (running d))
   \<and> (\<forall>c. keeps running (dk_Host api c)) \<and> (\<forall>c p. keeps running (dk_MappedPort api c p))
   \<and> (\<forall>t c d. fst (dk_Terminate api t c d) = Ok () \<and> running (snd (dk_Terminate api t c d)) = running d - {c})"

lemma orTerminate_running:
  assumes "runtime_ok api running" "keeps running m" "orTerminate api c m d = (r, d')"
  shows "running d' = (case r of Err e \<Rightarrow> running d - {c} | _ \<Rightarrow> running d)"
proof -
  obtain r1 d1 where m: "m d = (r1, d1)" by fastforce
  have "running d1 = running d" using assms(2) m by (rule keepsD)
  then show ?thesis
    using assms(1,3) m by (cases r1) (auto simp: orTerminate_def terminateContainer_def runtime_ok_def)
qed

lemma orTerminate_eq_Ok: "orTerminate api c m d = (Ok x, d') \<longleftrightarrow> m d = (Ok x, d')"
  by (auto simp: orTerminate_def split: prod.splits res.splits)

lemma startNATS_Ok:
  assumes "runtime_ok api running" "startNATS api d = (Ok n, d')"
  obtains c d1 where "dk_GenericContainer api nats_request d = (Ok c, d1)" "nt_container n = Some c"
    "c \<notin> running d" "running d' = insert c (running d)"
proof -
  obtain c d1 d2 h p where 1: "dk_GenericContainer api nats_request d = (Ok c, d1)"
    and 2: "dk_Host api c d1 = (Ok h, d2)" and 3: "dk_MappedPort api c ''4222'' d2 = (Ok p, d')"
    and n: "nt_container n = Some c"
    using assms(2) by (auto simp: startNATS_def go_eq_Ok orTerminate_eq_Ok)
  moreover have "running d' = running d2" "running d2 = running d1"
    using assms(1) 2 3 by (auto simp: runtime_ok_def keeps_def)
  moreover have "c \<notin> running d \<and> running d1 = insert c (running d)" using assms(1) 1 by (auto simp: runtime_ok_def)
  ultimately show thesis using that by simp
qed

lemma startNATS_Err:
  assumes "runtime_ok api running" "startNATS api d = (Err e, d')" "dk_GenericContainer api nats_request d = (Ok c, d1)"
  shows "running d' = running d"
proof -
  let ?host = "orTerminate api c (wrapf ''get NATS host'' (dk_Host api c))"
  let ?port = "orTerminate api c (wrapf ''get NATS port'' (dk_MappedPort api c ''4222''))"
  have k: "keeps running (wrapf m (dk_Host api c))" "keeps running (wrapf m (dk_MappedPort api c p))" for m p
    using assms(1) by (auto simp: runtime_ok_def intro: keeps_intros)
  have new: "running d1 - {c} = running d" using assms(1,3) by (auto simp: runtime_ok_def)
  obtain r2 d2 where 2: "?host d1 = (r2, d2)" by fastforce
  obtain r3 d3 where 3: "?port d2 = (r3, d3)" by fastforce
  note r = orTerminate_running [OF assms(1) k(1) 2] orTerminate_running [OF assms(1) k(2) 3]
  show ?thesis using assms(2,3) 2 3 r new by (cases r2; cases r3) (auto simp: startNATS_def)
qed

lemma startNATS_not_started:
  "dk_GenericContainer api nats_request d = (Err e, d1) \<Longrightarrow> startNATS api d = (Err (Wrapf ''start NATS container'' e), d1)"
  by (simp add: startNATS_def)

section \<open>The listener\<close>

text \<open>A router whose context is cancelled closes its listener, unless it could not build its TLS configuration.\<close>

lemma Serve_cancelled_lis:
  assumes "Cancelled \<in> set evs" "\<And>c k p. loadPair c k \<noteq> Panic p" "\<not> li_closed lis"
  shows "li_closed (sd_lis (Serve sv loadPair lis evs))
    \<longleftrightarrow> (\<nexists>e. sd_result (Serve sv loadPair lis evs) = Some (Err (Wrapf ''build TLS config'' e)))"
proof (cases "Serve_setup sv loadPair")
  case (Ok rt)
  show ?thesis
    unfolding Serve_running [OF Ok] Let_def using acceptLoop_lis [of evs] assms(1) by (simp add: li_Close_def)
next
  case (Err e)
  then have "\<And>rt. Serve_setup sv loadPair \<noteq> Ok rt" "\<And>p. Serve_setup sv loadPair \<noteq> Panic p" by simp_all
  then show ?thesis
    using assms(3) by (cases rule: Serve_failed [of sv loadPair lis evs]) (auto simp: li_Close_def)
next
  case (Panic p)
  have "buildTLSConfig loadPair t \<noteq> Panic q" for t q
    using assms(2) by (auto simp: buildTLSConfig_def split: res.splits)
  with Panic show ?thesis
    by (auto simp: Serve_def Serve_setup_def li_Close_def Let_def split: res.splits if_splits)
qed

section \<open>Start and Close\<close>

lemma en_lift [simp]:
  "en_fs (snd (en_onFS m s)) = snd (m (en_fs s))" "en_docker (snd (en_onFS m s)) = en_docker s"
  "en_server (snd (en_onFS m s)) = en_server s"
  "en_docker (snd (en_onDocker m' s)) = snd (m' (en_docker s))" "en_fs (snd (en_onDocker m' s)) = en_fs s"
  "en_server (snd (en_onDocker m' s)) = en_server s"
  by (simp_all add: en_onFS_def en_onDocker_def go_lift_def split: prod.splits)

lemma start_router_Err:
  assumes "start_router T o' n c evs ch s = (Err e, s')"
  shows "en_fs s' = snd (Cleanup c (en_fs s))" "en_docker s' = snd (Terminate (tv_docker T) n (en_docker s))"
    "en_server s' = en_server s \<or> (\<exists>lis cfg. tv_listen T ''127.0.0.1:0'' = Ok lis
       \<and> en_server s' = Some (Serve (tv_server T cfg) (tv_loadPair T) lis (evs @ [Cancelled])))"
  using assms
  by (auto simp: start_router_def Let_def dropTerminate_def dropCerts_def split: res.splits start_result.splits)

lemma start_router_Ok:
  assumes "start_router T o' n c evs ch s = (Ok env, s')"
  obtains lis serve where "tv_listen T ''127.0.0.1:0'' = Ok lis"
    "serve = Serve (tv_server T (start_config o' (li_addr lis) c (nt_url n))) (tv_loadPair T) lis"
    "env = \<lparr>env_NATSUrl = nt_url n, env_SprutAddr = li_addr lis, env_CACert = ts_CACert c,
       env_nats = Some n, env_certs = Some c, env_run = Some (\<lambda>later. serve (evs @ later))\<rparr>"
    "s' = s\<lparr>en_server := Some (serve evs)\<rparr>" "sd_ready (serve evs)"
proof -
  obtain lis where l: "tv_listen T ''127.0.0.1:0'' = Ok lis"
    using assms by (cases "tv_listen T ''127.0.0.1:0''") (auto simp: start_router_def)
  let ?serve = "Serve (tv_server T (start_config o' (li_addr lis) c (nt_url n))) (tv_loadPair T) lis"
  have "start_select ch (?serve evs) = SReady"
    using assms l by (cases "start_select ch (?serve evs)")
      (auto simp: start_router_def Let_def URL_def start_failure_def split: res.splits)
  moreover from this have "sd_ready (?serve evs)" by (auto simp: start_select_def split: if_splits option.splits)
  ultimately show thesis
    using assms l by (intro that [of lis ?serve]) (auto simp: start_router_def Let_def URL_def)
qed

text \<open>The three places where \<open>Start\<close> can fail, and how it succeeds.\<close>

lemma Start_Err_cases:
  assumes "Start T opts evs ch s = (Err e, s')"
  obtains (nats) e' d where "startNATS (tv_docker T) (en_docker s) = (Err e', d)" "s' = s\<lparr>en_docker := d\<rparr>"
  | (certs) n d f e' where "startNATS (tv_docker T) (en_docker s) = (Ok n, d)"
      "GenerateCerts (tv_certs T) (en_fs s) = (Err e', f)"
      "s' = dropTerminate (tv_docker T) n (s\<lparr>en_docker := d, en_fs := f\<rparr>)"
  | (router) n d f c where "startNATS (tv_docker T) (en_docker s) = (Ok n, d)"
      "GenerateCerts (tv_certs T) (en_fs s) = (Ok c, f)"
      "start_router T (fold (\<lambda>opt o'. opt o') opts defaultOptions) n c evs ch (s\<lparr>en_docker := d, en_fs := f\<rparr>) = (Err e, s')"
proof (cases "startNATS (tv_docker T) (en_docker s)")
  case (Pair rn d)
  obtain rc f where c: "GenerateCerts (tv_certs T) (en_fs s) = (rc, f)" by fastforce
  note defs = Start_def en_onDocker_def en_onFS_def go_lift_def wrapf_def go_bind_def Let_def
  show thesis
  proof (cases rn)
    case (Ok n)
    then show thesis
      using Pair c assms certs [of n d _ f] router [of n d _ f] by (cases rc) (simp_all add: defs)
  qed (use Pair assms nats in \<open>simp_all add: defs\<close>)
qed

lemma Start_Ok:
  assumes "Start T opts evs ch s = (Ok env, s')"
  obtains n d f c where "startNATS (tv_docker T) (en_docker s) = (Ok n, d)"
    "GenerateCerts (tv_certs T) (en_fs s) = (Ok c, f)"
    "start_router T (fold (\<lambda>opt o'. opt o') opts defaultOptions) n c evs ch (s\<lparr>en_docker := d, en_fs := f\<rparr>) = (Ok env, s')"
proof (cases "startNATS (tv_docker T) (en_docker s)")
  case (Pair rn d)
  obtain rc f where c: "GenerateCerts (tv_certs T) (en_fs s) = (rc, f)" by fastforce
  note defs = Start_def en_onDocker_def en_onFS_def go_lift_def wrapf_def go_bind_def Let_def
  show thesis
  proof (cases rn)
    case (Ok n)
    then show thesis using Pair c assms that [of n d _ f] by (cases rc) (simp_all add: defs)
  qed (use Pair assms in \<open>simp_all add: defs\<close>)
qed

text \<open>Terminating the container that was started restores the set of running containers.\<close>

lemma Terminate_started:
  assumes "runtime_ok api running" "startNATS api d = (Ok n, d')" "running d'' = running d'"
  shows "fst (Terminate api n d'') = Ok ()" "running (snd (Terminate api n d'')) = running d"
proof -
  from assms(1,2) obtain c d1 where "nt_container n = Some c" "c \<notin> running d" "running d' = insert c (running d)"
    by (rule startNATS_Ok)
  then show "fst (Terminate api n d'') = Ok ()" "running (snd (Terminate api n d'')) = running d"
    using assms(1,3) by (auto simp: Terminate_def runtime_ok_def)
qed

section \<open>Settings\<close>

lemma mustAtoi_snoc: "mustAtoi (cs @ [c]) = mustAtoi cs * 10 + scast (c - 48)"
  by (simp add: mustAtoi_def)

lemma mustAtoi_digit:
  assumes "k < 10"
  shows "scast ((of_nat (of_char (char_of (48 + k) :: char)) :: 32 word) - 48) = (of_nat k :: 64 word)"
proof -
  have "k \<in> {0, 1, 2, 3, 4, 5, 6, 7, 8, 9}" using assms by auto
  then show ?thesis by (elim insertE) (simp_all add: of_char_of)
qed

lemma mustAtoi_dec: "mustAtoi (ascii_runes (dec_nat n)) = of_nat n"
proof (induction n rule: less_induct)
  case (less n)
  show ?case
  proof (cases "n < 10")
    case True
    with mustAtoi_digit [of n] mustAtoi_snoc [of "[]"] show ?thesis
      by (simp add: dec_nat.simps [of n] ascii_runes_def mustAtoi_def)
  next
    case False
    then have "mustAtoi (ascii_runes (dec_nat n)) = of_nat (n div 10) * 10 + of_nat (n mod 10)"
      using less [of "n div 10"] mustAtoi_digit [of "n mod 10"]
      by (simp add: dec_nat.simps [of n] ascii_runes_def mustAtoi_snoc)
    also have "\<dots> = of_nat (n div 10 * 10 + n mod 10)" by (simp only: of_nat_add of_nat_mult of_nat_numeral)
    finally show ?thesis by (simp only: div_mult_mod_eq)
  qed
qed

lemma dec_nat_chars: "c \<in> set (dec_nat n) \<Longrightarrow> (of_char c :: nat) \<in> {48..57}"
proof (induction n rule: less_induct)
  case (less n)
  show ?case
  proof (cases "c \<in> set (dec_nat (n div 10)) \<and> 10 \<le> n")
    case True
    then show ?thesis using less.IH [of "n div 10"] by simp
  next
    case False
    with less.prems show ?thesis by (auto simp: dec_nat.simps [of n] of_char_of split: if_splits)
  qed
qed

lemma last_colon_none: "CHR '':'' \<notin> set p \<Longrightarrow> last_colon p = None"
  by (induction p) auto

lemma last_colon_at: "CHR '':'' \<notin> set p \<Longrightarrow> last_colon (h @ CHR '':'' # p) = Some (length h)"
  by (induction h) (auto simp: last_colon_none)

lemma SplitHostPort_plain:
  assumes "set h \<inter> {CHR '':'', CHR ''['', CHR '']''} = {}" "set p \<inter> {CHR '':'', CHR ''['', CHR '']''} = {}"
  shows "net_SplitHostPort (h @ CHR '':'' # p) = Some (h, p)"
proof -
  have "hd (h @ CHR '':'' # p) \<noteq> CHR ''[''" using assms(1) by (cases h) auto
  with assms show ?thesis by (auto simp: net_SplitHostPort_def last_colon_at)
qed

lemma start_config_addr:
  assumes "port < 2 ^ 63"
  shows "cf_Server (start_config o' (''127.0.0.1:'' @ dec_nat port) c url)
    = \<lparr>sc_Host = ''127.0.0.1'', sc_Port = int port, sc_ServerID = op_serverID o'\<rparr>"
proof -
  have "set (dec_nat port) \<inter> {CHR '':'', CHR ''['', CHR '']''} = {}" using dec_nat_chars [of _ port] by fastforce
  then have "net_SplitHostPort (''127.0.0.1:'' @ dec_nat port) = Some (''127.0.0.1'', dec_nat port)"
    using SplitHostPort_plain [of "''127.0.0.1''" "dec_nat port"] by simp
  moreover have "sint (of_nat port :: 64 word) = int port"
    using assms sint_sbintrunc' [where 'a = 64, of "int port"] by (simp add: signed_take_bit_int_eq_self)
  ultimately show ?thesis by (simp add: start_config_def mustAtoi_dec)
qed

text \<open>The values of options that validation accepts.\<close>

definition options_ok :: "options \<Rightarrow> bool" where
  "options_ok o' \<longleftrightarrow> 1 \<le> op_maxConnections o' \<and> 1 \<le> op_maxMessageSize o' \<and> 0 < op_authTimeout o'
     \<and> 0 < op_challengeTTL o' \<and> op_serverID o' \<noteq> []"

lemma start_config_valid:
  assumes "options_ok o'" "1 \<le> port" "port \<le> 65535" "present f (ts_CertFile c)" "present f (ts_KeyFile c)"
  shows "valid_config f (start_config o' (''127.0.0.1:'' @ dec_nat port) c url)"
proof -
  have "cf_Server (start_config o' (''127.0.0.1:'' @ dec_nat port) c url)
    = \<lparr>sc_Host = ''127.0.0.1'', sc_Port = int port, sc_ServerID = op_serverID o'\<rparr>"
    using assms(3) by (intro start_config_addr) simp
  moreover have "cf_TLS (start_config o' a c url) = \<lparr>tc_CertFile = ts_CertFile c, tc_KeyFile = ts_KeyFile c, tc_MinVersion = ''''\<rparr>"
    "nc_URLs (cf_NATS (start_config o' a c url)) = [url]" "limits_ok (cf_Limits (start_config o' a c url))" for a
    using assms(1) by (auto simp: start_config_def limits_ok_def options_ok_def Let_def split: prod.splits)
  ultimately show ?thesis using assms by (simp add: valid_config_def options_ok_def)
qed

section \<open>Properties\<close>

text \<open>\<open>net.Listen\<close> gives an open listener, and \<open>tls.LoadX509KeyPair\<close> does not panic.\<close>

definition net_ok :: "('d, 'c, 'k, 'n, 's, 'h, 'l, 'x) test_env \<Rightarrow> bool" where
  "net_ok T \<longleftrightarrow> (\<forall>a lis. tv_listen T a = Ok lis \<longrightarrow> \<not> li_closed lis) \<and> (\<forall>c k p. tv_loadPair T c k \<noteq> Panic p)"


definition ex_docker :: "(nat list, nat) docker_api" where
  "ex_docker = \<lparr>dk_GenericContainer = (\<lambda>_ d. (Ok (Suc (sum_list d)), Suc (sum_list d) # d)),
     dk_Host = (\<lambda>_ d. (Ok ''localhost'', d)), dk_MappedPort = (\<lambda>_ _ d. (Ok ''49153/tcp'', d)),
     dk_Port = (\<lambda>_. ''49153''), dk_Terminate = (\<lambda>_ c d. (Ok (), removeAll c d))\<rparr>"

definition ex_tcerts :: "nat res \<Rightarrow> nat tcert_env" where
  "ex_tcerts k = \<lparr>te_TempDir = ''/tmp'', te_suffixes = [''1'', ''2''], te_GenerateKey = k, te_now = 0, te_now2 = 0,
     te_CreateCertificate = (\<lambda>_ _. Ok [1, 2]), te_MarshalECPrivateKey = (\<lambda>_. Ok [3]), te_pem = (\<lambda>_ b. b)\<rparr>"

definition ex_lis :: listener where
  "ex_lis = \<lparr>li_addr = ''127.0.0.1:43210'', li_closed = False\<rparr>"

definition ex_tenv :: "nat res \<Rightarrow> (nat list, nat, nat, (string \<times> bytes) list, unit, unit, unit, unit) test_env" where
  "ex_tenv k = \<lparr>tv_docker = ex_docker, tv_certs = ex_tcerts k, tv_listen = (\<lambda>_. Ok ex_lis),
     tv_server = (\<lambda>cfg. ex_sv\<lparr>sv_cfg := cfg\<rparr>), tv_loadPair = ex_load\<rparr>"

definition ex_tfs :: fs where
  "ex_tfs = \<lparr>fs_files = Map.empty, fs_dirs = [''/tmp'' \<mapsto> 511], fs_fault = (\<lambda>_ _. None)\<rparr>"

definition ex_tst :: "(nat list, (string \<times> bytes) list) env_st" where
  "ex_tst = \<lparr>en_fs = ex_tfs, en_docker = [7], en_server = None\<rparr>"

lemma ex_tenv_ok:
  "temp_ok (tv_certs (ex_tenv k))" "removable (en_fs ex_tst)" "runtime_ok (tv_docker (ex_tenv k)) set"
  "net_ok (ex_tenv k)" "tv_listen (ex_tenv k) a = Ok ex_lis" "en_server ex_tst = None"
proof -
  have "''/tmp'' = abs_path [''tmp'']" by (simp add: abs_path_def)
  then show "temp_ok (tv_certs (ex_tenv k))"
    by (auto simp: temp_ok_def ex_tenv_def ex_tcerts_def home_ok_def good_part_def)
  have "p = ''/tmp''" if "prefix (p @ ''/'') ''/tmp'' \<or> ''/tmp'' = p" "p \<noteq> []" for p
    using that by (auto simp: prefix_def Cons_eq_append_conv)
  then show "removable (en_fs ex_tst)"
    by (auto simp: removable_def no_orphans_def ex_tst_def ex_tfs_def below_def)
  have "sum_list d < c \<Longrightarrow> c \<notin> set d" for c :: nat and d using member_le_sum_list [of c d] by auto
  then show "runtime_ok (tv_docker (ex_tenv k)) set"
    by (auto simp: runtime_ok_def ex_tenv_def ex_docker_def keeps_def)
qed (simp_all add: net_ok_def ex_tenv_def ex_load_def ex_lis_def ex_tst_def)




text \<open>The settings of a test environment are those a server accepts, and they agree with what
  its clients are told. With options in the accepted ranges and a listener on a port, \<open>Start\<close> runs
  the router with settings that pass \<open>Validate\<close>; the address made from host and port, which were
  cut out of the listener's address, is again that address; the certificate file, readable by its owner
  only, holds the certificate that is handed to clients.\<close>
theorem Start_settings_valid:
  assumes "temp_ok (tv_certs T)" "removable (en_fs s)" "\<And>p. fs_fault (en_fs s) ''stat'' p = None"
    "options_ok (fold (\<lambda>opt o'. opt o') opts defaultOptions)"
    "tv_listen T ''127.0.0.1:0'' = Ok lis" "li_addr lis = ''127.0.0.1:'' @ dec_nat port" "1 \<le> port" "port \<le> 65535"
    "Start T opts evs ch s = (Ok env, s')"
  shows "\<exists>cfg. en_server s' = Some (Serve (tv_server T cfg) (tv_loadPair T) lis evs)
    \<and> Validate cfg (en_fs s') = (Ok (), en_fs s')
    \<and> ServerConfig_Addr (cf_Server cfg) = env_SprutAddr env \<and> nc_URLs (cf_NATS cfg) = [env_NATSUrl env]
    \<and> fs_files (en_fs s') (tc_CertFile (cf_TLS cfg)) = Some (env_CACert env, 384)"
proof -
  let ?o = "fold (\<lambda>opt o'. opt o') opts defaultOptions"
  from assms(9) obtain n d f c where 2: "GenerateCerts (tv_certs T) (en_fs s) = (Ok c, f)"
    and 3: "start_router T ?o n c evs ch (s\<lparr>en_docker := d, en_fs := f\<rparr>) = (Ok env, s')"
    by (rule Start_Ok)
  define cfg where "cfg = start_config ?o (''127.0.0.1:'' @ dec_nat port) c (nt_url n)"
  have r: "env_SprutAddr env = ''127.0.0.1:'' @ dec_nat port" "env_CACert env = ts_CACert c" "env_NATSUrl env = nt_url n"
    "en_server s' = Some (Serve (tv_server T cfg) (tv_loadPair T) lis evs)" "en_fs s' = f"
    using 3 by (rule start_router_Ok, use assms(5,6) in \<open>simp add: cfg_def\<close>)+
  note g = GenerateCerts_Ok [OF assms(1,2) 2]
  then have "fs_files f (ts_CertFile c) = Some (ts_CACert c, 384)" "fs_files f (ts_KeyFile c) \<noteq> None" by auto
  moreover from this have "present f (ts_CertFile c)" "present f (ts_KeyFile c)"
    using g assms(3) by (auto simp: present_def os_Stat_def)
  then have "Validate cfg f = (Ok (), f)"
    unfolding cfg_def Validate_Ok_iff using assms(4,7,8) by (intro start_config_valid) auto
  moreover have "ServerConfig_Addr (cf_Server cfg) = ''127.0.0.1:'' @ dec_nat port"
    using start_config_addr [of port ?o c "nt_url n"] assms(8) by (simp add: cfg_def ServerConfig_Addr_def dec_int_def)
  moreover have "tc_CertFile (cf_TLS cfg) = ts_CertFile c" "nc_URLs (cf_NATS cfg) = [nt_url n]"
    by (simp_all add: cfg_def start_config_def Let_def split: prod.splits)
  ultimately show ?thesis using r by (intro exI [of _ cfg]) simp
qed

theorem Start_settings_valid_witness:
  "\<exists>cfg. ServerConfig_Addr (cf_Server cfg) = ''127.0.0.1:43210''
     \<and> en_server (snd (Start (ex_tenv (Ok 5)) [WithMaxConnections 3] [] ChReady ex_tst)) = Some (Serve (ex_sv\<lparr>sv_cfg := cfg\<rparr>) ex_load ex_lis [])"
proof -
  let ?st = "Start (ex_tenv (Ok 5)) [WithMaxConnections 3] [] ChReady ex_tst"
  have "case fst ?st of Ok env \<Rightarrow> env_SprutAddr env = ''127.0.0.1:43210'' | _ \<Rightarrow> False" by code_simp
  then obtain env where st: "?st = (Ok env, snd ?st)" and a: "env_SprutAddr env = ''127.0.0.1:43210''"
    by (cases "fst ?st") (auto simp: prod_eq_iff)
  have "fs_fault (en_fs ex_tst) ''stat'' p = None" for p by (simp add: ex_tst_def ex_tfs_def)
  moreover have "options_ok (fold (\<lambda>opt o'. opt o') [WithMaxConnections 3] defaultOptions)"
    by (simp add: options_ok_def defaultOptions_def WithMaxConnections_def)
  moreover have "li_addr ex_lis = ''127.0.0.1:'' @ dec_nat 43210" by (simp add: ex_lis_def dec_nat.simps char_of_def bit_0)
  moreover have "(1 :: nat) \<le> 43210" "(43210 :: nat) \<le> 65535" by simp_all
  note Start_settings_valid [OF ex_tenv_ok(1,2) _ _ ex_tenv_ok(5) _ this st]
  moreover have "tv_server (ex_tenv (Ok 5)) cfg = ex_sv\<lparr>sv_cfg := cfg\<rparr>" "tv_loadPair (ex_tenv (Ok 5)) = ex_load" for cfg
    by (simp_all add: ex_tenv_def)
  ultimately show ?thesis using a by metis
qed

section \<open>Clients of the environment\<close>

text \<open>The channel that \<open>NewClient\<close> makes is open when a client is returned and closed when an error is.\<close>

lemma NewClient_channel:
  assumes "NewClient E e keys s = (r, send, s')"
  shows "(\<forall>c. r = Ok c \<longrightarrow> \<not> ch_closed send \<and> tcl_send c = send \<and> (\<exists>k. keys = Some k \<and> tcl_pubKeyHex c = PublicKeyHex k))
    \<and> (\<forall>err. r = Err err \<longrightarrow> ch_closed send)"
  using assms by (auto simp: NewClient_def make_chan_def Let_def split: prod.splits res.splits option.splits)

text \<open>A client can be closed once; after that every use of its channel panics.\<close>

lemma TestClient_closed:
  assumes "TestClient_Close c = Ok c'"
  shows "TestClient_Close c' = Panic ''close of closed channel''"
    "TestClient_SendMessage to i payload c' = Some (Panic ''send on closed channel'')"
  using assms by (auto simp: TestClient_Close_def close_chan_def TestClient_SendMessage_def send_chan_def split: if_splits)

end
