(* ===== verification/Examples.thy ===== *)
theory Examples
  imports Client_Loop Config
begin

text \<open>
  The two programs under \<open>src/examples\<close>, which use the client library: \<open>echo-bot/main.go\<close> answers
  every message with its own text, \<open>simple-client/main.go\<close> sends what is typed. The goroutine of
  the bot, the signal handler in \<open>main\<close> and the goroutines of the session run interleaved; the
  commands of the simple client are a function on the lines of the standard input. What the programs
  print for an error of the session is an argument, a function on the state of the application.
\<close>

section \<open>Connecting (both programs)\<close>

definition example_opts ::
    "(go_error \<Rightarrow> 'u \<Rightarrow> 'u) \<Rightarrow> KeyPair \<Rightarrow> bool \<Rightarrow> string \<Rightarrow> ('p, 'u) ConnectOption list" where
  "example_opts onError keys insecure caCert =
     [WithKeys (Some keys), WithOnError (Some onError)]
     @ (if insecure then [WithInsecureSkipVerify] else [])
     @ (if caCert \<noteq> '''' then [WithCACertFile caCert] else [])"

text \<open>\<open>log.Fatal\<close> is an error; \<open>gen\<close> is the key pair that \<open>LoadOrGenerate\<close> would generate.\<close>

definition echo_connect ::
    "'p client_env \<Rightarrow> (bytes \<times> bytes) res \<Rightarrow> (go_error \<Rightarrow> 'u \<Rightarrow> 'u) \<Rightarrow> string \<Rightarrow> string \<Rightarrow> bool \<Rightarrow> string
     \<Rightarrow> (connect_st, ('p, 'u) connectConfig \<times> ccon) go" where
  "echo_connect E gen onError addr keysPath insecure caCert =
     go_bind (go_guard (keysPath \<noteq> '''') (ErrNew ''keys path is required'')) (\<lambda>_.
     go_bind (wrapf ''load keys'' (ks_onFS (LoadOrGenerate gen keysPath))) (\<lambda>keys.
     wrapf ''connect'' (Connect E addr (example_opts onError keys insecure caCert))))"

text \<open>The simple client does the same.\<close>

definition simple_connect ::
    "'p client_env \<Rightarrow> (bytes \<times> bytes) res \<Rightarrow> (go_error \<Rightarrow> 'u \<Rightarrow> 'u) \<Rightarrow> string \<Rightarrow> string \<Rightarrow> bool \<Rightarrow> string
     \<Rightarrow> (connect_st, ('p, 'u) connectConfig \<times> ccon) go" where
  "simple_connect E gen onError addr keysPath insecure caCert =
     go_bind (go_guard (keysPath \<noteq> '''') (ErrNew ''keys path is required'')) (\<lambda>_.
     go_bind (wrapf ''load keys'' (ks_onFS (LoadOrGenerate gen keysPath))) (\<lambda>keys.
     wrapf ''connect'' (Connect E addr (example_opts onError keys insecure caCert))))"

section \<open>The echo bot (echo-bot/main.go)\<close>

text \<open>
  Where the goroutine of the bot is: waiting for a message, before it sends a reply, after the end
  of the loop. \<open>bt_stopping\<close>: \<open>main\<close> has got the signal and closed the channel; \<open>bt_exited\<close>: it has
  returned; \<open>bt_panic\<close>: the program has crashed.
\<close>

datatype echo_pc = EWait | ESend OutgoingMessage | EDone

record 'u bot =
  bt_session :: "'u session"
  bt_counter :: "64 word"
  bt_pc :: echo_pc
  bt_stopping :: bool
  bt_exited :: bool
  bt_panic :: "string option"
  bt_out :: "string list"

definition slice_panic16 :: string where
  "slice_panic16 = ''slice bounds out of range''"

definition closed_panic :: string where
  "closed_panic = ''send on closed channel''"

definition echo_reply :: "64 word \<Rightarrow> Message \<Rightarrow> OutgoingMessage" where
  "echo_reply n msg = \<lparr>om_To = pm_From msg, om_MsgID = ''echo-'' @ dec_int (sint n),
     om_Payload = bytes_of_string (''Echo: '' @ string_of_bytes (pm_Payload msg))\<rparr>"

definition short_key :: "string \<Rightarrow> string" where
  "short_key k = take 16 k @ ''...''"

text \<open>The body of the loop up to the send, and the send.\<close>

definition echo_handle :: "Message \<Rightarrow> 'u bot \<Rightarrow> 'u bot" where
  "echo_handle msg b =
     (if length (pm_From msg) < 16 then b\<lparr>bt_panic := Some slice_panic16\<rparr>
      else let n = bt_counter b + 1 in
        b\<lparr>bt_out := bt_out b @ [''[RECV] From '' @ short_key (pm_From msg) @ '': '' @ string_of_bytes (pm_Payload msg)],
          bt_counter := n, bt_pc := ESend (echo_reply n msg)\<rparr>)"

definition echo_sent :: "OutgoingMessage \<Rightarrow> 'u bot \<Rightarrow> 'u bot" where
  "echo_sent r b =
     b\<lparr>bt_session := (bt_session b)\<lparr>ss_client := (ss_client (bt_session b))\<lparr>cl_send := cl_send (ss_client (bt_session b)) @ [r]\<rparr>,
                                    ss_pushed := ss_pushed (bt_session b) @ [r]\<rparr>,
       bt_pc := EWait,
       bt_out := bt_out b @ [''[SENT] To '' @ short_key (om_To r) @ '': '' @ string_of_bytes (om_Payload r)]\<rparr>"

definition echo_stop :: "'u bot \<Rightarrow> 'u bot" where
  "echo_stop b =
     b\<lparr>bt_session := (bt_session b)\<lparr>ss_client := (ss_client (bt_session b))\<lparr>cl_sendClosed := True\<rparr>\<rparr>,
       bt_stopping := True, bt_out := bt_out b @ [CHR 0x0A # ''Shutting down...'']\<rparr>"

text \<open>Nothing runs any more after the end of \<open>main\<close> or a panic. The capacity of the channel is 100.\<close>

definition bot_runs :: "'u bot \<Rightarrow> bool" where
  "bot_runs b \<longleftrightarrow> \<not> bt_exited b \<and> bt_panic b = None"

inductive bot_step ::
    "('p, 'u) connectConfig \<Rightarrow> (bytes \<Rightarrow> go_error + Message) \<Rightarrow> 'u bot \<Rightarrow> 'u bot \<Rightarrow> bool"
  for cfg unmarshal where
  session: "bot_runs b \<Longrightarrow> client_internal cfg unmarshal (ss_client (bt_session b)) cl \<Longrightarrow>
    bot_step cfg unmarshal b (b\<lparr>bt_session := (bt_session b)\<lparr>ss_client := cl\<rparr>\<rparr>)"
| take: "bot_runs b \<Longrightarrow> bt_pc b = EWait \<Longrightarrow> cl_recv (ss_client (bt_session b)) = m # ms \<Longrightarrow>
    bot_step cfg unmarshal b (echo_handle m (b\<lparr>bt_session := (bt_session b)\<lparr>
      ss_client := (ss_client (bt_session b))\<lparr>cl_recv := ms\<rparr>, ss_got := ss_got (bt_session b) @ [m]\<rparr>\<rparr>))"
| hand_over: "bot_runs b \<Longrightarrow> bt_pc b = EWait \<Longrightarrow> cl_recv (ss_client (bt_session b)) = [] \<Longrightarrow>
    cl_reader (ss_client (bt_session b)) = RDeliver m \<Longrightarrow>
    bot_step cfg unmarshal b (echo_handle m (b\<lparr>bt_session := (bt_session b)\<lparr>
      ss_client := (ss_client (bt_session b))\<lparr>cl_reader := RCheck\<rparr>, ss_got := ss_got (bt_session b) @ [m]\<rparr>\<rparr>))"
| range_end: "bot_runs b \<Longrightarrow> bt_pc b = EWait \<Longrightarrow> cl_recv (ss_client (bt_session b)) = [] \<Longrightarrow>
    cl_recvClosed (ss_client (bt_session b)) \<Longrightarrow> bot_step cfg unmarshal b (b\<lparr>bt_pc := EDone\<rparr>)"
| reply: "bot_runs b \<Longrightarrow> bt_pc b = ESend r \<Longrightarrow> \<not> cl_sendClosed (ss_client (bt_session b)) \<Longrightarrow>
    length (cl_send (ss_client (bt_session b))) < 100 \<Longrightarrow> bot_step cfg unmarshal b (echo_sent r b)"
| reply_closed: "bot_runs b \<Longrightarrow> bt_pc b = ESend r \<Longrightarrow> cl_sendClosed (ss_client (bt_session b)) \<Longrightarrow>
    bot_step cfg unmarshal b (b\<lparr>bt_panic := Some closed_panic\<rparr>)"
| signal: "bot_runs b \<Longrightarrow> \<not> bt_stopping b \<Longrightarrow> bot_step cfg unmarshal b (echo_stop b)"
| exit: "bot_runs b \<Longrightarrow> bt_stopping b \<Longrightarrow> bot_step cfg unmarshal b (b\<lparr>bt_exited := True\<rparr>)"

inductive_cases bot_stepE: "bot_step cfg unmarshal b b'"

definition bot_start :: "'u session \<Rightarrow> 'u bot" where
  "bot_start s = \<lparr>bt_session = s, bt_counter = 0, bt_pc = EWait, bt_stopping = False, bt_exited = False,
     bt_panic = None, bt_out = [''Echo bot is running. Press Ctrl+C to exit.'']\<rparr>"

section \<open>The simple client (simple-client/main.go)\<close>

text \<open>\<open>strings.TrimSpace\<close>: the white space of Unicode in UTF-8, at both ends.\<close>

definition space_seqs :: "string list" where
  "space_seqs = map string_of_bytes
     ([[9], [10], [11], [12], [13], [32], [0xC2, 0x85], [0xC2, 0xA0], [0xE1, 0x9A, 0x80]]
      @ map (\<lambda>b. [0xE2, 0x80, b]) [0x80, 0x81, 0x82, 0x83, 0x84, 0x85, 0x86, 0x87, 0x88, 0x89, 0x8A, 0xA8, 0xA9, 0xAF]
      @ [[0xE2, 0x81, 0x9F], [0xE3, 0x80, 0x80]])"

function trim_front :: "string list \<Rightarrow> string \<Rightarrow> string" where
  "trim_front seqs s =
     (case find (\<lambda>w. w \<noteq> [] \<and> prefix w s) seqs of
        None \<Rightarrow> s
      | Some w \<Rightarrow> trim_front seqs (drop (length w) s))"
  by pat_completeness auto

termination
  by (relation "measure (\<lambda>(seqs, s). length s)") (auto simp: find_Some_iff prefix_def)

declare trim_front.simps [simp del]

definition strings_TrimSpace :: "string \<Rightarrow> string" where
  "strings_TrimSpace s = rev (trim_front (map rev space_seqs) (rev (trim_front space_seqs s)))"

text \<open>\<open>strings.SplitN(line, " ", 2)\<close>\<close>

definition split_at_space :: "string \<Rightarrow> string list" where
  "split_at_space s =
     (let to = takeWhile (\<lambda>c. c \<noteq> CHR '' '') s
      in if length to < length s then [to, drop (Suc (length to)) s] else [s])"

definition usage_text :: string where
  "usage_text = ''Usage: <recipient_pubkey_hex> <message>''"

definition bad_key_text :: string where
  "bad_key_text = ''Invalid recipient pubkey (must be 64 hex chars)''"

text \<open>One turn of \<open>readCommands\<close>: what is printed, what is sent, and the counter.\<close>

definition readCommand :: "64 word \<Rightarrow> string \<Rightarrow> string list \<times> OutgoingMessage list \<times> 64 word" where
  "readCommand n inp =
     (let line = strings_TrimSpace inp in
      if line = '''' then ([], [], n)
      else case split_at_space line of
          to # msg # _ \<Rightarrow>
            if length to \<noteq> 64 then ([bad_key_text], [], n)
            else ([], [\<lparr>om_To = to, om_MsgID = ''msg-'' @ dec_int (sint (n + 1)), om_Payload = bytes_of_string msg\<rparr>], n + 1)
        | _ \<Rightarrow> ([usage_text], [], n))"

fun readCommands :: "64 word \<Rightarrow> string list \<Rightarrow> string list \<times> OutgoingMessage list" where
  "readCommands n [] = ([], [])"
| "readCommands n (inp # inps) =
     (case readCommand n inp of (out, sent, n') \<Rightarrow>
        case readCommands n' inps of (outs, sents) \<Rightarrow> (out @ outs, sent @ sents))"

text \<open>The line printed for a message received.\<close>

definition printMessage :: "Message \<Rightarrow> string res" where
  "printMessage msg =
     (if length (pm_From msg) < 16 then Panic slice_panic16
      else Ok (''['' @ pm_Id msg @ ''] From '' @ short_key (pm_From msg) @ '': '' @ string_of_bytes (pm_Payload msg)))"

text \<open>
  The program: the goroutine that prints what is received, \<open>readCommands\<close> with the lines it has read
  and those to come, and the signal. \<open>sp_pending\<close> is the message that \<open>readCommands\<close> is about to send.
  The end of the input ends \<open>readCommands\<close> and nothing else.
\<close>

record 'u simple =
  sp_session :: "'u session"
  sp_read :: "string list"
  sp_input :: "string list"
  sp_counter :: "64 word"
  sp_pending :: "OutgoingMessage list"
  sp_stopping :: bool
  sp_exited :: bool
  sp_panic :: "string option"
  sp_out :: "string list"

definition simple_runs :: "'u simple \<Rightarrow> bool" where
  "simple_runs s \<longleftrightarrow> \<not> sp_exited s \<and> sp_panic s = None"

definition simple_print :: "Message \<Rightarrow> 'u simple \<Rightarrow> 'u simple" where
  "simple_print m s = (case printMessage m of
     Ok l \<Rightarrow> s\<lparr>sp_out := sp_out s @ [l]\<rparr> | Err e \<Rightarrow> s | Panic p \<Rightarrow> s\<lparr>sp_panic := Some p\<rparr>)"

definition simple_command :: "string \<Rightarrow> string list \<Rightarrow> 'u simple \<Rightarrow> 'u simple" where
  "simple_command inp rest s =
     (case readCommand (sp_counter s) inp of (out, sent, n) \<Rightarrow>
        s\<lparr>sp_read := sp_read s @ [inp], sp_input := rest, sp_counter := n, sp_pending := sent, sp_out := sp_out s @ out\<rparr>)"

definition simple_sent :: "OutgoingMessage \<Rightarrow> 'u simple \<Rightarrow> 'u simple" where
  "simple_sent r s =
     s\<lparr>sp_session := (sp_session s)\<lparr>ss_client := (ss_client (sp_session s))\<lparr>cl_send := cl_send (ss_client (sp_session s)) @ [r]\<rparr>,
                                    ss_pushed := ss_pushed (sp_session s) @ [r]\<rparr>,
       sp_pending := []\<rparr>"

definition simple_stop :: "'u simple \<Rightarrow> 'u simple" where
  "simple_stop s =
     s\<lparr>sp_session := (sp_session s)\<lparr>ss_client := (ss_client (sp_session s))\<lparr>cl_sendClosed := True\<rparr>\<rparr>,
       sp_stopping := True, sp_out := sp_out s @ [CHR 0x0A # ''Shutting down...'']\<rparr>"

inductive simple_step ::
    "('p, 'u) connectConfig \<Rightarrow> (bytes \<Rightarrow> go_error + Message) \<Rightarrow> 'u simple \<Rightarrow> 'u simple \<Rightarrow> bool"
  for cfg unmarshal where
  session: "simple_runs s \<Longrightarrow> client_internal cfg unmarshal (ss_client (sp_session s)) cl \<Longrightarrow>
    simple_step cfg unmarshal s (s\<lparr>sp_session := (sp_session s)\<lparr>ss_client := cl\<rparr>\<rparr>)"
| take: "simple_runs s \<Longrightarrow> cl_recv (ss_client (sp_session s)) = m # ms \<Longrightarrow>
    simple_step cfg unmarshal s (simple_print m (s\<lparr>sp_session := (sp_session s)\<lparr>
      ss_client := (ss_client (sp_session s))\<lparr>cl_recv := ms\<rparr>, ss_got := ss_got (sp_session s) @ [m]\<rparr>\<rparr>))"
| hand_over: "simple_runs s \<Longrightarrow> cl_recv (ss_client (sp_session s)) = [] \<Longrightarrow>
    cl_reader (ss_client (sp_session s)) = RDeliver m \<Longrightarrow>
    simple_step cfg unmarshal s (simple_print m (s\<lparr>sp_session := (sp_session s)\<lparr>
      ss_client := (ss_client (sp_session s))\<lparr>cl_reader := RCheck\<rparr>, ss_got := ss_got (sp_session s) @ [m]\<rparr>\<rparr>))"
| line: "simple_runs s \<Longrightarrow> sp_pending s = [] \<Longrightarrow> sp_input s = inp # rest \<Longrightarrow>
    simple_step cfg unmarshal s (simple_command inp rest s)"
| send: "simple_runs s \<Longrightarrow> sp_pending s = [r] \<Longrightarrow> \<not> cl_sendClosed (ss_client (sp_session s)) \<Longrightarrow>
    length (cl_send (ss_client (sp_session s))) < 100 \<Longrightarrow> simple_step cfg unmarshal s (simple_sent r s)"
| send_closed: "simple_runs s \<Longrightarrow> sp_pending s = [r] \<Longrightarrow> cl_sendClosed (ss_client (sp_session s)) \<Longrightarrow>
    simple_step cfg unmarshal s (s\<lparr>sp_panic := Some closed_panic\<rparr>)"
| signal: "simple_runs s \<Longrightarrow> \<not> sp_stopping s \<Longrightarrow> simple_step cfg unmarshal s (simple_stop s)"
| exit: "simple_runs s \<Longrightarrow> sp_stopping s \<Longrightarrow> simple_step cfg unmarshal s (s\<lparr>sp_exited := True\<rparr>)"

inductive_cases simple_stepE: "simple_step cfg unmarshal s s'"

definition simple_start :: "'u session \<Rightarrow> string list \<Rightarrow> 'u simple" where
  "simple_start ses input = \<lparr>sp_session = ses, sp_read = [], sp_input = input, sp_counter = 0, sp_pending = [],
     sp_stopping = False, sp_exited = False, sp_panic = None,
     sp_out = [''Connected! Press Ctrl+C to exit.'', usage_text, '''']\<rparr>"

section \<open>Applications of the client library\<close>

text \<open>
  What an application that uses a session may rely on. It keeps an invariant of its own, and each of
  its steps is a step of the session or leaves the session alone; then the guarantees of the session
  hold in all of its states.
\<close>

locale session_app =
  fixes init :: "'b \<Rightarrow> bool" and step :: "'b \<Rightarrow> 'b \<Rightarrow> bool" and ses :: "'b \<Rightarrow> 'u session" and app_inv :: "'b \<Rightarrow> bool"
    and cfg :: "('p, 'u) connectConfig" and unmarshal :: "bytes \<Rightarrow> go_error + Message"
    and ms :: "ServerMessage list" and B :: bytes and c :: ccon
  assumes app_init: "init b \<Longrightarrow> app_inv b \<and> incoming cfg ms c (ses b) \<and> outgoing B c (ses b)"
    and app_keeps: "app_inv b \<Longrightarrow> step b b' \<Longrightarrow> app_inv b'"
    and app_session: "app_inv b \<Longrightarrow> step b b' \<Longrightarrow> ses b' = ses b \<or> client_step cfg unmarshal (ses b) (ses b')"

sublocale session_app \<subseteq> inductive_invariant init step
  "\<lambda>b. app_inv b \<and> receiving cfg unmarshal ms (ses b) \<and> sending cfg B (ses b)"
proof (standard, goal_cases)
  case (1 b)
  then show ?case using app_init rs.inv_init sd.inv_init by blast
next
  case (2 b b')
  then have "app_inv b'" using app_keeps by blast
  moreover have "receiving cfg unmarshal ms (ses b') \<and> sending cfg B (ses b')"
    using app_session [of b b'] 2 rs.inv_step [of cfg unmarshal ms "ses b" "ses b'"] sd.inv_step [of cfg B "ses b" unmarshal "ses b'"] by auto
  ultimately show ?case by blast
qed

context session_app
begin

lemma app_invariant: "reachable init step b \<Longrightarrow> app_inv b"
  using inv_reachable by blast

lemma app_received:
  assumes "reachable init step b"
  obtains k where "k \<le> length ms" "ss_got (ses b) @ cl_recv (ss_client (ses b)) = received unmarshal (take k ms)"
  using inv_reachable [OF assms] that by (auto simp: receiving_def read_inv_def Let_def)

lemma app_sent:
  assumes "reachable init step b"
  obtains ts taken where "ss_pushed (ses b) = taken @ cl_send (ss_client (ses b))" "prefix ts taken"
    "\<not> cl_closeOnce (ss_client (ses b)) \<longrightarrow> ts = taken" "wbytes (c_out (cc_conn (cl_con (ss_client (ses b))))) = B @ sent_bytes ts"
  using inv_reachable [OF assms] that by (auto simp: sending_def send_inv_def Let_def)

end

section \<open>The bot answers in order\<close>

fun echoes :: "64 word \<Rightarrow> Message list \<Rightarrow> OutgoingMessage list" where
  "echoes n [] = []"
| "echoes n (m # ms) = echo_reply (n + 1) m # echoes (n + 1) ms"

lemma echoes_snoc: "echoes n (ms @ [m]) = echoes n ms @ [echo_reply (n + of_nat (length ms) + 1) m]"
  by (induction ms arbitrary: n) (simp_all add: add_ac)

text \<open>The reply that the bot is about to send.\<close>

definition pending :: "'u bot \<Rightarrow> OutgoingMessage list" where
  "pending b = (case bt_pc b of ESend r \<Rightarrow> [r] | _ \<Rightarrow> [])"

definition bot_inv :: "'u bot \<Rightarrow> bool" where
  "bot_inv b \<longleftrightarrow>
     (let s = bt_session b in
      (bt_panic b \<noteq> Some slice_panic16 \<longrightarrow>
         ss_pushed s @ pending b = echoes 0 (ss_got s) \<and> bt_counter b = of_nat (length (ss_got s)))
      \<and> prefix (ss_pushed s @ pending b) (echoes 0 (ss_got s))
      \<and> (cl_sendClosed (ss_client s) \<longleftrightarrow> bt_stopping b)
      \<and> (\<forall>p. bt_panic b = Some p \<longrightarrow> p = closed_panic \<and> bt_stopping b
           \<or> p = slice_panic16 \<and> (\<exists>m \<in> set (ss_got s). length (pm_From m) < 16)))"

lemma client_internal_sendClosed:
  "client_internal cfg unmarshal cl cl' \<Longrightarrow> cl_sendClosed cl' = cl_sendClosed cl"
proof (induction rule: client_internal.induct)
  case (decode cl)
  show ?case
    by (rule readDecode_cases [where cl = cl and cfg = cfg and unmarshal = unmarshal]) (simp_all add: readReturn_def)
next
  case (send cl msg rest now)
  obtain r c where "sendMessage cfg now msg (cc_conn (cl_con cl)) = (r, c)" by fastforce
  then show ?case by (rule writeSend_sel(5))
qed (simp_all add: readStart_def readCheck_def readReturn_def readDeliver_def writeEnd_def runLoop_end_def)

text \<open>Every step of the bot is a step of its session or leaves the session alone.\<close>

lemma bot_session_step:
  assumes "bot_step cfg unmarshal b b'" "bot_inv b"
  shows "bt_session b' = bt_session b \<or> client_step cfg unmarshal (bt_session b) (bt_session b')"
  using assms(1)
proof cases
  case (session cl)
  then show ?thesis by (auto intro: client_step.internal)
next
  case (take m ms)
  then have "bt_session b' = (bt_session b)\<lparr>ss_client := (ss_client (bt_session b))\<lparr>cl_recv := ms\<rparr>, ss_got := ss_got (bt_session b) @ [m]\<rparr>"
    by (simp add: echo_handle_def Let_def)
  with client_step.receive [OF take(4), of cfg unmarshal] show ?thesis by simp
next
  case (hand_over m)
  then have "bt_session b' = (bt_session b)\<lparr>ss_client := (ss_client (bt_session b))\<lparr>cl_reader := RCheck\<rparr>, ss_got := ss_got (bt_session b) @ [m]\<rparr>"
    by (simp add: echo_handle_def Let_def)
  with client_step.rendezvous [OF hand_over(4,5), of cfg unmarshal] show ?thesis by simp
next
  case (reply r)
  with client_step.push [OF reply(4), of cfg unmarshal r] show ?thesis by (simp add: echo_sent_def)
next
  case signal
  then have "\<not> cl_sendClosed (ss_client (bt_session b))" using assms(2) by (simp add: bot_inv_def Let_def)
  from client_step.close_send [OF this, of cfg unmarshal] signal show ?thesis by (simp add: echo_stop_def)
qed auto

lemma echo_handle_inv:
  assumes "bot_inv b" "bot_runs b" "bt_pc b = EWait" "cl_sendClosed cl = cl_sendClosed (ss_client (bt_session b))"
  shows "bot_inv (echo_handle m (b\<lparr>bt_session := (bt_session b)\<lparr>ss_client := cl, ss_got := ss_got (bt_session b) @ [m]\<rparr>\<rparr>))"
  using assms
  by (auto simp: bot_inv_def bot_runs_def echo_handle_def pending_def echoes_snoc slice_panic16_def Let_def)

lemma bot_inv_step:
  assumes "bot_inv b" "bot_step cfg unmarshal b b'"
  shows "bot_inv b'"
  using assms(2)
proof cases
  case (session cl)
  with assms(1) client_internal_sendClosed [OF session(3)] show ?thesis by (auto simp: bot_inv_def pending_def Let_def)
next
  case (take m ms)
  with echo_handle_inv [OF assms(1) take(2,3)] show ?thesis by simp
next
  case (hand_over m)
  with echo_handle_inv [OF assms(1) hand_over(2,3)] show ?thesis by simp
next
  case (reply r)
  with assms(1) show ?thesis by (auto simp: bot_inv_def bot_runs_def echo_sent_def pending_def Let_def)
next
  case signal
  with assms(1) show ?thesis by (auto simp: bot_inv_def bot_runs_def echo_stop_def pending_def Let_def)
next
  case (reply_closed r)
  with assms(1) show ?thesis
    by (auto simp: bot_inv_def bot_runs_def pending_def closed_panic_def slice_panic16_def Let_def)
qed (use assms(1) in \<open>auto simp: bot_inv_def bot_runs_def pending_def Let_def\<close>)

text \<open>The bot on a connection that delivers the frames of \<open>ms\<close> and on which \<open>B\<close> was sent.\<close>

definition bot_init :: "('p, 'u) connectConfig \<Rightarrow> ServerMessage list \<Rightarrow> bytes \<Rightarrow> ccon \<Rightarrow> 'u bot \<Rightarrow> bool" where
  "bot_init cfg ms B c b \<longleftrightarrow> (\<exists>s. incoming cfg ms c s \<and> outgoing B c s \<and> b = bot_start s)"

interpretation eb: session_app "bot_init cfg ms B c" "bot_step cfg unmarshal" bt_session bot_inv cfg unmarshal ms B c
proof (standard, goal_cases)
  case (1 b)
  then obtain s where s: "incoming cfg ms c s" "outgoing B c s" "b = bot_start s" by (auto simp: bot_init_def)
  then have "session_init c s" by (simp add: incoming_def fresh_session_def)
  with s show ?case
    by (auto simp: bot_inv_def bot_start_def pending_def session_init_def runLoop_start_def Let_def)
next
  case (2 b b')
  then show ?case by (rule bot_inv_step)
next
  case (3 b b')
  then show ?case by (intro bot_session_step)
qed

section \<open>Commands\<close>

lemma trim_front_clean: "w \<in> set seqs \<Longrightarrow> w \<noteq> [] \<Longrightarrow> \<not> prefix w (trim_front seqs s)"
proof (induction seqs s rule: trim_front.induct)
  case (1 seqs s)
  show ?case
  proof (cases "find (\<lambda>w. w \<noteq> [] \<and> prefix w s) seqs")
    case None
    then have "trim_front seqs s = s" by (simp add: trim_front.simps [of seqs s])
    with None 1(2,3) show ?thesis by (auto simp: find_None_iff)
  next
    case (Some v)
    with 1 show ?thesis by (simp add: trim_front.simps [of seqs s])
  qed
qed

lemma trim_front_id: "(\<And>w. w \<in> set seqs \<Longrightarrow> w \<noteq> [] \<Longrightarrow> \<not> prefix w s) \<Longrightarrow> trim_front seqs s = s"
proof -
  assume "\<And>w. w \<in> set seqs \<Longrightarrow> w \<noteq> [] \<Longrightarrow> \<not> prefix w s"
  then have "find (\<lambda>w. w \<noteq> [] \<and> prefix w s) seqs = None" by (auto simp: find_None_iff)
  then show ?thesis by (simp add: trim_front.simps [of seqs s])
qed

lemma space_in_seqs: "'' '' \<in> set space_seqs"
  by (simp add: space_seqs_def string_of_bytes_def char_of_byte_def char_of_def bit_0)

text \<open>A trimmed line does not end in a space.\<close>

lemma TrimSpace_last: "strings_TrimSpace s \<noteq> u @ '' ''"
proof
  assume "strings_TrimSpace s = u @ '' ''"
  then have "prefix '' '' (trim_front (map rev space_seqs) (rev (trim_front space_seqs s)))"
    by (metis append_Cons append_Nil prefixI rev_append rev_rev_ident rev_singleton_conv singleton_rev_conv strings_TrimSpace_def)
  moreover have "'' '' \<in> set (map rev space_seqs)" using space_in_seqs by (metis image_eqI list.set_map singleton_rev_conv)
  ultimately show False using trim_front_clean by blast
qed

lemma split_at_space_two: "split_at_space s = [to, msg] \<longleftrightarrow> CHR '' '' \<notin> set to \<and> s = to @ '' '' @ msg"
proof
  assume "split_at_space s = [to, msg]"
  then have to: "takeWhile (\<lambda>c. c \<noteq> CHR '' '') s = to" and msg: "length to < length s" "msg = drop (Suc (length to)) s"
    by (auto simp: split_at_space_def Let_def split: if_splits)
  have s: "s = to @ dropWhile (\<lambda>c. c \<noteq> CHR '' '') s" using takeWhile_dropWhile_id [of "\<lambda>c. c \<noteq> CHR '' ''" s] to by simp
  with msg(1) have "dropWhile (\<lambda>c. c \<noteq> CHR '' '') s \<noteq> []" by (metis append_Nil2 less_irrefl)
  then obtain rest where "dropWhile (\<lambda>c. c \<noteq> CHR '' '') s = CHR '' '' # rest"
    using hd_dropWhile [of "\<lambda>c. c \<noteq> CHR '' ''" s] by (cases "dropWhile (\<lambda>c. c \<noteq> CHR '' '') s") auto
  with s have "s = to @ '' '' @ rest" by simp
  moreover have "CHR '' '' \<notin> set to" using to set_takeWhileD by fastforce
  ultimately show "CHR '' '' \<notin> set to \<and> s = to @ '' '' @ msg" using msg(2) by simp
next
  assume "CHR '' '' \<notin> set to \<and> s = to @ '' '' @ msg"
  then show "split_at_space s = [to, msg]"
    by (auto simp: split_at_space_def takeWhile_append takeWhile_eq_all_conv Let_def)
qed

lemma split_at_space_cases:
  obtains (one) "split_at_space s = [s]" | (two) to msg where "split_at_space s = [to, msg]"
  by (cases "length (takeWhile (\<lambda>c. c \<noteq> CHR '' '') s) < length s") (simp_all add: split_at_space_def Let_def)

section \<open>Properties\<close>

lemma received_take: "set (received unmarshal (take k ms)) \<subseteq> set (received unmarshal ms)"
  by (auto simp: received_def dest: in_set_takeD)

lemma echoes_append: "prefix (echoes n ms) (echoes n (ms @ ms'))"
  by (induction ms arbitrary: n) simp_all


text \<open>A run in which a message arrives and the signal comes before its reply is in the channel.\<close>

definition ex_echo_unm :: "bytes \<Rightarrow> go_error + Message" where
  "ex_echo_unm d = Inr (new_Message\<lparr>pm_From := replicate 64 CHR ''a'', pm_Payload := d\<rparr>)"

definition ex_echo_msg :: Message where
  "ex_echo_msg = new_Message\<lparr>pm_From := replicate 64 CHR ''a'', pm_Payload := [7]\<rparr>"

definition ex_echo_at :: "go_error list client \<Rightarrow> go_error list bot" where
  "ex_echo_at cl = bot_start (ex_session\<lparr>ss_client := cl\<rparr>)"

definition ex_echo_cl :: "go_error list client" where
  "ex_echo_cl = readDecode ex_ccfg ex_echo_unm (readCheck ex_ccfg (readStart (ss_client ex_session)))"

definition ex_echo_taken :: "go_error list bot" where
  "ex_echo_taken = echo_handle ex_echo_msg ((ex_echo_at ex_echo_cl)\<lparr>bt_session := ex_session\<lparr>
     ss_client := ex_echo_cl\<lparr>cl_reader := RCheck\<rparr>, ss_got := [ex_echo_msg]\<rparr>\<rparr>)"

lemma ex_echo_step:
  assumes "reachable init (bot_step ex_ccfg ex_echo_unm) (ex_echo_at cl)" "client_internal ex_ccfg ex_echo_unm cl cl'"
  shows "reachable init (bot_step ex_ccfg ex_echo_unm) (ex_echo_at cl')"
proof -
  have "bot_step ex_ccfg ex_echo_unm (ex_echo_at cl) (ex_echo_at cl')"
    using bot_step.session [of "ex_echo_at cl" ex_ccfg ex_echo_unm cl'] assms(2)
    by (simp add: ex_echo_at_def bot_start_def bot_runs_def)
  with assms(1) show ?thesis by (rule reachable_step)
qed

lemma ex_echo_decoded: "cl_reader ex_echo_cl = RDeliver ex_echo_msg" "cl_recv ex_echo_cl = []"
proof -
  let ?cl = "readCheck ex_ccfg (readStart (ss_client ex_session))"
  have cl: "cl_con ?cl = ex_ccon" "cl_recv ?cl = []"
    by (simp_all add: readCheck_def readStart_def ex_session_def runLoop_start_def ex_ccon_def NewReader_def)
  have "wf_ServerMessage ex_server_msg" by (simp add: wf_ServerMessage_def ex_server_msg_def sizes)
  with smsg.dec_wire [of ex_server_msg "[]" io_EOF]
  have "DecodeServerMessage buf_ReadFull (cc_abs ex_ccon) = (Ok ex_server_msg, ([], io_EOF))"
    by (simp add: cc_abs_def ex_ccon_def NewReader_def ex_cconn_def nc_content_def)
  from refines_Ok [OF cc_src.DecodeServerMessage_refines this]
  obtain c where "DecodeServerMessage cc_ReadFull (cl_con ?cl) = (Ok ex_server_msg, c)" unfolding cl(1) by blast
  then have eq: "ex_echo_cl = ?cl\<lparr>cl_con := c, cl_reader := RDeliver ex_echo_msg\<rparr>"
    by (simp add: ex_echo_cl_def readDecode_def ex_echo_unm_def ex_echo_msg_def ex_server_msg_def)
  show "cl_reader ex_echo_cl = RDeliver ex_echo_msg" by (simp add: eq)
  show "cl_recv ex_echo_cl = []" by (simp add: eq cl(2))
qed

lemma ex_echo_reach:
  "reachable (bot_init ex_ccfg [ex_server_msg] [] ex_ccon) (bot_step ex_ccfg ex_echo_unm) ex_echo_taken"
proof -
  let ?R = "reachable (bot_init ex_ccfg [ex_server_msg] [] ex_ccon) (bot_step ex_ccfg ex_echo_unm)"
  let ?c0 = "ss_client ex_session"
  have "ex_echo_at ?c0 = bot_start ex_session" by (simp add: ex_echo_at_def)
  then have "?R (ex_echo_at ?c0)"
    using ex_session_incoming ex_session_outgoing
    by (intro reachable_init) (auto simp: bot_init_def)
  moreover have "client_internal ex_ccfg ex_echo_unm ?c0 (readStart ?c0)"
    by (rule client_internal.start) (simp add: ex_session_def runLoop_start_def)
  ultimately have 1: "?R (ex_echo_at (readStart ?c0))" by (rule ex_echo_step)
  have "client_internal ex_ccfg ex_echo_unm (readStart ?c0) (readCheck ex_ccfg (readStart ?c0))"
    by (rule client_internal.check) (simp add: readStart_def)
  with 1 have 2: "?R (ex_echo_at (readCheck ex_ccfg (readStart ?c0)))" by (rule ex_echo_step)
  have "client_internal ex_ccfg ex_echo_unm (readCheck ex_ccfg (readStart ?c0)) ex_echo_cl"
    unfolding ex_echo_cl_def
    by (rule client_internal.decode) (simp add: readCheck_def readStart_def ex_session_def runLoop_start_def)
  with 2 have 3: "?R (ex_echo_at ex_echo_cl)" by (rule ex_echo_step)
  from ex_echo_decoded have "bot_step ex_ccfg ex_echo_unm (ex_echo_at ex_echo_cl) ex_echo_taken"
    using bot_step.hand_over [of "ex_echo_at ex_echo_cl" ex_echo_msg ex_ccfg ex_echo_unm]
    by (simp add: ex_echo_at_def ex_echo_taken_def bot_start_def bot_runs_def ex_session_def)
  with 3 show ?thesis by (rule reachable_step)
qed


text \<open>The bot that is stopped while it has a reply to send may crash.\<close>

lemma echo_bot_can_crash:
  "\<exists>b. reachable (bot_init ex_ccfg [ex_server_msg] [] ex_ccon) (bot_step ex_ccfg ex_echo_unm) b \<and> bt_panic b = Some closed_panic"
proof -
  let ?b = "echo_stop ex_echo_taken"
  have t: "bot_runs ex_echo_taken" "\<not> bt_stopping ex_echo_taken" "bt_pc ex_echo_taken = ESend (echo_reply 1 ex_echo_msg)"
    by (simp_all add: ex_echo_taken_def echo_handle_def ex_echo_msg_def ex_echo_at_def bot_start_def bot_runs_def Let_def)
  have "reachable (bot_init ex_ccfg [ex_server_msg] [] ex_ccon) (bot_step ex_ccfg ex_echo_unm) ?b"
    using ex_echo_reach bot_step.signal [OF t(1,2)] by (rule reachable_step)
  moreover have "bot_step ex_ccfg ex_echo_unm ?b (?b\<lparr>bt_panic := Some closed_panic\<rparr>)"
    using t by (intro bot_step.reply_closed) (simp_all add: echo_stop_def bot_runs_def)
  ultimately show ?thesis using reachable_step by fastforce
qed

text \<open>Exactly which lines are sent: the first word, which has 64 characters, is the recipient and the rest, never empty, the text.\<close>

lemma readCommand_iff:
  "m \<in> set (fst (snd (readCommand n inp))) \<longleftrightarrow>
     (\<exists>to msg. strings_TrimSpace inp = to @ '' '' @ msg \<and> CHR '' '' \<notin> set to \<and> length to = 64 \<and> msg \<noteq> []
        \<and> m = \<lparr>om_To = to, om_MsgID = ''msg-'' @ dec_int (sint (n + 1)), om_Payload = bytes_of_string msg\<rparr>)"
proof (cases rule: split_at_space_cases [of "strings_TrimSpace inp"])
  case one
  then have "strings_TrimSpace inp \<noteq> to @ '' '' @ msg" if "CHR '' '' \<notin> set to" for to msg
    using that split_at_space_two [of "strings_TrimSpace inp" to msg] by auto
  with one show ?thesis by (auto simp: readCommand_def Let_def)
next
  case (two to msg)
  note t = two [unfolded split_at_space_two]
  have "msg \<noteq> []" using TrimSpace_last [of inp to] t by auto
  moreover have "to' = to \<and> msg' = msg" if "CHR '' '' \<notin> set to'" "strings_TrimSpace inp = to' @ '' '' @ msg'" for to' msg'
    using two split_at_space_two [of "strings_TrimSpace inp" to' msg'] that by simp
  moreover have "strings_TrimSpace inp \<noteq> []" using t by simp
  ultimately show ?thesis using two t by (auto simp: readCommand_def Let_def)
qed

section \<open>Typing commands\<close>

text \<open>A visible character of ASCII.\<close>

definition plain :: "char \<Rightarrow> bool" where
  "plain c \<longleftrightarrow> 33 \<le> (of_char c :: nat) \<and> (of_char c :: nat) \<le> 126"

lemma space_seqs_ends:
  "w \<in> set space_seqs \<Longrightarrow> w \<noteq> [] \<and> \<not> plain (hd w) \<and> \<not> plain (last w)
     \<and> (hd w = CHR '' '' \<longrightarrow> w = '' '') \<and> (last w = CHR '' '' \<longrightarrow> w = '' '')"
proof -
  have "list_all (\<lambda>w. w \<noteq> [] \<and> \<not> plain (hd w) \<and> \<not> plain (last w)
     \<and> (hd w = CHR '' '' \<longrightarrow> w = '' '') \<and> (last w = CHR '' '' \<longrightarrow> w = '' '')) space_seqs"
    by code_simp
  then show "w \<in> set space_seqs \<Longrightarrow> w \<noteq> [] \<and> \<not> plain (hd w) \<and> \<not> plain (last w)
     \<and> (hd w = CHR '' '' \<longrightarrow> w = '' '') \<and> (last w = CHR '' '' \<longrightarrow> w = '' '')"
    by (simp add: list_all_iff)
qed

lemma trim_front_space:
  assumes "'' '' \<in> set seqs" "\<And>w. w \<in> set seqs \<Longrightarrow> hd w = CHR '' '' \<Longrightarrow> w = '' ''"
  shows "trim_front seqs (CHR '' '' # s) = trim_front seqs s"
proof -
  let ?P = "\<lambda>w. w \<noteq> [] \<and> prefix w (CHR '' '' # s)"
  have w: "w = '' ''" if "w \<in> set seqs" "?P w" for w
    using assms(2) [OF that(1)] that(2) by (cases w rule: list.exhaust) simp_all
  have "find ?P seqs \<noteq> None" using assms(1) by (auto simp: find_None_iff)
  then obtain v where "find ?P seqs = Some v" by blast
  moreover from this have "v = '' ''" using w by (auto simp: find_Some_iff)
  ultimately show ?thesis by (simp add: trim_front.simps [of seqs "CHR '' '' # s"])
qed

lemma trim_front_spaces:
  assumes "'' '' \<in> set seqs" "\<And>w. w \<in> set seqs \<Longrightarrow> w \<noteq> [] \<and> \<not> plain (hd w) \<and> (hd w = CHR '' '' \<longrightarrow> w = '' '')"
    "s \<noteq> []" "plain (hd s)"
  shows "trim_front seqs (replicate i CHR '' '' @ s) = s"
proof (induction i)
  case 0
  have "\<not> prefix w s" if "w \<in> set seqs" for w
    using assms(2) [OF that] assms(3,4) by (cases w rule: list.exhaust; cases s rule: list.exhaust) auto
  then show ?case by (simp add: trim_front_id)
next
  case (Suc i)
  have "trim_front seqs (CHR '' '' # replicate i CHR '' '' @ s) = trim_front seqs (replicate i CHR '' '' @ s)"
    using assms(1) by (rule trim_front_space) (use assms(2) in blast)
  with Suc show ?case by simp
qed

lemma TrimSpace_padded:
  assumes "s \<noteq> []" "plain (hd s)" "plain (last s)"
  shows "strings_TrimSpace (replicate i CHR '' '' @ s @ replicate j CHR '' '') = s"
proof -
  have "trim_front space_seqs (replicate i CHR '' '' @ (s @ replicate j CHR '' '')) = s @ replicate j CHR '' ''"
  proof (rule trim_front_spaces)
    show "w \<noteq> [] \<and> \<not> plain (hd w) \<and> (hd w = CHR '' '' \<longrightarrow> w = '' '')" if "w \<in> set space_seqs" for w
      using space_seqs_ends [OF that] by blast
  qed (use assms space_in_seqs in simp_all)
  moreover have "trim_front (map rev space_seqs) (replicate j CHR '' '' @ rev s) = rev s"
  proof (rule trim_front_spaces)
    have "rev '' '' \<in> rev ` set space_seqs" using space_in_seqs by (rule imageI)
    then show "'' '' \<in> set (map rev space_seqs)" by simp
    show "w \<noteq> [] \<and> \<not> plain (hd w) \<and> (hd w = CHR '' '' \<longrightarrow> w = '' '')" if "w \<in> set (map rev space_seqs)" for w
    proof -
      from that obtain v where v: "v \<in> set space_seqs" "w = rev v" by auto
      with space_seqs_ends [OF v(1)] show ?thesis by (auto simp: hd_rev)
    qed
  qed (use assms in \<open>simp_all add: hd_rev\<close>)
  ultimately show ?thesis by (simp add: strings_TrimSpace_def)
qed

text \<open>A command as it may be typed, with spaces around it, and the messages for a list of commands.\<close>

definition typed :: "string \<Rightarrow> string \<times> string \<Rightarrow> bool" where
  "typed inp = (\<lambda>(to, msg). length to = 64 \<and> list_all plain to \<and> msg \<noteq> [] \<and> plain (last msg)
     \<and> (\<exists>i j. inp = replicate i CHR '' '' @ (to @ '' '' @ msg) @ replicate j CHR '' ''))"

fun numbered :: "64 word \<Rightarrow> (string \<times> string) list \<Rightarrow> OutgoingMessage list" where
  "numbered n [] = []"
| "numbered n ((to, msg) # cmds) =
     \<lparr>om_To = to, om_MsgID = ''msg-'' @ dec_int (sint (n + 1)), om_Payload = bytes_of_string msg\<rparr> # numbered (n + 1) cmds"

lemma readCommand_typed:
  assumes "typed inp (to, msg)"
  shows "readCommand n inp = ([], [\<lparr>om_To = to, om_MsgID = ''msg-'' @ dec_int (sint (n + 1)), om_Payload = bytes_of_string msg\<rparr>], n + 1)"
proof -
  from assms obtain i j where t: "inp = replicate i CHR '' '' @ (to @ '' '' @ msg) @ replicate j CHR '' ''"
    and to: "length to = 64" "list_all plain to" and msg: "msg \<noteq> []" "plain (last msg)" by (auto simp: typed_def)
  have "plain (hd (to @ '' '' @ msg))" "plain (last (to @ '' '' @ msg))" using to msg by (cases to; simp)+
  then have "strings_TrimSpace inp = to @ '' '' @ msg" unfolding t by (intro TrimSpace_padded) auto
  moreover have "CHR '' '' \<notin> set to" using to(2) by (auto simp: list_all_iff plain_def)
  then have "split_at_space (to @ '' '' @ msg) = [to, msg]" by (simp add: split_at_space_two)
  ultimately show ?thesis using to(1) by (simp add: readCommand_def)
qed

lemma readCommands_typed:
  assumes "list_all2 typed inps cmds"
  shows "readCommands n inps = ([], numbered n cmds)"
  using assms
proof (induction inps arbitrary: cmds n)
  case (Cons inp inps)
  then obtain to msg cmds' where c: "cmds = (to, msg) # cmds'" "typed inp (to, msg)" "list_all2 typed inps cmds'"
    by (auto simp: list_all2_Cons1)
  with Cons.IH [of cmds' "n + 1"] readCommand_typed [OF c(2), of n] show ?case by simp
qed simp

section \<open>The simple client sends what is typed\<close>

fun counter_after :: "64 word \<Rightarrow> string list \<Rightarrow> 64 word" where
  "counter_after n [] = n"
| "counter_after n (inp # inps) = counter_after (snd (snd (readCommand n inp))) inps"

lemma readCommands_snoc:
  "snd (readCommands n (inps @ [inp])) = snd (readCommands n inps) @ fst (snd (readCommand (counter_after n inps) inp))"
  "counter_after n (inps @ [inp]) = snd (snd (readCommand (counter_after n inps) inp))"
  by (induction inps arbitrary: n) (simp_all add: case_prod_beta)

definition simple_inv :: "string list \<Rightarrow> 'u simple \<Rightarrow> bool" where
  "simple_inv input s \<longleftrightarrow> sp_read s @ sp_input s = input
     \<and> ss_pushed (sp_session s) @ sp_pending s = snd (readCommands 0 (sp_read s))
     \<and> sp_counter s = counter_after 0 (sp_read s)
     \<and> (cl_sendClosed (ss_client (sp_session s)) \<longleftrightarrow> sp_stopping s)"

lemma simple_print_sel [simp]:
  "sp_session (simple_print m s) = sp_session s" "sp_read (simple_print m s) = sp_read s"
  "sp_input (simple_print m s) = sp_input s" "sp_counter (simple_print m s) = sp_counter s"
  "sp_pending (simple_print m s) = sp_pending s" "sp_stopping (simple_print m s) = sp_stopping s"
  by (simp_all add: simple_print_def split: res.split)

lemma simple_inv_step:
  assumes "simple_inv input s" "simple_step cfg unmarshal s s'"
  shows "simple_inv input s'"
  using assms(2)
proof cases
  case (session cl)
  with assms(1) client_internal_sendClosed [OF session(3)] show ?thesis by (simp add: simple_inv_def)
next
  case (take m ms)
  with assms(1) show ?thesis by (simp add: simple_inv_def)
next
  case (hand_over m)
  with assms(1) show ?thesis by (simp add: simple_inv_def)
next
  case (line inp rest)
  with assms(1) show ?thesis
    by (auto simp: simple_inv_def simple_command_def readCommands_snoc split: prod.splits)
qed (use assms(1) in \<open>auto simp: simple_inv_def simple_sent_def simple_stop_def\<close>)

lemma simple_session_step:
  assumes "simple_inv input s" "simple_step cfg unmarshal s s'"
  shows "sp_session s' = sp_session s \<or> client_step cfg unmarshal (sp_session s) (sp_session s')"
  using assms(2)
proof cases
  case (session cl)
  then show ?thesis by (auto intro: client_step.internal)
next
  case (take m ms)
  with client_step.receive [OF take(3), of cfg unmarshal] show ?thesis by simp
next
  case (hand_over m)
  with client_step.rendezvous [OF hand_over(3,4), of cfg unmarshal] show ?thesis by simp
next
  case (line inp rest)
  then show ?thesis by (simp add: simple_command_def split: prod.splits)
next
  case (send r)
  with client_step.push [OF send(4), of cfg unmarshal r] show ?thesis by (simp add: simple_sent_def)
next
  case signal
  then have "\<not> cl_sendClosed (ss_client (sp_session s))" using assms(1) by (simp add: simple_inv_def)
  from client_step.close_send [OF this, of cfg unmarshal] signal show ?thesis by (simp add: simple_stop_def)
qed auto

definition simple_init ::
    "('p, 'u) connectConfig \<Rightarrow> ServerMessage list \<Rightarrow> bytes \<Rightarrow> ccon \<Rightarrow> string list \<Rightarrow> 'u simple \<Rightarrow> bool" where
  "simple_init cfg ms B c input s \<longleftrightarrow> (\<exists>ses. incoming cfg ms c ses \<and> outgoing B c ses \<and> s = simple_start ses input)"

interpretation sp: session_app "simple_init cfg ms B c input" "simple_step cfg unmarshal" sp_session "simple_inv input"
  cfg unmarshal ms B c
proof (standard, goal_cases)
  case (1 s)
  then obtain ses where s: "incoming cfg ms c ses" "outgoing B c ses" "s = simple_start ses input" by (auto simp: simple_init_def)
  then have "session_init c ses" by (simp add: incoming_def fresh_session_def)
  with s show ?case by (auto simp: simple_inv_def simple_start_def session_init_def runLoop_start_def)
next
  case (2 s s')
  then show ?case by (rule simple_inv_step)
next
  case (3 s s')
  then show ?case by (rule simple_session_step)
qed

lemma numbered_prefix: "list_all2 typed inps cmds \<Longrightarrow> rd @ rest = inps \<Longrightarrow>
  snd (readCommands n rd) = numbered n (take (length rd) cmds)"
  by (metis append_eq_conv_conj list_all2_takeI readCommands_typed snd_conv)

text \<open>C13: what is typed is sent. Take commands of 64 visible characters, a space and a text that ends
  in a visible character, with any number of spaces around each. In every interleaving of
  \<open>readCommands\<close>, the goroutine that prints, the session and the signal, the bytes sent after those of
  the handshake are the whole frames of messages with exactly those recipients and texts, in the order
  of the lines, each once and numbered from one: a prefix of the commands read so far, and all of
  them when the session is open and nothing is queued.\<close>
theorem simple_client_sends:
  assumes "reachable (simple_init cfg ms B c inps) (simple_step cfg unmarshal) s" "list_all2 typed inps cmds"
  shows "let cl = ss_client (sp_session s); cmds' = take (length (sp_read s)) cmds in
    (\<exists>ts. wbytes (c_out (cc_conn (cl_con cl))) = B @ sent_bytes ts \<and> prefix ts (numbered 0 cmds')
       \<and> (\<not> cl_closeOnce cl \<and> sp_pending s = [] \<and> cl_send cl = [] \<longrightarrow> ts = numbered 0 cmds'))"
proof -
  let ?s = "sp_session s"
  let ?cl = "ss_client ?s"
  have inv: "simple_inv inps s" using assms(1) by (rule sp.app_invariant)
  from assms(1) obtain ts taken where ts: "ss_pushed ?s = taken @ cl_send ?cl" "prefix ts taken"
    "\<not> cl_closeOnce ?cl \<longrightarrow> ts = taken" "wbytes (c_out (cc_conn (cl_con ?cl))) = B @ sent_bytes ts"
    by (rule sp.app_sent)
  have "snd (readCommands 0 (sp_read s)) = numbered 0 (take (length (sp_read s)) cmds)"
    using assms(2) inv by (intro numbered_prefix) (auto simp: simple_inv_def)
  then have "taken @ cl_send ?cl @ sp_pending s = numbered 0 (take (length (sp_read s)) cmds)"
    using inv ts(1) by (simp add: simple_inv_def)
  with ts(2-4) show ?thesis unfolding Let_def by (metis append_Nil2 prefix_prefix)
qed

text \<open>A line is read and its message is in the channel.\<close>

definition ex_line :: string where
  "ex_line = replicate 64 CHR ''a'' @ '' hi there  ''"

definition ex_simple_sent :: "go_error list simple" where
  "ex_simple_sent = simple_sent \<lparr>om_To = replicate 64 CHR ''a'', om_MsgID = ''msg-'' @ dec_int (sint (1 :: 64 word)), om_Payload = bytes_of_string ''hi there''\<rparr>
     (simple_command ex_line [] (simple_start ex_session [ex_line]))"

lemma ex_line_typed: "typed ex_line (replicate 64 CHR ''a'', ''hi there'')"
  unfolding typed_def prod.case
proof (intro conjI exI)
  show "ex_line = replicate 0 CHR '' '' @ (replicate 64 CHR ''a'' @ '' '' @ ''hi there'') @ replicate 2 CHR '' ''"
    by code_simp
qed (simp_all add: plain_def list_all_iff)

theorem simple_client_sends_witness:
  "\<exists>ts. wbytes (c_out (cc_conn (cl_con (ss_client (sp_session ex_simple_sent))))) = sent_bytes ts
     \<and> prefix ts (numbered 0 [(replicate 64 CHR ''a'', ''hi there'')])"
proof -
  let ?R = "reachable (simple_init ex_ccfg [ex_server_msg] [] ex_ccon [ex_line]) (simple_step ex_ccfg ex_unm)"
  let ?s0 = "simple_start ex_session [ex_line]"
  let ?s1 = "simple_command ex_line [] ?s0"
  have c: "readCommand 0 ex_line = ([], [\<lparr>om_To = replicate 64 CHR ''a'', om_MsgID = ''msg-'' @ dec_int (sint (1 :: 64 word)),
      om_Payload = bytes_of_string ''hi there''\<rparr>], 1)"
    using readCommand_typed [OF ex_line_typed, of 0] by simp
  have "?R ?s0"
    using ex_session_incoming ex_session_outgoing by (intro reachable_init) (auto simp: simple_init_def)
  moreover have "simple_step ex_ccfg ex_unm ?s0 ?s1"
    by (rule simple_step.line) (simp_all add: simple_start_def simple_runs_def)
  ultimately have "?R ?s1" by (rule reachable_step)
  moreover have "simple_step ex_ccfg ex_unm ?s1 ex_simple_sent"
    unfolding ex_simple_sent_def using c
    by (intro simple_step.send)
       (simp_all add: simple_command_def simple_start_def simple_runs_def ex_session_def runLoop_start_def)
  ultimately have r: "?R ex_simple_sent" by (rule reachable_step)
  have t: "list_all2 typed [ex_line] [(replicate 64 CHR ''a'', ''hi there'')]" using ex_line_typed by simp
  have "length (sp_read ex_simple_sent) = 1"
    using c by (simp add: ex_simple_sent_def simple_sent_def simple_command_def simple_start_def)
  with simple_client_sends [OF r t] show ?thesis by (auto simp: Let_def)
qed

section \<open>Connecting\<close>

text \<open>The options of the programs: the server's certificate is checked unless the user asked otherwise.\<close>

lemma example_opts_config:
  "applyOptions (example_opts onError keys insecure caCert) k =
     (default_connectConfig k)\<lparr>cf_keys := Some keys, cf_onError := Some onError, cf_insecureSkipVerify := insecure,
       cf_caCertPaths := (if caCert = '''' then [] else [caCert])\<rparr>"
  by (simp add: applyOptions_def example_opts_def default_connectConfig_def WithKeys_def WithOnError_def
      WithInsecureSkipVerify_def WithCACertFile_def)

lemma simple_connect_eq: "simple_connect = echo_connect"
  by (simp add: fun_eq_iff simple_connect_def echo_connect_def)

end
