(* ===== verification/Spec2Isabelle.thy ===== *)
theory Spec2Isabelle
  imports Protocol Router_Auth Router_Message Peer Broker Identity Appdir Config Router Server Client Client_Loop Test_Env Examples
begin

text \<open>
  \<^bold>\<open>A verification of sprut\<close>, a message router in Go. Clients hold Ed25519 keys; they connect to the
  server over TLS, prove the possession of their key in a challenge-response handshake bound to the
  TLS connection, and then send messages to each other by public key. Servers share a NATS broker:
  a message is published on the subject of its recipient, and the server to which the recipient is
  connected has a subscription for it. The development models the wire protocol, the server, the
  client library and the start-up code, and proves what each part promises and how they fit together.

  \<^bold>\<open>Foundations.\<close>
  \<^item> \<open>Go_Prelude\<close>: bytes, errors with \<open>errors.Is\<close>, results (value, error, panic), a state-passing monad for
    Go code with error wrapping and \<open>defer\<close>, big-endian integers on machine words, slices and \<open>copy\<close>.
    Four ways to compose properties of monadic code, each with its collection of closure rules:
    \<open>refines\<close> (functional refinement), \<open>safe\<close> (an invariant and no panic), \<open>keeps\<close> (a part of the state is
    not changed) and \<open>stable\<close> (a property of the state is not destroyed). Reachable states of a step
    relation and the locales \<open>inductive_invariant\<close> and \<open>step_guarantee\<close>.
  \<^item> \<open>Go_IO\<close>: readers and writers. The locale \<open>io_reader\<close> is the contract of \<open>Read\<close>, the locale \<open>byte_source\<close> that
    of \<open>io.ReadFull\<close>; byte buffers, connections that deliver records, and \<open>bufio.Reader\<close> are interpretations.
    A \<open>netconn\<close> is a \<open>net.Conn\<close>: the records it will still deliver and the error after them, the writes
    made and the outcome of those to come, deadlines, whether it is closed, the TLS state.
    What a connection will deliver is part of its state, so that a blocked read is a read that
    happens later; failures of writes and of setting deadlines are scripted the same way.
    \<open>ReadFull\<close> is a loop with fuel, as many calls as there are records and bytes wanted; the lemma
    \<open>ReadLoop_spec\<close> shows that this is enough, so that the loop always ends.
  \<^item> \<open>Go_FS\<close>: \<open>path/filepath\<close> on Unix and the files of \<open>os\<close>, with faults.

  \<^bold>\<open>Wire protocol\<close> (\<open>Protocol\<close>; \<open>src/pkg/protocol\<close>). Constants, errors, every encoder and decoder, the data
  that is signed, the channel binding. The locale \<open>wire_codec\<close> states what a self-delimiting format
  promises (what is encoded is decoded, whatever follows); its six interpretations are the four handshake and the two data
  messages. Decoders are shown once on byte buffers and carried to every \<open>byte_source\<close> by refinement.

  \<^bold>\<open>Server.\<close>
  \<^item> \<open>Router_Auth\<close> (\<open>src/pkg/router/auth.go\<close>): the handshake in its preallocated buffer. It succeeds exactly on
    a hello and a fresh, correctly signed response; no input makes it panic or spoil the buffer.
  \<^item> \<open>Broker\<close> (\<open>src/pkg/broker\<close>): connection, publisher, subscriptions, over the interface of the NATS library.
  \<^item> \<open>Router_Message\<close> (\<open>src/pkg/router/message.go\<close>, the message type of \<open>src/pkg/message\<close>): one call of
    \<open>handleMessage\<close> with its buffer pools: what is accepted, what is published, and for whom.
  \<^item> \<open>Peer\<close> (\<open>src/pkg/router/peer.go\<close>): the queue, the write loop, deadlines and closing of a client, and
    all interleavings of its goroutines as a step relation.
  \<^item> \<open>Router\<close> (\<open>src/pkg/router/router.go\<close>, \<open>tls.go\<close>): set-up, accept loop, handlers of connections. A handler is a program counter
    with its data; each of its atomic actions is a function on the state of the router, \<open>router_step\<close>
    interleaves them. The invariant \<open>router_inv\<close> gives the connection limit, the absence of panics and
    the authenticity of all peers.
  \<^item> \<open>Server\<close> (\<open>Run\<close> and \<open>Serve\<close> of \<open>router.go\<close>, \<open>src/cmd/sprut/main.go\<close>): the life of the server from the flags
    to its exit: start, shutdown, what is released, logging.
  \<^item> \<open>Config\<close> (\<open>src/pkg/config\<close>), \<open>Appdir\<close> (\<open>src/internal/appdir\<close>), \<open>Identity\<close> (\<open>src/pkg/identity\<close>): settings and
    their validation, the application directory with its default files, key files.

  \<^bold>\<open>Client library\<close> (\<open>src/pkg/client\<close>).
  \<^item> \<open>Client\<close>: options, TLS configuration, the client's side of the handshake over a \<open>bufio.Reader\<close>,
    \<open>Connect\<close>.
  \<^item> \<open>Client_Loop\<close>: the session: read loop, write loop and \<open>runLoop\<close>, interleaved with an application that
    sends, receives and ends the session. Messages arrive in order and once, frames are sent whole
    and in order, closing happens once and ends within a bounded number of steps.

  \<^bold>\<open>Around the library.\<close>
  \<^item> \<open>Test_Env\<close> (\<open>src/pkg/testsprut\<close>): temporary certificates, the NATS container, \<open>Start\<close> and \<open>Close\<close> over the
    router of \<open>Server\<close>, test clients over \<open>Client\<close>. A start that fails anywhere releases what it took, and
    \<open>Close\<close> restores the state before \<open>Start\<close>; the rules for \<open>undone\<close> carry this through the failure paths.
  \<^item> \<open>Examples\<close> (\<open>src/examples\<close>): the echo bot and the simple client as programs interleaved with their
    session. The locale \<open>session_app\<close> states what any application of the client library may rely on and is
    interpreted for both; the bytes they send are those of the replies and of the typed commands.

  \<^bold>\<open>Across the parts\<close> (this theory). \<open>handshake_completes\<close> runs both sides of the handshake against each
  other; \<open>message_end_to_end\<close> follows a message from the application of the sender to the broker,
  \<open>peer_to_application\<close> from the broker to the application of the recipient;
  \<open>oversized_envelope_disconnects\<close> shows that the size limits of the two directions do not fit together.

  \<^bold>\<open>What is assumed.\<close> Code outside the repository is an argument of the definitions: the NATS client, protobuf
  (\<open>marshal\<close>, \<open>unmarshal\<close>), YAML, the rate limiter, the container library, X.509 and key generation, Ed25519, the TLS exporter,
  randomness and the clock. Theorems name what they need of it, for example that a signature made
  with a private key verifies under its public key, or that decoding inverts encoding. A goroutine's
  step from one synchronisation to the next is atomic; \<open>sync.Once\<close>, \<open>sync.Map\<close>, \<open>sync.Pool\<close> and channels
  have their documented meaning. Integers are machine words where the code computes with them (lengths,
  timestamps), otherwise mathematical; times and durations are integers in nanoseconds.

  \<^bold>\<open>Not modelled.\<close> Log output and the profiling server, which have no effect on the rest; the
  generated descriptor code of \<open>message.pb.go\<close>, which is reflection data for the protobuf runtime;
  TCP options; the flags and the line scanner of the example programs, whose results are inputs of the
  model.
\<close>

section \<open>The handshake between the two programs\<close>

text \<open>What the laws of Ed25519 promise for one key pair: signatures have their size and verify.\<close>

definition signs_for :: "(bytes \<Rightarrow> bytes \<Rightarrow> bytes) \<Rightarrow> (bytes \<Rightarrow> bytes \<Rightarrow> bytes \<Rightarrow> bool) \<Rightarrow> KeyPair \<Rightarrow> bool" where
  "signs_for ed_sign ed_verify keys \<longleftrightarrow> length (kp_PublicKey keys) = PublicKeySize
     \<and> (\<forall>d. length (ed_sign (kp_PrivateKey keys) d) = SignatureSize
          \<and> ed_verify (kp_PublicKey keys) d (ed_sign (kp_PrivateKey keys) d))"

lemma client_sig_verifies:
  assumes "signs_for ed_sign (ae_verify E) keys" "auth_fresh E ttl"
  shows "auth_accepts E ttl chal sid cb
    (wire_ClientHello \<lparr>PubKey = kp_PublicKey keys\<rparr>
       @ wire_ClientResponse \<lparr>Signature = client_sig ed_sign keys cb (challenge_of E chal sid)\<rparr> @ rest)
    (kp_PublicKey keys) (client_sig ed_sign keys cb (challenge_of E chal sid)) rest"
  using assms
  by (simp add: auth_accepts_def signs_for_def client_sig_def challenge_of_def Sign_def copy_at_def)

text \<open>
  A run of the handshake: the client and the server on the two ends of one connection, which has
  the same channel binding on both; what each of them reads is what the other has sent.
\<close>

definition connected ::
    "auth_env \<Rightarrow> int \<Rightarrow> int \<Rightarrow> auth_st \<Rightarrow> (bytes \<Rightarrow> bytes \<Rightarrow> bytes) \<Rightarrow> int \<Rightarrow> int \<Rightarrow> KeyPair \<Rightarrow> netconn \<Rightarrow> bool" where
  "connected E timeout ttl s ed_sign now ctimeout keys c \<longleftrightarrow>
     (let t = snd (authenticate E timeout ttl s);
          d = snd (client_authenticate ed_sign now (Some keys) ctimeout (NewReader c))
      in c_out (as_conn s) = empty_writer \<and> c_out c = empty_writer
         \<and> nc_content c = wbytes (c_out (as_conn t)) \<and> nc_content (as_conn s) = wbytes (c_out (cc_conn d)))"

text \<open>C2: two honest ends agree. Whenever the client and the server run the handshake on the two ends of one TLS connection,
  each reading exactly what the other sends, and the challenge is answered within its lifetime, both succeed: the server
  records the client's public key, both have read all that was sent, and no deadline is left. The only assumption about
  the signature scheme is that what the private key signs verifies under the public key.\<close>
theorem handshake_completes:
  assumes "auth_ready E chal sid cb s" "c_dlplan (as_conn s) = []" "length sid = ServerIDSize"
    and "client_ready cb c" "signs_for ed_sign (ae_verify E) keys" "auth_fresh E ttl"
    and "connected E timeout ttl s ed_sign now ctimeout keys c"
  shows "\<exists>t d. authenticate E timeout ttl s = (Ok (), t)
    \<and> client_authenticate ed_sign now (Some keys) ctimeout (NewReader c) = (Ok (), d)
    \<and> slice (as_buf t) offPubKey (offPubKey + PublicKeySize) = kp_PublicKey keys
    \<and> nc_content (as_conn t) = [] \<and> fst (cc_abs d) = [] \<and> \<not> c_closed (as_conn t) \<and> \<not> c_closed (cc_conn d)"
proof -
  let ?t = "snd (authenticate E timeout ttl s)"
  let ?d = "snd (client_authenticate ed_sign now (Some keys) ctimeout (NewReader c))"
  let ?ch = "challenge_of E chal sid"
  let ?hello = "wire_ClientHello \<lparr>PubKey = kp_PublicKey keys\<rparr>"
  let ?resp = "wire_ClientResponse \<lparr>Signature = client_sig ed_sign keys cb ?ch\<rparr>"
  have len: "length (kp_PublicKey keys) = PublicKeySize" using assms(5) by (simp add: signs_for_def)
  have wf: "wf_ServerChallenge ?ch"
    using assms(1,3) by (simp add: wf_ServerChallenge_def challenge_of_def auth_ready_def)
  have io: "wbytes (c_out (as_conn s)) = []" "wbytes (c_out c) = []"
    "nc_content c = wbytes (c_out (as_conn ?t))" "nc_content (as_conn s) = wbytes (c_out (cc_conn ?d))"
    using assms(7) by (simp_all add: connected_def Let_def)
  obtain r1 where "nc_content (as_conn s) = ?hello @ r1"
    using client_authenticate_sends_hello [OF assms(4) len, of ed_sign now ctimeout] io by (auto simp: prefix_def)
  from authenticate_sends_challenge [OF assms(1,2) this len, of timeout ttl] io
  obtain r2 where chal: "nc_content c = wire_ServerChallenge ?ch @ r2" by (auto simp: prefix_def)
  from client_authenticate_sends_response [OF assms(4) len wf this, of ed_sign now ctimeout] io
  obtain r3 where "nc_content (as_conn s) = ?hello @ ?resp @ r3" by (auto simp: prefix_def)
  then have acc: "auth_accepts E ttl chal sid cb (nc_content (as_conn s)) (kp_PublicKey keys) (client_sig ed_sign keys cb ?ch) r3"
    using client_sig_verifies [OF assms(5,6), of chal sid cb r3] by simp
  obtain t where t: "authenticate E timeout ttl s = (Ok (), t)" "auth_done E chal sid (kp_PublicKey keys) r3 s t"
    using authenticate_Ok_done [OF assms(1,2) acc] by blast
  then have "nc_content c = wire_ServerChallenge ?ch @ wire_AuthResult accepted @ []"
    using io(1,3) by (simp add: auth_done_def wbytes_def)
  from client_authenticate_Ok [OF assms(4) len wf this, of ed_sign now ctimeout]
  obtain d where d: "client_authenticate ed_sign now (Some keys) ctimeout (NewReader c) = (Ok (), d)"
    "client_authed ed_sign keys cb ?ch [] c d" by blast
  then have "nc_content (as_conn s) = ?hello @ ?resp" using io(2,4) by (simp add: client_authed_def)
  with \<open>nc_content (as_conn s) = ?hello @ ?resp @ r3\<close> have "r3 = []" by simp
  with t d show ?thesis by (auto simp: auth_done_def client_authed_def client_ready_def)
qed

text \<open>Two ends of a connection, with a toy signature scheme.\<close>

definition ex_pad_sign :: "bytes \<Rightarrow> bytes \<Rightarrow> bytes" where
  "ex_pad_sign priv m = take 64 (drop 32 priv @ m @ replicate 64 0)"

definition ex_hs_env :: auth_env where
  "ex_hs_env = ex_env\<lparr>ae_verify := (\<lambda>k m sig. sig = take 64 (k @ m @ replicate 64 0))\<rparr>"

definition ex_hs_server :: auth_st where
  "ex_hs_server = ex_st\<lparr>as_conn := (as_conn ex_st)\<lparr>c_in := \<lparr>rchunks =
     [wire_ClientHello \<lparr>PubKey = ex_key\<rparr>,
      wire_ClientResponse \<lparr>Signature = client_sig ex_pad_sign ex_keys (replicate 32 5) ex_chal\<rparr>], rend = io_EOF\<rparr>\<rparr>\<rparr>"

lemma ex_hs_ready: "auth_ready ex_hs_env (replicate 32 9) ex_sid (replicate 32 5) ex_hs_server"
  using ex_ready by (auto simp: auth_ready_def ex_hs_env_def ex_hs_server_def sizes)

lemma ex_hs_signs: "signs_for ex_pad_sign (ae_verify ex_hs_env) ex_keys"
  by (auto simp: signs_for_def ex_pad_sign_def ex_hs_env_def ex_keys_def ex_key_def sizes min_def)

lemma ex_hs_fresh: "auth_fresh ex_hs_env 60000000000"
  by (simp add: auth_fresh_def ex_hs_env_def ex_env_def duration_seconds_def)

lemma ex_hs_challenge: "challenge_of ex_hs_env (replicate 32 9) ex_sid = ex_chal"
  by (simp add: challenge_of_def ex_hs_env_def ex_env_def ex_chal_def)

lemma ex_hs_connected: "connected ex_hs_env 1 60000000000 ex_hs_server ex_pad_sign 0 1 ex_keys ex_cconn"
proof -
  let ?sig = "client_sig ex_pad_sign ex_keys (replicate 32 5) ex_chal"
  have dl: "c_dlplan (as_conn ex_hs_server) = []" by (simp add: ex_hs_server_def ex_st_def)
  have "auth_accepts ex_hs_env 60000000000 (replicate 32 9) ex_sid (replicate 32 5)
      (nc_content (as_conn ex_hs_server)) ex_key ?sig []"
    using client_sig_verifies [OF ex_hs_signs ex_hs_fresh, of "replicate 32 9" ex_sid "replicate 32 5" "[]"]
    by (simp add: ex_hs_server_def nc_content_def ex_hs_challenge ex_keys_def)
  from authenticate_Ok_done [OF ex_hs_ready dl this, of 1] obtain t where
    t: "authenticate ex_hs_env 1 60000000000 ex_hs_server = (Ok (), t)"
      "auth_done ex_hs_env (replicate 32 9) ex_sid ex_key [] ex_hs_server t" by blast
  obtain d where d: "client_authenticate ex_pad_sign 0 (Some ex_keys) 1 (NewReader ex_cconn) = (Ok (), d)"
      "client_authed ex_pad_sign ex_keys (replicate 32 5) ex_chal [] ex_cconn d"
    using client_authenticate_Ok [OF ex_client_ready ex_keys_len ex_client_content] by blast
  have out: "c_out (as_conn ex_hs_server) = empty_writer" "c_out ex_cconn = empty_writer"
    by (simp_all add: ex_hs_server_def ex_st_def ex_cconn_def)
  have "nc_content ex_cconn = wbytes (c_out (as_conn t))"
    using t(2) ex_client_content(2) out by (simp add: auth_done_def ex_hs_challenge wbytes_def empty_writer_def)
  moreover have "nc_content (as_conn ex_hs_server) = wbytes (c_out (cc_conn d))"
    using d(2) out by (simp add: client_authed_def ex_hs_server_def nc_content_def ex_keys_def)
  ultimately show ?thesis using t(1) d(1) out by (simp add: connected_def)
qed

theorem handshake_completes_witness:
  "\<exists>t. authenticate ex_hs_env 1 60000000000 ex_hs_server = (Ok (), t)
     \<and> slice (as_buf t) offPubKey (offPubKey + PublicKeySize) = ex_key"
proof -
  have "length ex_sid = ServerIDSize" "c_dlplan (as_conn ex_hs_server) = []"
    by (simp_all add: ex_sid_def sizes ex_hs_server_def ex_st_def)
  from handshake_completes [OF ex_hs_ready this(2,1) ex_client_ready ex_hs_signs ex_hs_fresh ex_hs_connected]
  show ?thesis by (auto simp: ex_keys_def)
qed

section \<open>From the application to the broker\<close>

text \<open>C3: what an application sends is what the router publishes. When the write loop of a client
  sends an admissible message on a connection that accepts it, and the handler of the router reads
  these bytes, then both succeed: exactly one message is published, on the subject of the recipient,
  and it carries the recipient, the identifier and the payload the application gave and, as its
  sender, the key the connection was authenticated for; the recipient's client hands that very
  message to its application. Only the round trip of the protobuf encoding is assumed.\<close>
theorem message_end_to_end:
  assumes "sound_conn c" "\<not> c_closed c" "wf_ClientMessage (om_msg msg)" "isValidHexPubKey (om_To msg)"
    and "sendMessage cfg now msg c = (r, c')" "wbytes (c_out c') = wbytes (c_out c) @ delivered"
    and "nc_content (ms_conn s) = delivered @ rest" "\<not> c_closed (ms_conn s)"
    and "pool_ok N s" "MaxMessageSize \<le> N" "N < 2 ^ 32"
    and "marshal (routed rnow peerHex (om_msg msg)) = Ok data"
      "nats_Publish api (subjectForClient (om_To msg)) data (ms_nats s) = (Ok (), n')"
    and "unmarshal data = Inr (routed rnow peerHex (om_msg msg))"
  shows "r = Ok () \<and> (\<exists>t. handleMessage api marshal rnow N (int N) peerHex s = (Ok (), t)
      \<and> ms_nats t = n' \<and> nc_content (ms_conn t) = rest)
    \<and> received unmarshal [\<lparr>sm_Data = data\<rparr>] = [\<lparr>pm_From = peerHex, pm_To = om_To msg, pm_Id = om_MsgID msg,
        pm_Payload = om_Payload msg, pm_UnixDateTime = rnow\<rparr>]"
proof -
  from sendMessage_open [OF assms(1,2,5)] assms(3) have r: "r = Ok ()"
    and out: "wbytes (c_out c') = wbytes (c_out c) @ wire_ClientMessage (om_msg msg)" by simp_all
  with assms(6,7) have bs: "nc_content (ms_conn s) = wire_ClientMessage (om_msg msg) @ rest" by simp
  have N: "4 \<le> N" using assms(10) by (simp add: sizes)
  have "length (body_ClientMessage (om_msg msg)) \<le> N"
    using assms(3,10) length_body_ClientMessage [of "om_msg msg"] by (simp add: wf_ClientMessage_def)
  then have "admissible N (om_msg msg)"
    using assms(3,4) by (simp add: admissible_def wf_ClientMessage_def om_msg_def)
  moreover have "publishes api marshal rnow peerHex (om_msg msg) (ms_nats s) n'"
    using assms(12,13) by (simp add: publishes_def om_msg_def)
  ultimately have "\<exists>t. handleMessage api marshal rnow N (int N) peerHex s = (Ok (), t)
      \<and> ms_nats t = n' \<and> nc_content (ms_conn t) = rest"
    using handleMessage_Ok [OF assms(9) N assms(11) bs assms(8)] by blast
  moreover have "received unmarshal [\<lparr>sm_Data = data\<rparr>] = [routed rnow peerHex (om_msg msg)]"
    using assms(14) by (simp add: received_def)
  ultimately show ?thesis using r by (simp add: routed_def om_msg_def)
qed

definition ex_e2e :: "(string \<times> bytes) list msg_st" where
  "ex_e2e = ex_msg_st\<lparr>ms_conn := (ms_conn ex_msg_st)\<lparr>c_in := \<lparr>rchunks = [wire_ClientMessage (om_msg ex_out)], rend = io_EOF\<rparr>\<rparr>\<rparr>"

theorem message_end_to_end_witness:
  "\<exists>t. handleMessage ex_nats ex_marshal 7 65536 65536 ''bob'' ex_e2e = (Ok (), t)
     \<and> ms_nats t = [(subjectForClient (om_To ex_out), bytes_of_string ''bob'' @ [1, 2])]"
proof -
  have c: "sound_conn ex_cconn" "\<not> c_closed ex_cconn" by (simp_all add: ex_cconn_def)
  have m: "wf_ClientMessage (om_msg ex_out)" "isValidHexPubKey (om_To ex_out)"
    by (simp_all add: wf_ClientMessage_def om_msg_def ex_out_def sizes isValidHexPubKey_def hex_scan_iff is_hex_char_def)
  obtain r c' where s: "sendMessage ex_ccfg 0 ex_out ex_cconn = (r, c')" by fastforce
  from sendMessage_open(2) [OF c s] m
  have d: "wbytes (c_out c') = wbytes (c_out ex_cconn) @ wire_ClientMessage (om_msg ex_out)" by simp
  have e: "nc_content (ms_conn ex_e2e) = wire_ClientMessage (om_msg ex_out) @ []" "\<not> c_closed (ms_conn ex_e2e)"
      "pool_ok 65536 ex_e2e" "ms_nats ex_e2e = []"
    by (simp_all add: ex_e2e_def nc_content_def ex_msg_st_def pool_ok_def)
  have p: "ex_marshal (routed 7 ''bob'' (om_msg ex_out)) = Ok (bytes_of_string ''bob'' @ [1, 2])"
      "nats_Publish ex_nats (subjectForClient (om_To ex_out)) (bytes_of_string ''bob'' @ [1, 2]) (ms_nats ex_e2e)
       = (Ok (), [(subjectForClient (om_To ex_out), bytes_of_string ''bob'' @ [1, 2])])"
    by (simp_all add: ex_marshal_def routed_def om_msg_def ex_out_def ex_nats_def e(4))
  from message_end_to_end [where N = 65536 and rnow = 7 and peerHex = "''bob''" and marshal = ex_marshal
      and unmarshal = "\<lambda>_. Inr (routed 7 ''bob'' (om_msg ex_out))" and delivered = "wire_ClientMessage (om_msg ex_out)"
      and rest = "[]", OF c m s d e(1,2,3) _ _ p]
  show ?thesis by (auto simp: MaxMessageSize_def)
qed

section \<open>From the broker to the application\<close>

text \<open>A session that starts on a given stream.\<close>

lemma reachable_incoming:
  assumes "reachable (fresh_session c) step s" "cc_buf c = []" "nc_content (cc_conn c) = stream ms"
    and "list_all wf_ServerMessage ms"
  shows "reachable (incoming cfg ms c) step s"
  using assms by (auto simp: reachable_def incoming_def)

lemma stream_frames: "stream (map (\<lambda>d. \<lparr>sm_Data = d\<rparr>) ds) = frames ds"
  by (simp add: frames_def comp_def)

text \<open>C4: what the broker delivers to a peer reaches the application. Let the session of a client
  start on the bytes that the write loop of its peer has sent while it runs, whatever the
  interleaving on either side. Then what the application has received or finds in its channel are
  the messages of a prefix of those the broker delivered and the peer queued, in order and each once, and when
  the stream has ended and the application did not end the session, of all those the peer wrote.\<close>
theorem peer_to_application:
  assumes "reachable (peer_init api cap timeout B) (peer_step api) p" "ps_running p"
    and "wbytes (c_out (p_conn (pe_peer (ps_env p)))) = B @ nc_content (cc_conn c)" "cc_buf c = []"
    and "reachable (fresh_session c) (client_step cfg unmarshal) s"
  shows "prefix (ps_written p) (ps_queued p)
    \<and> (\<exists>k \<le> length (ps_written p).
        ss_got s @ cl_recv (ss_client s) = received unmarshal (map (\<lambda>d. \<lparr>sm_Data = d\<rparr>) (take k (ps_queued p)))
        \<and> (cl_reader (ss_client s) = RDone \<and> \<not> cl_sendClosed (ss_client s) \<longrightarrow> k = length (ps_written p)))"
proof -
  let ?ms = "map (\<lambda>d. \<lparr>sm_Data = d\<rparr>) (ps_written p)"
  have "peer_inv cap timeout B p" using assms(1) by (rule peer_invariant.inv_reachable)
  then have q: "ps_queued p = ps_written p @ p_writeCh (pe_peer (ps_env p))"
    and w: "wbytes (c_out (p_conn (pe_peer (ps_env p)))) = B @ frames (ps_written p)"
    and wf: "list_all wf_ServerMessage ?ms"
    using assms(2) by (auto simp: peer_inv_def Let_def list_all_iff)
  have "nc_content (cc_conn c) = stream ?ms" using assms(3) w by (simp only: stream_frames same_append_eq)
  from rs.inv_reachable [OF reachable_incoming [OF assms(5,4) this wf]]
  obtain k where "k \<le> length ?ms" "ss_got s @ cl_recv (ss_client s) = received unmarshal (take k ?ms)"
    "cl_reader (ss_client s) = RDone \<and> \<not> cl_sendClosed (ss_client s) \<longrightarrow> k = length ?ms"
    by (auto simp: receiving_def read_inv_def Let_def)
  with q show ?thesis by (auto simp: take_map)
qed

definition ex_wrote :: "((string \<times> bytes) list, unit, unit) peer_sys" where
  "ex_wrote = ex_sys_full\<lparr>ps_env := snd (writeLoop_turn ex_nats False 0 (ps_env ex_sys_full)), ps_written := [[7, 8]]\<rparr>"

lemma ex_wrote_turn:
  "writeLoop_turn ex_nats False 0 (ps_env ex_sys_full) = (Again, ps_env ex_wrote)"
  "wbytes (c_out (p_conn (pe_peer (ps_env ex_wrote)))) = wire_ServerMessage \<lparr>sm_Data = [7, 8]\<rparr>"
  by (simp_all add: ex_wrote_def ex_sys_full_def ex_sys_def ex_peer_def ex_conn_def writeLoop_turn_def writeMessage_def
      renewDeadline_def time_Sub_def peerConn_def go_lift_def nc_SetWriteDeadline_def nc_asWriter_def go_defs
      ServerMessage_Encode_def Write_def empty_writer_def wbytes_def wire_ServerMessage_def maxDuration_def minDuration_def sizes)

lemma ex_wrote_reach: "reachable (peer_init ex_nats 1 10 []) (peer_step ex_nats) ex_wrote"
proof (rule reachable_step [OF ex_sys_deliver])
  have "ex_wrote = ex_sys_full\<lparr>ps_env := ps_env ex_wrote, ps_clock := 0,
      ps_written := ps_written ex_sys_full @ take 1 (p_writeCh (pe_peer (ps_env ex_sys_full)))\<rparr>"
    by (simp add: ex_wrote_def ex_sys_full_def ex_sys_def)
  with peer_step.written [OF _ _ ex_wrote_turn(1)] show "peer_step ex_nats ex_sys_full ex_wrote"
    by (simp add: ex_sys_full_def ex_sys_def)
qed

definition ex_listener :: ccon where
  "ex_listener = NewReader (ex_cconn\<lparr>c_in := \<lparr>rchunks = [frames [[7, 8]]], rend = io_EOF\<rparr>\<rparr>)"

definition ex_listening :: "go_error list session" where
  "ex_listening = \<lparr>ss_client = readStart (runLoop_start ex_listener []), ss_pushed = [], ss_got = []\<rparr>"

lemma ex_listening_reach: "reachable (fresh_session ex_listener) (client_step ex_ccfg ex_unm) ex_listening"
proof (rule reachable_step [OF reachable_init])
  let ?s = "\<lparr>ss_client = runLoop_start ex_listener [], ss_pushed = [], ss_got = []\<rparr> :: go_error list session"
  show "fresh_session ex_listener ?s"
    by (auto simp: fresh_session_def session_init_def ex_listener_def ex_cconn_def)
  have "client_internal ex_ccfg ex_unm (ss_client ?s) (readStart (ss_client ?s))"
    by (rule client_internal.start) (simp add: runLoop_start_def)
  from client_step.internal [OF this] show "client_step ex_ccfg ex_unm ?s ex_listening" by (simp add: ex_listening_def)
qed

theorem peer_to_application_witness:
  "prefix (ps_written ex_wrote) (ps_queued ex_wrote)
   \<and> (\<exists>k \<le> length (ps_written ex_wrote). ss_got ex_listening @ cl_recv (ss_client ex_listening)
        = received ex_unm (map (\<lambda>d. \<lparr>sm_Data = d\<rparr>) (take k (ps_queued ex_wrote))))"
proof -
  have "ps_running ex_wrote" by (simp add: ex_wrote_def ex_sys_full_def ex_sys_def)
  moreover have "wbytes (c_out (p_conn (pe_peer (ps_env ex_wrote)))) = [] @ nc_content (cc_conn ex_listener)" "cc_buf ex_listener = []"
    using ex_wrote_turn(2) by (simp_all add: ex_listener_def nc_content_def)
  ultimately show ?thesis
    using peer_to_application [OF ex_wrote_reach _ _ _ ex_listening_reach] by blast
qed

section \<open>A message that is admitted but cannot be delivered\<close>

lemma writeMessage_oversized:
  assumes "writeMessage now data p = (r, p')" "MaxMessageSize < length data"
  shows "c_out (p_conn p') = c_out (p_conn p)"
proof -
  obtain r1 p1 where 1: "renewDeadline now p = (r1, p1)" by fastforce
  have "ServerMessage_Encode \<lparr>sm_Data = data\<rparr> w = (Err (Errorf ''message too large: %d > %d''
      [int (length data), int MaxMessageSize]), w)" for w
    using assms(2) by (simp add: ServerMessage_Encode_def)
  then have "c_out (p_conn p') = c_out (p_conn p1)"
    using assms(1) 1
    by (cases r1) (auto simp: writeMessage_def wrapf_def peerConn_def go_lift_def nc_asWriter_def split: if_splits)
  then show ?thesis using renewDeadline_frame [OF 1] by simp
qed

text \<open>C18: the two size limits do not fit together. The router admits frames up to the maximum size,
  but sends the recipient a larger envelope, which also holds the sender and the recipient's key;
  when it exceeds the maximum, the encoder refuses it and the write loop closes the recipient's connection
  without a byte sent. So any client can disconnect any other one by a message close to the limit:
  with a protobuf encoding that contains the keys and the payload, every message the router admits whose payload leaves
  less than 128 bytes of the maximum has this effect on a peer that has nothing else to write.\<close>
theorem oversized_envelope_disconnects:
  assumes "admissible MaxMessageSize m" "length peerHex = PublicKeySize * 2"
    and "marshal (routed rnow peerHex m) = Ok data"
    and "length peerHex + length (cm_To m) + length (cm_Payload m) \<le> length data"
    and "MaxMessageSize < length (cm_Payload m) + 128"
    and "close_ok (pe_peer e)" "p_writeCh (pe_peer e) = []" "0 < p_writeCap (pe_peer e)" "\<not> p_closeCh (pe_peer e)"
  shows "\<exists>e'. writeLoop_turn api pick now (handleNATSMessage api pick' data e) = (Return, e')
    \<and> p_closeOnce (pe_peer e') \<and> c_closed (p_conn (pe_peer e'))
    \<and> wbytes (c_out (p_conn (pe_peer e'))) = wbytes (c_out (p_conn (pe_peer e)))"
proof -
  have len: "MaxMessageSize < length data" using assms(1,2,4,5) valid_hex_length [of "cm_To m"] by (simp add: admissible_def sizes)
  let ?e = "handleNATSMessage api pick' data e"
  have q: "?e = e\<lparr>pe_peer := (pe_peer e)\<lparr>p_writeCh := [data]\<rparr>\<rparr>"
    using assms(7-9) by (simp add: handleNATSMessage_def Let_def)
  obtain r p where w: "writeMessage now data ((pe_peer ?e)\<lparr>p_writeCh := []\<rparr>) = (r, p)" by fastforce
  have r: "r \<noteq> Ok ()" using writeMessage_result(2) [OF w] len by (auto simp: wf_ServerMessage_def)
  have f: "peer_frame p = peer_frame (pe_peer e)" using writeMessage_result(1) [OF w] assms(7) q by (cases "pe_peer e") (simp add: peer_frame_def)
  have out: "wbytes (c_out (p_conn p)) = wbytes (c_out (p_conn (pe_peer e)))"
    using writeMessage_oversized [OF w len] q by simp
  have t: "writeLoop_turn api pick now ?e = (Return, Peer_Close api (?e\<lparr>pe_peer := p\<rparr>))"
    using assms(9) q w r by (cases r) (simp_all add: writeLoop_turn_def Let_def)
  have "close_ok p" using f assms(6) by (auto simp: peer_frame_def close_ok_def)
  then have "close_ok (pe_peer (Peer_Close api (?e\<lparr>pe_peer := p\<rparr>)))" "p_closeOnce (pe_peer (Peer_Close api (?e\<lparr>pe_peer := p\<rparr>)))"
    using Peer_Close_ok [of "?e\<lparr>pe_peer := p\<rparr>" api] by simp_all
  then show ?thesis using t out by (auto simp: close_ok_def Peer_Close_frame)
qed

definition ex_large :: ClientMessage where
  "ex_large = ex_message\<lparr>cm_Payload := replicate 65420 0\<rparr>"

definition ex_envelope :: "Message \<Rightarrow> bytes res" where
  "ex_envelope m = Ok (bytes_of_string (pm_From m) @ bytes_of_string (pm_To m) @ pm_Payload m)"

theorem oversized_envelope_disconnects_witness:
  "\<exists>data e'. ex_envelope (routed 7 (replicate 64 CHR ''b'') ex_large) = Ok data
     \<and> writeLoop_turn ex_nats False 0 (handleNATSMessage ex_nats False data \<lparr>pe_peer = ex_peer, pe_nats = []\<rparr>) = (Return, e')
     \<and> c_closed (p_conn (pe_peer e'))"
proof -
  let ?data = "bytes_of_string (replicate 64 CHR ''b'') @ bytes_of_string (cm_To ex_large) @ cm_Payload ex_large"
  have m: "admissible MaxMessageSize ex_large"
    using ex_admissible by (simp add: admissible_def ex_large_def ex_message_def body_ClientMessage_def sizes)
  have d: "ex_envelope (routed 7 (replicate 64 CHR ''b'') ex_large) = Ok ?data"
    by (simp add: ex_envelope_def routed_def)
  have p: "close_ok ex_peer" "p_writeCh ex_peer = []" "0 < p_writeCap ex_peer" "\<not> p_closeCh ex_peer"
    by (simp_all add: close_ok_def ex_peer_def ex_conn_def)
  have l: "length (replicate 64 CHR ''b'') = PublicKeySize * 2" "MaxMessageSize < length (cm_Payload ex_large) + 128"
    by (simp_all add: sizes ex_large_def)
  from oversized_envelope_disconnects [where marshal = ex_envelope and rnow = 7 and peerHex = "replicate 64 CHR ''b''"
      and e = "\<lparr>pe_peer = ex_peer, pe_nats = []\<rparr>" and api = ex_nats and pick = False and now = 0 and pick' = False,
      OF m l(1) d _ l(2)] p d
  show ?thesis by auto
qed

end
